(* ===== verification/Prelude.thy ===== *)
theory Prelude
  imports Main "HOL-Library.Word"
begin

text \<open>
  Shared vocabulary of the development: Go's byte slices and strings and the conversions
  between them, error values, decimal integers as \<^verbatim>\<open>strconv\<close> prints and reads them, and the
  generic transition-system locale that every step relation of the development interprets.

  Naming: a Go \<^verbatim>\<open>[]byte\<close> is a list of 8-bit words (\<open>bytes\<close>), a Go \<^verbatim>\<open>string\<close> is a HOL
  \<open>string\<close> (one \<open>char\<close> is one byte, as in Go), a Go \<^verbatim>\<open>int64\<close> is a 64-bit word read with
  \<open>sint\<close>. A function of the form \<^verbatim>\<open>(T, error)\<close> returns \<open>go_error + T\<close>.
\<close>

section \<open>Collections of rewrite rules\<close>

named_theorems go_defs \<open>definitions of small model operations, unfolded by component proofs\<close>
named_theorems byte_simps \<open>facts on bytes, digits and strings\<close>

section \<open>Bytes and strings\<close>

type_synonym byte = "8 word"
type_synonym bytes = "byte list"
type_synonym int64 = "64 word"

definition string_of_bytes :: "bytes \<Rightarrow> string" where
  "string_of_bytes = map (\<lambda>b. char_of (unat b))"

definition bytes_of_string :: "string \<Rightarrow> bytes" where
  "bytes_of_string = map (\<lambda>c. word_of_nat (of_char c))"

lemma unat_byte_less: "unat (b :: byte) < 256"
  using unsigned_less [of b] by simp

lemma char_of_byte: "word_of_nat (of_char (char_of (unat b) :: char)) = (b :: byte)"
  using unat_byte_less [of b] by simp

lemma byte_of_char: "char_of (unat (word_of_nat (of_char c) :: byte)) = c"
  by (simp add: unat_of_nat)

lemma string_of_bytes_of_string [simp]: "string_of_bytes (bytes_of_string s) = s"
  by (simp add: string_of_bytes_def bytes_of_string_def comp_def map_idI byte_of_char)

lemma bytes_of_string_of_bytes [simp]: "bytes_of_string (string_of_bytes bs) = bs"
  by (simp add: string_of_bytes_def bytes_of_string_def comp_def map_idI char_of_byte del: of_char_of)

lemma bytes_of_string_inject [simp]: "bytes_of_string s = bytes_of_string t \<longleftrightarrow> s = t"
  by (metis string_of_bytes_of_string)

lemma string_of_bytes_inject [simp]: "string_of_bytes s = string_of_bytes t \<longleftrightarrow> s = t"
  by (metis bytes_of_string_of_bytes)

lemma bytes_of_string_simps [simp]:
  "bytes_of_string [] = []"
  "bytes_of_string (c # s) = word_of_nat (of_char c) # bytes_of_string s"
  "bytes_of_string (s @ t) = bytes_of_string s @ bytes_of_string t"
  by (simp_all add: bytes_of_string_def)

lemma string_of_bytes_simps [simp]:
  "string_of_bytes [] = []"
  "string_of_bytes (b # bs) = char_of (unat b) # string_of_bytes bs"
  "string_of_bytes (bs @ cs) = string_of_bytes bs @ string_of_bytes cs"
  by (simp_all add: string_of_bytes_def)

lemma length_string_bytes [simp]:
  "length (bytes_of_string s) = length s" "length (string_of_bytes bs) = length bs"
  by (simp_all add: bytes_of_string_def string_of_bytes_def)

lemma bytes_of_string_empty [simp]:
  "bytes_of_string s = [] \<longleftrightarrow> s = []" "string_of_bytes bs = [] \<longleftrightarrow> bs = []"
  by (simp_all add: bytes_of_string_def string_of_bytes_def)

section \<open>Error values\<close>

text \<open>
  \<open>ErrorNew\<close> is \<^verbatim>\<open>errors.New(text)\<close>; \<open>ErrorFmt\<close> is \<^verbatim>\<open>fmt.Errorf\<close> with the numbers it prints;
  \<open>ErrorText\<close> is \<^verbatim>\<open>fmt.Errorf\<close> with one string argument; \<open>ErrorWrap\<close> is
  \<^verbatim>\<open>fmt.Errorf("%w: %v", sentinel, detail)\<close>; \<open>ContextErr\<close> is the value of \<^verbatim>\<open>ctx.Err()\<close>.
\<close>

datatype go_error =
    ErrorNew string
  | ErrorFmt string "int list"
  | ErrorText string string
  | ErrorWrap go_error string
  | ContextErr string

abbreviation context_Canceled :: go_error where
  "context_Canceled \<equiv> ContextErr ''context canceled''"

text \<open>\<^verbatim>\<open>errors.Is\<close>: equality with the sentinel along the chain of wrapped errors.\<close>

fun errors_Is :: "go_error \<Rightarrow> go_error \<Rightarrow> bool" where
  "errors_Is (ErrorWrap e d) target \<longleftrightarrow> ErrorWrap e d = target \<or> errors_Is e target"
| "errors_Is e target \<longleftrightarrow> e = target"

text \<open>
  The outcome of a call that can panic (a nil dereference, an index out of range, a close of a
  nil or closed channel): the returned value or the panic with its reason.
\<close>

datatype 'a go = Ret 'a | Panic string

text \<open>Running a list of fallible options in order, stopping at the first error.\<close>

fun apply_options :: "('c \<Rightarrow> go_error + 'c) list \<Rightarrow> 'c \<Rightarrow> go_error + 'c" where
  "apply_options [] c = Inr c"
| "apply_options (opt # opts) c =
     (case opt c of Inl e \<Rightarrow> Inl e | Inr c' \<Rightarrow> apply_options opts c')"

lemma apply_options_append:
  "apply_options (xs @ ys) c =
     (case apply_options xs c of Inl e \<Rightarrow> Inl e | Inr c' \<Rightarrow> apply_options ys c')"
  by (induction xs arbitrary: c) (auto split: sum.splits)

lemma apply_options_preserves:
  assumes "\<And>opt c c'. opt \<in> set opts \<Longrightarrow> P c \<Longrightarrow> opt c = Inr c' \<Longrightarrow> P c'"
    and "P c" and "apply_options opts c = Inr c'"
  shows "P c'"
  using assms
proof (induction opts arbitrary: c)
  case Nil
  then show ?case by simp
next
  case (Cons opt opts)
  then obtain d where d: "opt c = Inr d" "apply_options opts d = Inr c'"
    by (auto split: sum.splits)
  with Cons.prems have "P d" by auto
  with Cons.IH [of d] Cons.prems(1) d(2) show ?case by auto
qed

section \<open>Decimal integers\<close>

text \<open>
  \<^verbatim>\<open>strconv.Itoa\<close> on \<open>int\<close>, and \<^verbatim>\<open>strconv.Atoi\<close> on a non-empty run of ASCII digits that is
  short enough not to leave \<^verbatim>\<open>int64\<close> (the only way the code calls it).
\<close>

definition is_digit_byte :: "byte \<Rightarrow> bool" where
  "is_digit_byte b \<longleftrightarrow> 48 \<le> b \<and> b \<le> 57"

definition digit_byte :: "nat \<Rightarrow> byte" where
  "digit_byte d = word_of_nat (48 + d)"

definition digit_val :: "byte \<Rightarrow> nat" where
  "digit_val b = unat b - 48"

fun itoa_nat :: "nat \<Rightarrow> bytes" where
  "itoa_nat n = (if n < 10 then [digit_byte n] else itoa_nat (n div 10) @ [digit_byte (n mod 10)])"

declare itoa_nat.simps [simp del]

definition Itoa :: "int \<Rightarrow> bytes" where
  "Itoa i = (if i < 0 then 45 # itoa_nat (nat (- i)) else itoa_nat (nat i))"

definition atoi_digits :: "bytes \<Rightarrow> nat" where
  "atoi_digits bs = foldl (\<lambda>acc b. acc * 10 + digit_val b) 0 bs"

lemma atoi_digits_Nil [simp]: "atoi_digits [] = 0"
  by (simp add: atoi_digits_def)

lemma atoi_digits_snoc [simp]: "atoi_digits (bs @ [b]) = atoi_digits bs * 10 + digit_val b"
  by (simp add: atoi_digits_def)

lemma unat_digit_byte: "d < 10 \<Longrightarrow> unat (digit_byte d) = 48 + d"
  by (simp add: digit_byte_def unat_of_nat del: of_nat_add)

lemma digit_val_digit_byte [simp]: "d < 10 \<Longrightarrow> digit_val (digit_byte d) = d"
  by (simp add: digit_val_def unat_digit_byte)

lemma is_digit_digit_byte [simp]: "d < 10 \<Longrightarrow> is_digit_byte (digit_byte d)"
  by (simp add: is_digit_byte_def word_le_nat_alt unat_digit_byte)

lemma digit_val_less: "is_digit_byte b \<Longrightarrow> digit_val b < 10"
  by (simp add: is_digit_byte_def digit_val_def word_le_nat_alt) arith

lemma atoi_itoa_nat [simp]: "atoi_digits (itoa_nat n) = n"
proof (induction n rule: itoa_nat.induct)
  case (1 n)
  show ?case
  proof (cases "n < 10")
    case True
    then show ?thesis
      using atoi_digits_snoc [of "[]"] by (subst itoa_nat.simps) simp
  next
    case False
    with "1.IH" show ?thesis by (subst itoa_nat.simps) simp
  qed
qed

lemma itoa_nat_digits: "\<forall>b \<in> set (itoa_nat n). is_digit_byte b"
proof (induction n rule: itoa_nat.induct)
  case (1 n)
  then show ?case by (subst itoa_nat.simps) auto
qed

lemma itoa_nat_nonempty [simp]: "itoa_nat n \<noteq> []"
  by (subst itoa_nat.simps) simp

lemma length_itoa_nat: "n < 10 ^ k \<Longrightarrow> 0 < k \<Longrightarrow> length (itoa_nat n) \<le> k"
proof (induction n arbitrary: k rule: itoa_nat.induct)
  case (1 n)
  show ?case
  proof (cases "n < 10")
    case True
    with "1.prems" show ?thesis by (subst itoa_nat.simps) simp
  next
    case False
    with "1.prems" have "k \<noteq> 1" by auto
    with "1.prems" obtain j where k: "k = Suc j" "0 < j" by (cases k) auto
    with "1.prems" have "n div 10 < 10 ^ j"
      by (simp add: less_mult_imp_div_less mult.commute)
    with "1.IH" [OF False, of j] k False show ?thesis by (subst itoa_nat.simps) simp
  qed
qed

lemma atoi_digits_bound: "\<forall>b \<in> set bs. is_digit_byte b \<Longrightarrow> atoi_digits bs < 10 ^ length bs"
proof (induction bs rule: rev_induct)
  case Nil
  then show ?case by simp
next
  case (snoc b bs)
  then have "atoi_digits bs < 10 ^ length bs" and "digit_val b < 10"
    by (auto simp: digit_val_less)
  then show ?case by simp
qed

section \<open>Runs of a predicate\<close>

lemma takeWhile_append_stop:
  "\<forall>x \<in> set xs. P x \<Longrightarrow> ys = [] \<or> \<not> P (hd ys) \<Longrightarrow>
     takeWhile P (xs @ ys) = xs \<and> dropWhile P (xs @ ys) = ys"
  by (cases ys) auto

section \<open>Transition systems\<close>

text \<open>
  Every component whose goroutines interleave is a step relation. The states reachable from
  its initial states satisfy every predicate that holds initially and is kept by each step.
\<close>

inductive reachable :: "('s \<Rightarrow> bool) \<Rightarrow> ('s \<Rightarrow> 's \<Rightarrow> bool) \<Rightarrow> 's \<Rightarrow> bool"
  for init :: "'s \<Rightarrow> bool" and step :: "'s \<Rightarrow> 's \<Rightarrow> bool" where
  reachable_init: "init s \<Longrightarrow> reachable init step s"
| reachable_step: "reachable init step s \<Longrightarrow> step s t \<Longrightarrow> reachable init step t"

locale invariant_system =
  fixes init :: "'s \<Rightarrow> bool"
    and step :: "'s \<Rightarrow> 's \<Rightarrow> bool"
    and inv :: "'s \<Rightarrow> bool"
  assumes init_inv: "init s \<Longrightarrow> inv s"
    and step_inv: "inv s \<Longrightarrow> step s t \<Longrightarrow> inv t"
begin

lemma reachable_inv: "reachable init step s \<Longrightarrow> inv s"
  by (induction rule: reachable.induct) (auto intro: init_inv step_inv)

lemma reachable_imp:
  assumes "reachable init step s" and "inv s \<Longrightarrow> Q s"
  shows "Q s"
  using assms reachable_inv by blast

lemma reachable_steps: "reachable init step s \<Longrightarrow> step\<^sup>*\<^sup>* s t \<Longrightarrow> reachable init step t"
  by (rotate_tac, induction rule: rtranclp_induct) (auto intro: reachable_step)

lemma steps_inv: "step\<^sup>*\<^sup>* s t \<Longrightarrow> inv s \<Longrightarrow> inv t"
  by (induction rule: rtranclp_induct) (auto intro: step_inv)

end

section \<open>Packet codecs\<close>

text \<open>
  The \<^verbatim>\<open>Parser\<close> interfaces of the two clients (\<^verbatim>\<open>dep.go\<close> of each) rely on one law: a
  well-formed message that serializes parses back to itself.
\<close>

locale packet_codec =
  fixes serialize :: "'m \<Rightarrow> go_error + bytes"
    and parse :: "bytes \<Rightarrow> go_error + 'm"
    and wf :: "'m \<Rightarrow> bool"
  assumes parse_serialize: "wf m \<Longrightarrow> serialize m = Inr bs \<Longrightarrow> parse bs = Inr m"
begin

lemma serialize_inj:
  assumes "wf m" "wf m'" "serialize m = Inr bs" "serialize m' = Inr bs"
  shows "m = m'"
  using parse_serialize [OF assms(1,3)] parse_serialize [OF assms(2,4)] by simp

lemma stream_roundtrip:
  assumes "\<forall>m \<in> set ms. wf m" and "map serialize ms = map Inr bss"
  shows "map parse bss = map Inr ms"
proof -
  have "length ms = length bss" using assms(2) by (metis length_map)
  then show ?thesis
    using assms by (induction ms bss rule: list_induct2) (auto intro: parse_serialize)
qed

end

end
