(* ===== verification/GoJSON.thy ===== *)
theory GoJSON
  imports Prelude "HOL-Library.List_Lexorder" "HOL-Library.Char_ord"
begin

text \<open>
  The part of Go's \<^verbatim>\<open>encoding/json\<close> that the Socket.IO parser calls: the scanner (the byte-wise
  automaton with its stack of open brackets), \<^verbatim>\<open>Decoder\<close> with \<^verbatim>\<open>Token\<close>, \<^verbatim>\<open>More\<close> and \<^verbatim>\<open>Decode\<close>
  into a \<^verbatim>\<open>string\<close> or a \<^verbatim>\<open>json.RawMessage\<close>, and \<^verbatim>\<open>Marshal\<close> of the values an event carries.
  The main result is that whatever \<^verbatim>\<open>Marshal\<close> writes the scanner reads as one value, and that
  quoting a valid UTF-8 string and unquoting it is the identity.
\<close>

section \<open>The scanner\<close>

datatype jpush = ObjKey | ObjValue | ArrValue

datatype jstate =
    BeginValue | BeginValueOrEmpty | BeginString | BeginStringOrEmpty
  | EndValue
  | InString | InStringEsc | InStringEscU nat
  | NumNeg | Num1 | Num0 | NumDot | NumDot0 | NumE | NumESign | NumE0
  | InLit bytes

datatype jres = JStep jstate "jpush list" | JDone | JBad

definition is_space :: "byte \<Rightarrow> bool" where
  "is_space c \<longleftrightarrow> c = 0x20 \<or> c = 0x09 \<or> c = 0x0A \<or> c = 0x0D"

definition is_hex :: "byte \<Rightarrow> bool" where
  "is_hex c \<longleftrightarrow> (0x30 \<le> c \<and> c \<le> 0x39) \<or> (0x61 \<le> c \<and> c \<le> 0x66) \<or> (0x41 \<le> c \<and> c \<le> 0x46)"

definition maxNestingDepth :: nat where
  "maxNestingDepth = 10000"

definition jpush :: "jpush \<Rightarrow> jpush list \<Rightarrow> jstate \<Rightarrow> jres" where
  "jpush p ps st = (if Suc (length ps) \<le> maxNestingDepth then JStep st (p # ps) else JBad)"

text \<open>After a complete value: what the innermost open bracket allows next.\<close>

fun jend :: "jpush list \<Rightarrow> byte \<Rightarrow> jres" where
  "jend [] c = JDone"
| "jend (p # ps) c =
     (if is_space c then JStep EndValue (p # ps)
      else case p of
        ObjKey \<Rightarrow> if c = 0x3A then JStep BeginValue (ObjValue # ps) else JBad
      | ObjValue \<Rightarrow>
          if c = 0x2C then JStep BeginString (ObjKey # ps)
          else if c = 0x7D then JStep EndValue ps else JBad
      | ArrValue \<Rightarrow>
          if c = 0x2C then JStep BeginValue (ArrValue # ps)
          else if c = 0x5D then JStep EndValue ps else JBad)"

definition jbegin :: "jpush list \<Rightarrow> byte \<Rightarrow> jres" where
  "jbegin ps c =
     (if is_space c then JStep BeginValue ps
      else if c = 0x7B then jpush ObjKey ps BeginStringOrEmpty
      else if c = 0x5B then jpush ArrValue ps BeginValueOrEmpty
      else if c = 0x22 then JStep InString ps
      else if c = 0x2D then JStep NumNeg ps
      else if c = 0x30 then JStep Num0 ps
      else if c = 0x74 then JStep (InLit [0x72, 0x75, 0x65]) ps
      else if c = 0x66 then JStep (InLit [0x61, 0x6C, 0x73, 0x65]) ps
      else if c = 0x6E then JStep (InLit [0x75, 0x6C, 0x6C]) ps
      else if 0x31 \<le> c \<and> c \<le> 0x39 then JStep Num1 ps
      else JBad)"

definition jnum0 :: "jpush list \<Rightarrow> byte \<Rightarrow> jres" where
  "jnum0 ps c =
     (if c = 0x2E then JStep NumDot ps
      else if c = 0x65 \<or> c = 0x45 then JStep NumE ps
      else jend ps c)"

fun jstep :: "jstate \<Rightarrow> jpush list \<Rightarrow> byte \<Rightarrow> jres" where
  "jstep BeginValue ps c = jbegin ps c"
| "jstep BeginValueOrEmpty ps c =
     (if is_space c then JStep BeginValueOrEmpty ps
      else if c = 0x5D then jend ps c else jbegin ps c)"
| "jstep BeginString ps c =
     (if is_space c then JStep BeginString ps
      else if c = 0x22 then JStep InString ps else JBad)"
| "jstep BeginStringOrEmpty ps c =
     (if is_space c then JStep BeginStringOrEmpty ps
      else if c = 0x7D then (case ps of [] \<Rightarrow> JBad | _ # qs \<Rightarrow> jend (ObjValue # qs) c)
      else if c = 0x22 then JStep InString ps else JBad)"
| "jstep EndValue ps c = jend ps c"
| "jstep InString ps c =
     (if c = 0x22 then JStep EndValue ps
      else if c = 0x5C then JStep InStringEsc ps
      else if c < 0x20 then JBad else JStep InString ps)"
| "jstep InStringEsc ps c =
     (if c \<in> {0x62, 0x66, 0x6E, 0x72, 0x74, 0x5C, 0x2F, 0x22} then JStep InString ps
      else if c = 0x75 then JStep (InStringEscU 3) ps else JBad)"
| "jstep (InStringEscU n) ps c =
     (if is_hex c then JStep (case n of 0 \<Rightarrow> InString | Suc m \<Rightarrow> InStringEscU m) ps else JBad)"
| "jstep NumNeg ps c =
     (if c = 0x30 then JStep Num0 ps
      else if 0x31 \<le> c \<and> c \<le> 0x39 then JStep Num1 ps else JBad)"
| "jstep Num1 ps c = (if is_digit_byte c then JStep Num1 ps else jnum0 ps c)"
| "jstep Num0 ps c = jnum0 ps c"
| "jstep NumDot ps c = (if is_digit_byte c then JStep NumDot0 ps else JBad)"
| "jstep NumDot0 ps c =
     (if is_digit_byte c then JStep NumDot0 ps
      else if c = 0x65 \<or> c = 0x45 then JStep NumE ps else jend ps c)"
| "jstep NumE ps c =
     (if c = 0x2B \<or> c = 0x2D then JStep NumESign ps
      else if is_digit_byte c then JStep NumE0 ps else JBad)"
| "jstep NumESign ps c = (if is_digit_byte c then JStep NumE0 ps else JBad)"
| "jstep NumE0 ps c = (if is_digit_byte c then JStep NumE0 ps else jend ps c)"
| "jstep (InLit lit) ps c =
     (case lit of
        [] \<Rightarrow> JBad
      | l # ls \<Rightarrow>
          if c = l \<and> 0x61 \<le> c \<and> c \<le> 0x7A
          then JStep (if ls = [] then EndValue else InLit ls) ps else JBad)"

text \<open>
  \<^verbatim>\<open>Decoder.readValue\<close>: the bytes of the next value (with the blanks before it) and the rest.
  At the end of the input the scanner is fed one blank, as the decoder does. \<open>None\<close> is a syntax
  error or an unexpected end.
\<close>

fun scan_value :: "jstate \<Rightarrow> jpush list \<Rightarrow> bytes \<Rightarrow> (bytes \<times> bytes) option" where
  "scan_value st ps [] = (case jstep st ps 0x20 of JDone \<Rightarrow> Some ([], []) | _ \<Rightarrow> None)"
| "scan_value st ps (c # cs) =
     (case jstep st ps c of
        JBad \<Rightarrow> None
      | JDone \<Rightarrow> Some ([], c # cs)
      | JStep st' ps' \<Rightarrow> map_option (\<lambda>(v, r). (c # v, r)) (scan_value st' ps' cs))"

definition skip_space :: "bytes \<Rightarrow> bytes" where
  "skip_space = dropWhile is_space"

definition read_value :: "bytes \<Rightarrow> (bytes \<times> bytes) option" where
  "read_value bs = map_option (\<lambda>(v, r). (skip_space v, r)) (scan_value BeginValue [] bs)"

lemma scan_value_split: "scan_value st ps bs = Some (v, r) \<Longrightarrow> bs = v @ r"
  by (induction st ps bs arbitrary: v rule: scan_value.induct) (auto split: jres.splits)

lemma jbegin_not_done: "jbegin ps c \<noteq> JDone"
  by (simp add: jbegin_def jpush_def)

lemma read_value_shorter: "read_value bs = Some (v, r) \<Longrightarrow> length r < length bs"
proof (cases bs)
  case (Cons c cs)
  moreover assume "read_value bs = Some (v, r)"
  ultimately obtain st ps w where "jbegin [] c = JStep st ps" and "scan_value st ps cs = Some (w, r)"
    by (auto simp: read_value_def jbegin_not_done split: jres.splits)
  then show ?thesis using Cons by (auto dest: scan_value_split)
qed (simp add: read_value_def jbegin_def is_space_def)

section \<open>UTF-8\<close>

text \<open>
  \<^verbatim>\<open>utf8.DecodeRune\<close> at the head of a byte list that starts at or above 0x80: the number of
  bytes of a valid rune, 0 for an invalid or truncated encoding.
\<close>

definition in_range :: "byte \<Rightarrow> byte \<Rightarrow> byte \<Rightarrow> bool" where
  "in_range lo hi b \<longleftrightarrow> lo \<le> b \<and> b \<le> hi"

definition rune_first :: "byte \<Rightarrow> nat \<times> byte \<times> byte" where
  "rune_first b =
     (if in_range 0xC2 0xDF b then (2, 0x80, 0xBF)
      else if b = 0xE0 then (3, 0xA0, 0xBF)
      else if b = 0xED then (3, 0x80, 0x9F)
      else if in_range 0xE1 0xEF b then (3, 0x80, 0xBF)
      else if b = 0xF0 then (4, 0x90, 0xBF)
      else if in_range 0xF1 0xF3 b then (4, 0x80, 0xBF)
      else if b = 0xF4 then (4, 0x80, 0x8F)
      else (0, 0x80, 0xBF))"

definition rune_size :: "bytes \<Rightarrow> nat" where
  "rune_size bs =
     (case bs of
        b0 # b1 # rest \<Rightarrow>
          (case rune_first b0 of (n, lo, hi) \<Rightarrow>
             if n \<noteq> 0 \<and> n - 2 \<le> length rest \<and> in_range lo hi b1
                \<and> list_all (in_range 0x80 0xBF) (take (n - 2) rest)
             then n else 0)
      | _ \<Rightarrow> 0)"

text \<open>\<^verbatim>\<open>utf8.AppendRune\<close>; surrogates and values above U+10FFFF become U+FFFD.\<close>

definition encode_rune :: "nat \<Rightarrow> bytes" where
  "encode_rune r =
     (if r < 0x80 then [word_of_nat r]
      else if r < 0x800 then [word_of_nat (0xC0 + r div 64), word_of_nat (0x80 + r mod 64)]
      else if r > 0x10FFFF \<or> (0xD800 \<le> r \<and> r \<le> 0xDFFF) then [0xEF, 0xBF, 0xBD]
      else if r < 0x10000 then
        [word_of_nat (0xE0 + r div 4096), word_of_nat (0x80 + (r div 64) mod 64),
         word_of_nat (0x80 + r mod 64)]
      else
        [word_of_nat (0xF0 + r div 262144), word_of_nat (0x80 + (r div 4096) mod 64),
         word_of_nat (0x80 + (r div 64) mod 64), word_of_nat (0x80 + r mod 64)])"

lemma rune_first_size: "rune_first b = (n, lo, hi) \<Longrightarrow> n = 0 \<or> 2 \<le> n \<and> n \<le> 4"
  by (auto simp: rune_first_def split: if_splits)

lemma rune_size_Cons:
  assumes "rune_size (b # bs) \<noteq> 0"
  obtains n lo hi b1 rest where "bs = b1 # rest" "rune_first b = (n, lo, hi)"
    "rune_size (b # bs) = n" "2 \<le> n" "n - 2 \<le> length rest" "in_range lo hi b1"
    "list_all (in_range 0x80 0xBF) (take (n - 2) rest)"
proof -
  obtain n lo hi where f: "rune_first b = (n, lo, hi)" by (cases "rune_first b") auto
  with assms rune_first_size [OF f] show ?thesis
    by (auto simp: rune_size_def split: list.splits if_splits intro: that)
qed

fun valid_utf8 :: "bytes \<Rightarrow> bool" where
  "valid_utf8 [] \<longleftrightarrow> True"
| "valid_utf8 (b # bs) \<longleftrightarrow>
     (if b < 0x80 then valid_utf8 bs
      else rune_size (b # bs) \<noteq> 0 \<and> valid_utf8 (drop (rune_size (b # bs) - 1) bs))"

section \<open>Quoting and unquoting strings\<close>

definition hex_digit :: "nat \<Rightarrow> byte" where
  "hex_digit n = (if n < 10 then word_of_nat (48 + n) else word_of_nat (87 + n))"

definition hex_val :: "byte \<Rightarrow> nat" where
  "hex_val c =
     (if c \<le> 0x39 then unat c - 48 else if c \<le> 0x46 then unat c - 55 else unat c - 87)"

text \<open>One ASCII byte as \<^verbatim>\<open>Marshal\<close> writes it inside a string (HTML characters escaped).\<close>

definition quote_byte :: "byte \<Rightarrow> bytes" where
  "quote_byte b =
     (if b = 0x5C \<or> b = 0x22 then [0x5C, b]
      else if b = 0x08 then [0x5C, 0x62]
      else if b = 0x0C then [0x5C, 0x66]
      else if b = 0x0A then [0x5C, 0x6E]
      else if b = 0x0D then [0x5C, 0x72]
      else if b = 0x09 then [0x5C, 0x74]
      else if b < 0x20 \<or> b = 0x3C \<or> b = 0x3E \<or> b = 0x26
      then [0x5C, 0x75, 0x30, 0x30, hex_digit (unat b div 16), hex_digit (unat b mod 16)]
      else [b])"

fun quote_body :: "bytes \<Rightarrow> bytes" where
  "quote_body [] = []"
| "quote_body (b # bs) =
     (if b < 0x80 then quote_byte b @ quote_body bs
      else if rune_size (b # bs) = 0
      then [0x5C, 0x75, 0x66, 0x66, 0x66, 0x64] @ quote_body bs
      else (if take 3 (b # bs) = [0xE2, 0x80, 0xA8] then [0x5C, 0x75, 0x32, 0x30, 0x32, 0x38]
            else if take 3 (b # bs) = [0xE2, 0x80, 0xA9] then [0x5C, 0x75, 0x32, 0x30, 0x32, 0x39]
            else take (rune_size (b # bs)) (b # bs))
           @ quote_body (drop (rune_size (b # bs) - 1) bs))"

definition quote :: "bytes \<Rightarrow> bytes" where
  "quote bs = 0x22 # quote_body bs @ [0x22]"

text \<open>The four hexadecimal digits of a \<^verbatim>\<open>\u\<close> escape (\<^verbatim>\<open>getu4\<close> after its prefix).\<close>

definition getu4 :: "bytes \<Rightarrow> nat option" where
  "getu4 bs =
     (case bs of
        a # b # c # d # _ \<Rightarrow>
          if is_hex a \<and> is_hex b \<and> is_hex c \<and> is_hex d
          then Some (((hex_val a * 16 + hex_val b) * 16 + hex_val c) * 16 + hex_val d)
          else None
      | _ \<Rightarrow> None)"

definition simple_escape :: "byte \<Rightarrow> byte option" where
  "simple_escape e =
     (if e \<in> {0x22, 0x5C, 0x2F, 0x27} then Some e
      else if e = 0x62 then Some 0x08
      else if e = 0x66 then Some 0x0C
      else if e = 0x6E then Some 0x0A
      else if e = 0x72 then Some 0x0D
      else if e = 0x74 then Some 0x09
      else None)"

text \<open>The low surrogate that completes a pair, if one follows.\<close>

definition low_surrogate :: "nat \<Rightarrow> bytes \<Rightarrow> nat option" where
  "low_surrogate hi bs =
     (case bs of
        a # b # rest \<Rightarrow>
          if a = 0x5C \<and> b = 0x75 then
            (case getu4 rest of
               Some lo \<Rightarrow>
                 if 0xD800 \<le> hi \<and> hi < 0xDC00 \<and> 0xDC00 \<le> lo \<and> lo < 0xE000
                 then Some ((hi - 0xD800) * 1024 + (lo - 0xDC00) + 0x10000) else None
             | None \<Rightarrow> None)
          else None
      | _ \<Rightarrow> None)"

fun unquote_body :: "bytes \<Rightarrow> bytes option" where
  "unquote_body [] = Some []"
| "unquote_body (c # cs) =
     (if c = 0x5C then
        (case cs of
           [] \<Rightarrow> None
         | e # es \<Rightarrow>
             (case simple_escape e of
                Some b \<Rightarrow> map_option (Cons b) (unquote_body es)
              | None \<Rightarrow>
                  if e \<noteq> 0x75 then None
                  else
                    (case getu4 es of
                       None \<Rightarrow> None
                     | Some rr \<Rightarrow>
                         if 0xD800 \<le> rr \<and> rr < 0xE000 then
                           (case low_surrogate rr (drop 4 es) of
                              Some dec \<Rightarrow> map_option ((@) (encode_rune dec)) (unquote_body (drop 10 es))
                            | None \<Rightarrow> map_option ((@) [0xEF, 0xBF, 0xBD]) (unquote_body (drop 4 es)))
                         else map_option ((@) (encode_rune rr)) (unquote_body (drop 4 es)))))
      else if c = 0x22 \<or> c < 0x20 then None
      else if c < 0x80 then map_option (Cons c) (unquote_body cs)
      else if rune_size (c # cs) = 0 then map_option ((@) [0xEF, 0xBF, 0xBD]) (unquote_body cs)
      else map_option ((@) (take (rune_size (c # cs)) (c # cs)))
             (unquote_body (drop (rune_size (c # cs) - 1) cs)))"

definition unquote :: "bytes \<Rightarrow> bytes option" where
  "unquote v =
     (if length v < 2 \<or> hd v \<noteq> 0x22 \<or> last v \<noteq> 0x22 then None
      else unquote_body (butlast (tl v)))"

declare quote_body.simps(2) [simp del] unquote_body.simps(2) [simp del]

text \<open>The bytes that \<^verbatim>\<open>quote_byte\<close> writes as a \<^verbatim>\<open>\u00xx\<close> escape.\<close>

definition u_escaped :: "byte list" where
  "u_escaped = filter (\<lambda>b. b \<notin> {0x08, 0x09, 0x0A, 0x0C, 0x0D})
     (map word_of_nat [0..<32]) @ [0x3C, 0x3E, 0x26]"

lemma word_less_32_set: "(b :: byte) < 0x20 \<Longrightarrow> b \<in> set (map word_of_nat [0..<32])"
proof -
  assume "b < 0x20"
  then have "unat b \<in> {0..<32}" by (simp add: word_less_nat_alt)
  moreover have "b = word_of_nat (unat b)" by simp
  ultimately show ?thesis by (metis imageI list.set_map set_upt)
qed

lemma quote_byte_cases [consumes 1]:
  assumes "b < 0x80"
  obtains (plain) "quote_byte b = [b]" "b \<noteq> 0x5C" "b \<noteq> 0x22" "\<not> b < 0x20"
  | (simple) e where "quote_byte b = [0x5C, e]" "simple_escape e = Some b"
      "e \<in> {0x62, 0x66, 0x6E, 0x72, 0x74, 0x5C, 0x22}"
  | (unicode) "quote_byte b =
      [0x5C, 0x75, 0x30, 0x30, hex_digit (unat b div 16), hex_digit (unat b mod 16)]"
      "b \<in> set u_escaped"
proof -
  consider "b \<in> {0x5C, 0x22, 0x08, 0x0C, 0x0A, 0x0D, 0x09}"
    | "b \<notin> {0x5C, 0x22, 0x08, 0x0C, 0x0A, 0x0D, 0x09}" "b < 0x20 \<or> b = 0x3C \<or> b = 0x3E \<or> b = 0x26"
    | "b \<notin> {0x5C, 0x22, 0x08, 0x0C, 0x0A, 0x0D, 0x09}"
      "\<not> (b < 0x20 \<or> b = 0x3C \<or> b = 0x3E \<or> b = 0x26)"
    by blast
  then show ?thesis
  proof cases
    case 1
    then show ?thesis
      by (elim insertE emptyE) (auto simp: quote_byte_def simple_escape_def intro: simple)
  next
    case 2
    then have "b \<in> set u_escaped"
      using word_less_32_set [of b] by (auto simp: u_escaped_def)
    with 2 show ?thesis by (intro unicode) (auto simp: quote_byte_def)
  next
    case 3
    then show ?thesis by (intro plain) (auto simp: quote_byte_def)
  qed
qed

lemma u_escaped_hex:
  "\<forall>b \<in> set u_escaped.
     is_hex (hex_digit (unat b div 16)) \<and> is_hex (hex_digit (unat b mod 16)) \<and>
     hex_val (hex_digit (unat b div 16)) * 16 + hex_val (hex_digit (unat b mod 16)) = unat b \<and>
     b < 0x80"
  by code_simp

lemma getu4_u_escaped:
  assumes "b \<in> set u_escaped"
  shows "getu4 (0x30 # 0x30 # hex_digit (unat b div 16) # hex_digit (unat b mod 16) # rest) = Some (unat b)"
proof -
  have "is_hex 0x30" and "hex_val 0x30 = 0" by (simp_all add: is_hex_def hex_val_def)
  then show ?thesis using bspec [OF u_escaped_hex assms] by (simp add: getu4_def)
qed

lemma append_singleton: "(@) [b] = (#) b"
  by (rule ext) simp

lemma unquote_quote_byte:
  assumes "b < 0x80"
  shows "unquote_body (quote_byte b @ rest) = map_option (Cons b) (unquote_body rest)"
  using assms
proof (cases rule: quote_byte_cases)
  case plain
  with assms show ?thesis by (simp add: unquote_body.simps)
next
  case (simple e)
  then show ?thesis by (simp add: unquote_body.simps)
next
  case unicode
  have "unat b < 0x80" using assms by (simp add: word_less_nat_alt)
  with unicode show ?thesis
    by (simp add: unquote_body.simps getu4_u_escaped encode_rune_def simple_escape_def
        append_singleton)
qed

text \<open>A valid rune of two or more bytes consists of bytes from 0x80 up.\<close>

lemma rune_first_high: "rune_first b = (n, lo, hi) \<Longrightarrow> n \<noteq> 0 \<Longrightarrow> \<not> b < 0x80 \<and> \<not> lo < 0x80"
proof -
  have "in_range l h b \<Longrightarrow> 0x80 \<le> l \<Longrightarrow> 0x80 \<le> b" for l h
    by (auto simp: in_range_def)
  then show "rune_first b = (n, lo, hi) \<Longrightarrow> n \<noteq> 0 \<Longrightarrow> ?thesis"
    by (auto simp: rune_first_def not_less split: if_splits)
qed

lemma in_range_high: "in_range lo hi b \<Longrightarrow> \<not> lo < 0x80 \<Longrightarrow> \<not> b < 0x80"
  by (auto simp: in_range_def not_less)

lemma rune_size_high:
  assumes "rune_size (b # bs) \<noteq> 0"
  shows "\<forall>x \<in> set (take (rune_size (b # bs)) (b # bs)). \<not> x < 0x80"
proof -
  obtain n lo hi b1 rest where r: "bs = b1 # rest" "rune_first b = (n, lo, hi)"
    "rune_size (b # bs) = n" "2 \<le> n" "in_range lo hi b1"
    "list_all (in_range 0x80 0xBF) (take (n - 2) rest)"
    using assms by (rule rune_size_Cons) blast
  have "take n (b # bs) = b # b1 # take (n - 2) rest"
    using r(1,4) by (cases n; cases "n - 1") auto
  moreover have "\<not> b < 0x80 \<and> \<not> b1 < 0x80"
    using rune_first_high [OF r(2)] r(4,5) in_range_high by auto
  moreover have "\<forall>x \<in> set (take (n - 2) rest). \<not> x < 0x80"
    using r(6) in_range_high by (fastforce simp: list_all_iff)
  ultimately show ?thesis using r(3) by simp
qed

lemma rune_size_append:
  assumes "rune_size (b # bs) \<noteq> 0"
  shows "rune_size (b # bs @ cs) = rune_size (b # bs)"
  using assms by (rule rune_size_Cons) (auto simp: rune_size_def)

lemma rune_size_le: "rune_size (b # bs) \<noteq> 0 \<Longrightarrow> rune_size (b # bs) \<le> Suc (length bs)"
  by (erule rune_size_Cons) auto

lemma take_append_drop_rune:
  "rune_size (b # bs) \<noteq> 0 \<Longrightarrow>
     take (rune_size (b # bs)) (b # bs) @ drop (rune_size (b # bs) - 1) bs = b # bs"
  using append_take_drop_id [of "rune_size (b # bs)" "b # bs"] by (cases "rune_size (b # bs)") auto

lemma rune_size_take:
  assumes "rune_size (b # bs) \<noteq> 0"
  shows "rune_size (take (rune_size (b # bs)) (b # bs) @ cs) = rune_size (b # bs)"
proof -
  obtain n lo hi b1 rest where r: "bs = b1 # rest" "rune_first b = (n, lo, hi)"
    "rune_size (b # bs) = n" "2 \<le> n" "n - 2 \<le> length rest" "in_range lo hi b1"
    "list_all (in_range 0x80 0xBF) (take (n - 2) rest)"
    using assms by (rule rune_size_Cons) blast
  have "take n (b # bs) = b # b1 # take (n - 2) rest"
    using r(1,4) by (cases n; cases "n - 1") auto
  with r show ?thesis by (simp add: rune_size_def)
qed

lemma take_rune_Cons:
  assumes "rune_size (b # bs) \<noteq> 0"
  obtains xs where "take (rune_size (b # bs)) (b # bs) = b # xs" "length xs = rune_size (b # bs) - 1"
  using assms rune_size_le [OF assms] by (cases "rune_size (b # bs)") auto

lemma unquote_rune:
  assumes n: "rune_size (b # bs) \<noteq> 0" and b: "\<not> b < 0x80"
  shows "unquote_body (take (rune_size (b # bs)) (b # bs) @ rest) =
           map_option ((@) (take (rune_size (b # bs)) (b # bs))) (unquote_body rest)"
proof -
  obtain xs where xs: "take (rune_size (b # bs)) (b # bs) = b # xs" "length xs = rune_size (b # bs) - 1"
    using n by (rule take_rune_Cons)
  have sz: "rune_size (b # xs @ rest) = Suc (length xs)"
    using rune_size_take [OF n, of rest] xs n by simp
  have "b \<noteq> 0x5C" "b \<noteq> 0x22" "\<not> b < 0x20" using b order.strict_trans [of b "0x20" "0x80"] by auto
  then show ?thesis using b sz by (simp add: xs(1) unquote_body.simps(2))
qed

lemma unquote_u2028:
  assumes "d = 8 \<or> d = 9"
  shows "unquote_body ([0x5C, 0x75, 0x32, 0x30, 0x32, 0x30 + d] @ rest) =
           map_option ((@) [0xE2, 0x80, 0xA0 + d]) (unquote_body rest)"
proof -
  have "getu4 (0x32 # 0x30 # 0x32 # (0x30 + d) # rest) = Some (0x2020 + unat d)"
    using assms by (elim disjE) (simp_all add: getu4_def is_hex_def hex_val_def)
  moreover have "encode_rune (0x2020 + unat d) = [0xE2, 0x80, 0xA0 + d]"
    using assms by (elim disjE) (simp_all add: encode_rune_def)
  moreover have "unat d < 10" using assms by (elim disjE) simp_all
  ultimately show ?thesis by (simp add: unquote_body.simps(2) simple_escape_def)
qed

lemma rune_size_E2:
  assumes "take 3 (b # bs) = [0xE2, 0x80, x]" and "rune_size (b # bs) \<noteq> 0"
  shows "rune_size (b # bs) = 3"
proof -
  have "rune_first b = (3, 0x80, 0xBF)"
    using assms(1) by (simp add: rune_first_def in_range_def)
  moreover obtain n lo hi where "rune_first b = (n, lo, hi)" "rune_size (b # bs) = n"
    using assms(2) by (rule rune_size_Cons)
  ultimately show ?thesis by simp
qed

lemma unquote_quote_body: "valid_utf8 bs \<Longrightarrow> unquote_body (quote_body bs) = Some bs"
proof (induction bs rule: valid_utf8.induct)
  case (2 b bs)
  show ?case
  proof (cases "b < 0x80")
    case True
    with 2 show ?thesis by (simp add: quote_body.simps(2) unquote_quote_byte)
  next
    case False
    let ?n = "rune_size (b # bs)"
    from False 2 have n: "?n \<noteq> 0" and IH: "unquote_body (quote_body (drop (?n - 1) bs)) = Some (drop (?n - 1) bs)"
      by auto
    have tail: "take ?n (b # bs) @ drop (?n - 1) bs = b # bs"
      using n by (rule take_append_drop_rune)
    consider (ls) d where "take 3 (b # bs) = [0xE2, 0x80, 0xA0 + d]" "d = 8 \<or> d = (9 :: byte)"
      | (other) "take 3 (b # bs) \<noteq> [0xE2, 0x80, 0xA8]" "take 3 (b # bs) \<noteq> [0xE2, 0x80, 0xA9]"
      by fastforce
    then show ?thesis
    proof cases
      case ls
      have "?n = 3" using rune_size_E2 [OF ls(1) n] .
      moreover have "quote_body (b # bs) = [0x5C, 0x75, 0x32, 0x30, 0x32, 0x30 + d] @ quote_body (drop (?n - 1) bs)"
        using ls False n by (auto simp: quote_body.simps(2))
      ultimately show ?thesis using tail ls IH by (simp add: unquote_u2028 del: append.simps)
    next
      case other
      then have "quote_body (b # bs) = take ?n (b # bs) @ quote_body (drop (?n - 1) bs)"
        using False n by (auto simp: quote_body.simps(2))
      then show ?thesis using IH tail by (simp add: unquote_rune [OF n False])
    qed
  qed
qed simp

lemma unquote_quote: "valid_utf8 bs \<Longrightarrow> unquote (quote bs) = Some bs"
  by (simp add: unquote_def quote_def unquote_quote_body butlast_append)

section \<open>Complete values\<close>

text \<open>Feeding a whole byte list to the scanner, every byte consumed.\<close>

fun jrun :: "jstate \<times> jpush list \<Rightarrow> bytes \<Rightarrow> (jstate \<times> jpush list) option" where
  "jrun s [] = Some s"
| "jrun (st, ps) (c # cs) = (case jstep st ps c of JStep st' ps' \<Rightarrow> jrun (st', ps') cs | _ \<Rightarrow> None)"

lemma jrun_append:
  "jrun s (xs @ ys) = (case jrun s xs of None \<Rightarrow> None | Some t \<Rightarrow> jrun t ys)"
  by (induction s xs rule: jrun.induct) (auto split: jres.splits)

lemma scan_value_jrun:
  "jrun (st, ps) xs = Some (st', ps') \<Longrightarrow>
     scan_value st ps (xs @ ys) = map_option (\<lambda>(v, r). (xs @ v, r)) (scan_value st' ps' ys)"
proof (induction xs arbitrary: st ps)
  case Nil
  then show ?case by (cases "scan_value st ps ys") auto
next
  case (Cons x xs)
  then show ?case by (auto split: jres.splits simp: option.map_comp comp_def case_prod_beta)
qed

text \<open>States in which the value read so far is complete: the next byte may close it.\<close>

fun terminal :: "jstate \<Rightarrow> bool" where
  "terminal EndValue \<longleftrightarrow> True"
| "terminal Num0 \<longleftrightarrow> True"
| "terminal Num1 \<longleftrightarrow> True"
| "terminal NumDot0 \<longleftrightarrow> True"
| "terminal NumE0 \<longleftrightarrow> True"
| "terminal _ \<longleftrightarrow> False"

text \<open>A byte that cannot continue a number.\<close>

definition delimiter :: "byte \<Rightarrow> bool" where
  "delimiter c \<longleftrightarrow> c = 0x2C \<or> c = 0x5D \<or> c = 0x7D \<or> c = 0x3A \<or> is_space c"

lemma terminal_step: "terminal st \<Longrightarrow> delimiter c \<Longrightarrow> jstep st ps c = jend ps c"
  by (cases st) (auto simp: jnum0_def delimiter_def is_space_def is_digit_byte_def)

text \<open>A text that the scanner reads as one value at any nesting up to the given depth.\<close>

definition json_text :: "nat \<Rightarrow> bytes \<Rightarrow> bool" where
  "json_text d v \<longleftrightarrow>
     (\<forall>ps. length ps + d \<le> maxNestingDepth \<longrightarrow>
        (\<exists>st. jrun (BeginValue, ps) v = Some (st, ps) \<and> terminal st)) \<and>
     v \<noteq> [] \<and> \<not> is_space (hd v)"

lemma scan_value_end: "terminal st \<Longrightarrow> bs = [] \<or> delimiter (hd bs) \<Longrightarrow> scan_value st [] bs = Some ([], bs)"
  by (cases bs) (auto simp: terminal_step delimiter_def is_space_def)

lemma read_value_json_text:
  assumes "json_text d v" and "d \<le> maxNestingDepth" and "bs = [] \<or> delimiter (hd bs)"
  shows "read_value (v @ bs) = Some (v, bs)"
proof -
  obtain st where st: "jrun (BeginValue, []) v = Some (st, [])" "terminal st"
    using assms(1,2) by (fastforce simp: json_text_def dest: spec [of _ "[]"])
  have "skip_space v = v" using assms(1) by (cases v) (auto simp: json_text_def skip_space_def)
  then show ?thesis
    using scan_value_jrun [OF st(1)] scan_value_end [OF st(2) assms(3)]
    by (simp add: read_value_def)
qed

section \<open>Marshal\<close>

text \<open>
  The Go values the library passes to \<^verbatim>\<open>json.Marshal\<close>: \<^verbatim>\<open>nil\<close>, booleans, integers, strings,
  \<^verbatim>\<open>json.RawMessage\<close>, slices, maps with string keys, and the kinds \<^verbatim>\<open>Marshal\<close> refuses
  (channels, functions). Floating-point numbers, structs and user-defined \<^verbatim>\<open>MarshalJSON\<close> methods
  are left out.
\<close>

datatype goval =
    GNil
  | GBool bool
  | GInt int
  | GString string
  | GRaw bytes
  | GSlice "goval list"
  | GMap "(string \<times> goval) list"
  | GOther

fun join_comma :: "bytes list \<Rightarrow> bytes" where
  "join_comma [] = []"
| "join_comma [b] = b"
| "join_comma (b # bs) = b @ 0x2C # join_comma bs"

text \<open>
  \<^verbatim>\<open>json.compact\<close> with HTML escaping, as \<^verbatim>\<open>Marshal\<close> applies it to a \<^verbatim>\<open>RawMessage\<close>: the text must
  be one value; blanks outside strings are dropped, three characters and two separators are
  written as escapes.
\<close>

fun in_string :: "jstate \<Rightarrow> bool" where
  "in_string InString \<longleftrightarrow> True"
| "in_string InStringEsc \<longleftrightarrow> True"
| "in_string (InStringEscU _) \<longleftrightarrow> True"
| "in_string _ \<longleftrightarrow> False"

definition compact_byte :: "byte \<Rightarrow> bytes" where
  "compact_byte c = (if c = 0x3C \<or> c = 0x3E \<or> c = 0x26 then quote_byte c else [c])"

fun compact :: "jstate \<Rightarrow> jpush list \<Rightarrow> bytes \<Rightarrow> bytes option" where
  "compact st ps [] = (case jstep st ps 0x20 of JDone \<Rightarrow> Some [] | _ \<Rightarrow> None)"
| "compact st ps (c # cs) =
     (if take 3 (c # cs) = [0xE2, 0x80, 0xA8] \<or> take 3 (c # cs) = [0xE2, 0x80, 0xA9] then
        (if st = InString
         then map_option ((@) [0x5C, 0x75, 0x32, 0x30, 0x32, 0x30 + (cs ! 1 - 0xA0)])
                (compact InString ps (drop 2 cs))
         else None)
      else
        (case jstep st ps c of
           JBad \<Rightarrow> None
         | JDone \<Rightarrow> if is_space c then compact EndValue [] cs else None
         | JStep st' ps' \<Rightarrow>
             if is_space c \<and> \<not> in_string st then compact st' ps' cs
             else map_option ((@) (compact_byte c)) (compact st' ps' cs)))"

fun marshal :: "goval \<Rightarrow> bytes option" where
  "marshal GNil = Some (bytes_of_string ''null'')"
| "marshal (GBool b) = Some (if b then bytes_of_string ''true'' else bytes_of_string ''false'')"
| "marshal (GInt i) = Some (Itoa i)"
| "marshal (GString s) = Some (quote (bytes_of_string s))"
| "marshal (GRaw bs) = compact BeginValue [] bs"
| "marshal (GSlice vs) =
     map_option (\<lambda>bs. 0x5B # join_comma bs @ [0x5D]) (those (map marshal vs))"
| "marshal (GMap kvs) =
     map_option
       (\<lambda>ps. 0x7B # join_comma (map (\<lambda>(k, b). quote (bytes_of_string k) @ 0x3A # b) (sort_key fst ps))
               @ [0x7D])
       (those (map (\<lambda>(k, v). map_option (Pair k) (marshal v)) kvs))"
| "marshal GOther = None"

subsection \<open>What Marshal writes is one value\<close>

text \<open>The deepest bracket stack the scanner builds on a text.\<close>

fun jdepth :: "jstate \<times> jpush list \<Rightarrow> bytes \<Rightarrow> nat" where
  "jdepth (st, ps) [] = length ps"
| "jdepth (st, ps) (c # cs) =
     max (length ps) (case jstep st ps c of JStep st' ps' \<Rightarrow> jdepth (st', ps') cs | _ \<Rightarrow> 0)"

lemma jdepth_ge: "length ps \<le> jdepth (st, ps) bs"
  by (cases bs) auto

lemma jend_frame: "jend ps c = JStep st' ps' \<Longrightarrow> jend (ps @ qs) c = JStep st' (ps' @ qs)"
  by (cases ps) (auto split: if_splits jpush.splits)

lemma jbegin_frame:
  "jbegin ps c = JStep st' ps' \<Longrightarrow> length ps' + length qs \<le> maxNestingDepth \<Longrightarrow>
     jbegin (ps @ qs) c = JStep st' (ps' @ qs)"
  by (auto simp: jbegin_def jpush_def split: if_splits)

lemma jstep_frame:
  "jstep st ps c = JStep st' ps' \<Longrightarrow> length ps' + length qs \<le> maxNestingDepth \<Longrightarrow>
     jstep st (ps @ qs) c = JStep st' (ps' @ qs)"
  by (cases st)
    (auto simp: jnum0_def jbegin_frame jend_frame split: if_splits list.splits jpush.splits)

lemma jrun_frame:
  "jrun (st, ps) bs = Some (st', ps') \<Longrightarrow> jdepth (st, ps) bs + length qs \<le> maxNestingDepth \<Longrightarrow>
     jrun (st, ps @ qs) bs = Some (st', ps' @ qs)"
proof (induction bs arbitrary: st ps)
  case (Cons c cs)
  then obtain st1 ps1 where step: "jstep st ps c = JStep st1 ps1" "jrun (st1, ps1) cs = Some (st', ps')"
    by (auto split: jres.splits)
  with Cons.prems(2) have d: "jdepth (st1, ps1) cs + length qs \<le> maxNestingDepth" by auto
  then have "jstep st (ps @ qs) c = JStep st1 (ps1 @ qs)"
    using step(1) jdepth_ge [of ps1 st1 cs] by (intro jstep_frame) auto
  with Cons.IH [OF step(2) d] show ?case by simp
qed simp

lemma json_textI:
  assumes "jrun (BeginValue, []) v = Some (st, [])" and "terminal st"
    and "jdepth (BeginValue, []) v \<le> d" and "v \<noteq> []" and "\<not> is_space (hd v)"
  shows "json_text d v"
  unfolding json_text_def
proof (intro conjI allI impI)
  fix ps :: "jpush list"
  assume "length ps + d \<le> maxNestingDepth"
  with assms(3) have "jdepth (BeginValue, []) v + length ps \<le> maxNestingDepth" by simp
  from jrun_frame [OF assms(1) this] assms(2)
  show "\<exists>st. jrun (BeginValue, ps) v = Some (st, ps) \<and> terminal st" by auto
qed (use assms in auto)

lemma json_text_mono: "json_text d v \<Longrightarrow> d \<le> e \<Longrightarrow> json_text e v"
  by (auto simp: json_text_def)

text \<open>Literals and numbers.\<close>

lemma json_text_literals:
  "json_text d (bytes_of_string ''null'')"
  "json_text d (bytes_of_string ''true'')"
  "json_text d (bytes_of_string ''false'')"
  by (simp_all add: json_text_def jbegin_def is_space_def)

lemma jrun_Num1: "\<forall>b \<in> set bs. is_digit_byte b \<Longrightarrow> jrun (Num1, ps) bs = Some (Num1, ps)"
  by (induction bs) auto

lemma is_digit_cases: "is_digit_byte b \<Longrightarrow> b = 0x30 \<or> (0x31 \<le> b \<and> b \<le> 0x39)"
  unfolding is_digit_byte_def word_le_nat_alt unat_eq_nat_uint word_unat_eq_iff by auto

text \<open>A decimal numeral of more than one digit does not start with zero.\<close>

lemma itoa_nat_hd: "n \<noteq> 0 \<Longrightarrow> hd (itoa_nat n) \<noteq> 0x30"
proof (induction n rule: itoa_nat.induct)
  case (1 n)
  show ?case
  proof (cases "n < 10")
    case True
    with "1.prems" have "unat (digit_byte n) \<noteq> 48" by (simp add: unat_digit_byte)
    with True show ?thesis by (subst itoa_nat.simps) auto
  next
    case False
    with 1 show ?thesis by (subst itoa_nat.simps) simp
  qed
qed

lemma not_space_digit: "is_digit_byte b \<Longrightarrow> \<not> is_space b"
  by (auto simp: is_digit_byte_def is_space_def)

lemma jrun_itoa_nat:
  assumes "st = BeginValue \<or> st = NumNeg"
  shows "\<exists>st'. jrun (st, ps) (itoa_nat n) = Some (st', ps) \<and> terminal st'"
proof (cases "n = 0")
  case True
  then show ?thesis using assms
    by (auto simp: itoa_nat.simps [of 0] digit_byte_def jbegin_def is_space_def)
next
  case False
  obtain b bs where b: "itoa_nat n = b # bs" by (cases "itoa_nat n") auto
  have "is_digit_byte b" "\<forall>x \<in> set bs. is_digit_byte x" "b \<noteq> 0x30"
    using itoa_nat_digits [of n] itoa_nat_hd [OF False] b by auto
  moreover from this is_digit_cases [of b] have r: "0x31 \<le> b" "b \<le> 0x39" by auto
  then have "b \<notin> {0x7B, 0x5B, 0x22, 0x2D, 0x30, 0x74, 0x66, 0x6E}" by auto
  ultimately have "jstep st ps b = JStep Num1 ps"
    using assms r not_space_digit [of b] by (auto simp: jbegin_def)
  then show ?thesis using b jrun_Num1 [of bs ps] \<open>\<forall>x \<in> set bs. is_digit_byte x\<close> by simp
qed

lemma json_text_Itoa: "json_text d (Itoa i)"
proof -
  have "hd (itoa_nat n) \<in> set (itoa_nat n)" for n by simp
  then have "\<not> is_space (hd (itoa_nat n))" for n
    using itoa_nat_digits not_space_digit by blast
  then show ?thesis
    using jrun_itoa_nat [of NumNeg] jrun_itoa_nat [of BeginValue]
    by (auto simp: json_text_def Itoa_def jbegin_def is_space_def)
qed

text \<open>Strings.\<close>

lemma jrun_InString_high: "\<forall>x \<in> set xs. \<not> x < 0x80 \<Longrightarrow> jrun (InString, ps) xs = Some (InString, ps)"
proof (induction xs)
  case (Cons x xs)
  then have "\<not> x < 0x20" "x \<noteq> 0x22" "x \<noteq> 0x5C"
    using order.strict_trans [of x "0x20" "0x80"] by auto
  with Cons show ?case by simp
qed simp

lemma jrun_quote_byte:
  assumes "b < 0x80"
  shows "jrun (InString, ps) (quote_byte b) = Some (InString, ps)"
  using assms
proof (cases rule: quote_byte_cases)
  case unicode
  with bspec [OF u_escaped_hex] have "is_hex (hex_digit (unat b div 16))" "is_hex (hex_digit (unat b mod 16))"
    by blast+
  moreover have "is_hex 0x30" by (simp add: is_hex_def)
  ultimately show ?thesis using unicode by (simp add: numeral_3_eq_3)
qed auto

lemma jrun_u_escape:
  "is_hex a \<Longrightarrow> is_hex b \<Longrightarrow> is_hex c \<Longrightarrow> is_hex d \<Longrightarrow>
     jrun (InString, ps) [0x5C, 0x75, a, b, c, d] = Some (InString, ps)"
  by (simp add: numeral_3_eq_3)

lemma jrun_loop: "jrun s xs = Some s \<Longrightarrow> jrun s ys = Some s \<Longrightarrow> jrun s (xs @ ys) = Some s"
  by (simp add: jrun_append)

lemma jrun_quote_body: "jrun (InString, ps) (quote_body bs) = Some (InString, ps)"
proof (induction bs rule: quote_body.induct)
  case (2 b bs)
  let ?n = "rune_size (b # bs)"
  have esc: "jrun (InString, ps) [0x5C, 0x75, 0x66, 0x66, 0x66, 0x64] = Some (InString, ps)"
    "jrun (InString, ps) [0x5C, 0x75, 0x32, 0x30, 0x32, 0x38] = Some (InString, ps)"
    "jrun (InString, ps) [0x5C, 0x75, 0x32, 0x30, 0x32, 0x39] = Some (InString, ps)"
    by (intro jrun_u_escape; simp add: is_hex_def)+
  consider "b < 0x80" | "\<not> b < 0x80" "?n = 0" | "\<not> b < 0x80" "?n \<noteq> 0" by blast
  then show ?case
  proof cases
    case 1
    with "2.IH"(1) jrun_quote_byte show ?thesis by (simp add: quote_body.simps(2) jrun_loop)
  next
    case 2
    have "jrun (InString, ps) ([0x5C, 0x75, 0x66, 0x66, 0x66, 0x64] @ quote_body bs) = Some (InString, ps)"
      using esc(1) "2.IH"(2) [OF 2] by (rule jrun_loop)
    with 2 show ?thesis by (simp add: quote_body.simps(2))
  next
    case 3
    have "jrun (InString, ps) (take ?n (b # bs)) = Some (InString, ps)"
      using rune_size_high [OF 3(2)] by (rule jrun_InString_high)
    with esc have "jrun (InString, ps)
       ((if take 3 (b # bs) = [0xE2, 0x80, 0xA8] then [0x5C, 0x75, 0x32, 0x30, 0x32, 0x38]
         else if take 3 (b # bs) = [0xE2, 0x80, 0xA9] then [0x5C, 0x75, 0x32, 0x30, 0x32, 0x39]
         else take ?n (b # bs)) @ quote_body (drop (?n - 1) bs)) = Some (InString, ps)"
      using "2.IH"(3) [OF 3] by (intro jrun_loop) (simp_all split: if_split del: jrun.simps)
    with 3 show ?thesis by (subst quote_body.simps(2)) (simp only: if_False if_not_P)
  qed
qed simp

lemma jrun_quote:
  assumes "jstep st ps 0x22 = JStep InString ps"
  shows "jrun (st, ps) (quote bs) = Some (EndValue, ps)"
  using assms by (simp add: quote_def jrun_append jrun_quote_body)

lemma json_text_quote: "json_text d (quote bs)"
  using jrun_quote [of BeginValue]
  by (auto simp: json_text_def jbegin_def is_space_def) (simp_all add: quote_def)

text \<open>Arrays and objects.\<close>

lemma json_text_run:
  "json_text d v \<Longrightarrow> length ps + d \<le> maxNestingDepth \<Longrightarrow>
     \<exists>st. jrun (BeginValue, ps) v = Some (st, ps) \<and> terminal st"
  by (simp add: json_text_def)

lemma jrun_terminal:
  "terminal st \<Longrightarrow> delimiter c \<Longrightarrow> jrun (st, ps) (c # cs) = jrun (EndValue, ps) (c # cs)"
  by (simp add: terminal_step)

lemma jrun_array_items:
  assumes "\<forall>b \<in> set (v # vs). json_text d b" and "Suc (length ps) + d \<le> maxNestingDepth"
  shows "jrun (BeginValue, ArrValue # ps) (join_comma (v # vs) @ [0x5D]) = Some (EndValue, ps)"
  using assms(1)
proof (induction vs arbitrary: v)
  case Nil
  with assms(2) json_text_run [of d v "ArrValue # ps"]
  obtain st where "jrun (BeginValue, ArrValue # ps) v = Some (st, ArrValue # ps)" "terminal st"
    by auto
  then show ?case by (simp add: jrun_append terminal_step delimiter_def is_space_def)
next
  case (Cons w ws)
  with assms(2) json_text_run [of d v "ArrValue # ps"]
  obtain st where "jrun (BeginValue, ArrValue # ps) v = Some (st, ArrValue # ps)" "terminal st"
    by auto
  with Cons show ?case
    by (simp add: jrun_append terminal_step delimiter_def is_space_def del: jstep.simps)
qed

lemma jrun_object_items:
  assumes "\<forall>(k, b) \<in> set (kv # kvs). json_text d b" and "Suc (length ps) + d \<le> maxNestingDepth"
    and "jstep st0 (ObjKey # ps) 0x22 = JStep InString (ObjKey # ps)"
  shows "jrun (st0, ObjKey # ps)
     (join_comma (map (\<lambda>(k, b). quote k @ 0x3A # b) (kv # kvs)) @ [0x7D]) = Some (EndValue, ps)"
  using assms(1,3)
proof (induction kvs arbitrary: kv st0)
  case Nil
  obtain k b where kv: "kv = (k, b)" by (cases kv)
  with Nil assms(2) json_text_run [of d b "ObjValue # ps"]
  obtain st where "jrun (BeginValue, ObjValue # ps) b = Some (st, ObjValue # ps)" "terminal st"
    by auto
  with Nil kv show ?case
    by (simp add: jrun_append jrun_quote terminal_step delimiter_def is_space_def del: jstep.simps)
next
  case (Cons kw kws)
  obtain k b where kv: "kv = (k, b)" by (cases kv)
  with Cons.prems assms(2) json_text_run [of d b "ObjValue # ps"]
  obtain st where st: "jrun (BeginValue, ObjValue # ps) b = Some (st, ObjValue # ps)" "terminal st"
    by auto
  have IH: "jrun (BeginString, ObjKey # ps)
     (join_comma (map (\<lambda>(k, b). quote k @ 0x3A # b) (kw # kws)) @ [0x7D]) = Some (EndValue, ps)"
    using Cons.prems(1) by (intro Cons.IH) (auto simp: is_space_def)
  show ?case
    using Cons.prems(2) st kv IH
    by (simp add: jrun_append jrun_quote terminal_step delimiter_def is_space_def del: jstep.simps)
qed

lemma json_text_array:
  assumes "\<forall>b \<in> set vs. json_text d b"
  shows "json_text (Suc d) (0x5B # join_comma vs @ [0x5D])"
  unfolding json_text_def
proof (intro conjI allI impI)
  fix ps :: "jpush list"
  assume d: "length ps + Suc d \<le> maxNestingDepth"
  show "\<exists>st. jrun (BeginValue, ps) (0x5B # join_comma vs @ [0x5D]) = Some (st, ps) \<and> terminal st"
  proof (cases vs)
    case Nil
    with d show ?thesis by (simp add: jbegin_def jpush_def is_space_def)
  next
    case (Cons v ws)
    have run: "jrun (BeginValue, ArrValue # ps) (join_comma (v # ws) @ [0x5D]) = Some (EndValue, ps)"
      using assms d Cons by (intro jrun_array_items) auto
    have "v \<noteq> []" "\<not> is_space (hd v)" using assms Cons by (auto simp: json_text_def)
    then obtain c cs where c: "join_comma (v # ws) = c # cs" "\<not> is_space c"
      by (cases v; cases ws) auto
    have "c \<noteq> 0x5D" using run c by (auto simp: jbegin_def is_space_def)
    then have "jrun (BeginValueOrEmpty, ArrValue # ps) (join_comma vs @ [0x5D]) = Some (EndValue, ps)"
      using run c Cons by simp
    with d show ?thesis by (simp add: jbegin_def jpush_def is_space_def)
  qed
qed (simp_all add: is_space_def)

lemma json_text_object:
  assumes "\<forall>(k, b) \<in> set kvs. json_text d b"
  shows "json_text (Suc d) (0x7B # join_comma (map (\<lambda>(k, b). quote k @ 0x3A # b) kvs) @ [0x7D])"
  unfolding json_text_def
proof (intro conjI allI impI)
  fix ps :: "jpush list"
  assume d: "length ps + Suc d \<le> maxNestingDepth"
  show "\<exists>st. jrun (BeginValue, ps) (0x7B # join_comma (map (\<lambda>(k, b). quote k @ 0x3A # b) kvs) @ [0x7D])
      = Some (st, ps) \<and> terminal st"
  proof (cases kvs)
    case Nil
    with d show ?thesis by (simp add: jbegin_def jpush_def is_space_def)
  next
    case (Cons kv kws)
    have "jrun (BeginStringOrEmpty, ObjKey # ps)
        (join_comma (map (\<lambda>(k, b). quote k @ 0x3A # b) (kv # kws)) @ [0x7D]) = Some (EndValue, ps)"
      using assms d Cons by (intro jrun_object_items) (auto simp: is_space_def)
    with d Cons show ?thesis by (simp add: jbegin_def jpush_def is_space_def)
  qed
qed (simp_all add: is_space_def)

text \<open>
  Compacted raw messages. Dropping blanks can leave the scanner inside a number where the
  original had already left it, so the two runs are related up to that difference.
\<close>

definition jsim :: "jstate \<Rightarrow> jstate \<Rightarrow> bool" where
  "jsim s st \<longleftrightarrow> s = st \<or> (st = EndValue \<and> terminal s)"

lemma jstep_space_done: "is_space c \<Longrightarrow> jstep st ps c = JDone \<Longrightarrow> ps = [] \<and> terminal st"
  by (cases st; cases ps)
    (auto simp: is_space_def jbegin_def jnum0_def is_digit_byte_def jpush_def split: if_splits list.splits)

lemma jend_cases:
  "jend ps c = JStep st' ps' \<Longrightarrow> \<not> is_space c \<Longrightarrow> delimiter c \<and> ps \<noteq> []"
  by (cases ps) (auto simp: delimiter_def split: if_splits jpush.splits)

lemma jstep_blank:
  assumes "is_space c" "\<not> in_string st" "jstep st ps c = JStep st' ps'" "jsim s st"
  shows "ps' = ps \<and> jsim s st' \<and> \<not> in_string st'"
proof -
  have "c \<in> {0x20, 0x09, 0x0A, 0x0D}" using assms(1) by (auto simp: is_space_def)
  then show ?thesis
    using assms(1-4)
    by (cases st; cases ps)
      (auto simp: jsim_def jbegin_def jnum0_def is_digit_byte_def split: if_splits list.splits)
qed

lemma jstep_html:
  "jstep st ps c = JStep st' ps' \<Longrightarrow> c \<in> {0x3C, 0x3E, 0x26} \<Longrightarrow> st = InString \<and> st' = InString \<and> ps' = ps"
  by (cases st; cases ps)
    (auto simp: jbegin_def jnum0_def is_digit_byte_def is_space_def is_hex_def
      split: if_splits list.splits jpush.splits)

lemma jrun_compact_byte:
  assumes "jstep st ps c = JStep st' ps'" and "\<not> (is_space c \<and> \<not> in_string st)" and "jsim s st"
  shows "jrun (s, ps) (compact_byte c) = Some (st', ps')"
proof (cases "c \<in> {0x3C, 0x3E, 0x26}")
  case True
  with assms jstep_html [OF assms(1)] show ?thesis
    by (auto simp: jsim_def compact_byte_def jrun_quote_byte)
next
  case False
  have "jstep s ps c = jstep st ps c"
    using assms jend_cases [of ps c st' ps'] terminal_step [of s c ps] by (auto simp: jsim_def)
  with False assms(1) show ?thesis by (simp add: compact_byte_def)
qed

lemma compact_run:
  "compact st ps bs = Some out \<Longrightarrow> jsim s st \<Longrightarrow> \<exists>st'. jrun (s, ps) out = Some (st', []) \<and> terminal st'"
proof (induction st ps bs arbitrary: out s rule: compact.induct)
  case (1 st ps)
  then have "ps = [] \<and> terminal st"
    using jstep_space_done [of "0x20" st ps] by (auto simp: is_space_def split: jres.splits)
  with 1 show ?case by (auto simp: jsim_def split: jres.splits)
next
  case (2 st ps c cs)
  show ?case
  proof (cases "take 3 (c # cs) = [0xE2, 0x80, 0xA8] \<or> take 3 (c # cs) = [0xE2, 0x80, 0xA9]")
    case True
    with "2.prems" obtain o1 where o1: "st = InString" "compact InString ps (drop 2 cs) = Some o1"
      "out = [0x5C, 0x75, 0x32, 0x30, 0x32, 0x30 + (cs ! 1 - 0xA0)] @ o1"
      by (auto split: if_splits)
    have "cs ! 1 = 0xA8 \<or> cs ! 1 = 0xA9" using True by (cases cs; cases "tl cs") auto
    then have "jrun (InString, ps) [0x5C, 0x75, 0x32, 0x30, 0x32, 0x30 + (cs ! 1 - 0xA0)] = Some (InString, ps)"
      by (intro jrun_u_escape) (auto simp: is_hex_def)
    with "2.IH"(1) [OF True o1(1,2), of InString] o1 "2.prems"(2) show ?thesis
      by (auto simp: jrun_append jsim_def simp del: append.simps jrun.simps)
  next
    case False
    show ?thesis
    proof (cases "jstep st ps c")
      case JBad
      with False "2.prems" show ?thesis by auto
    next
      case JDone
      with False "2.prems" have sp: "is_space c" and o1: "compact EndValue [] cs = Some out"
        by (auto split: if_splits)
      with jstep_space_done [OF sp JDone] "2.prems"(2) have "ps = []" "jsim s EndValue"
        by (auto simp: jsim_def)
      with "2.IH"(4) [OF False JDone sp o1] show ?thesis by blast
    next
      case (JStep st1 ps1)
      show ?thesis
      proof (cases "is_space c \<and> \<not> in_string st")
        case True
        with jstep_blank [OF _ _ JStep "2.prems"(2)] have "ps1 = ps" "jsim s st1" by auto
        moreover have "compact st1 ps1 cs = Some out" using False JStep True "2.prems" by auto
        ultimately show ?thesis using "2.IH"(2) [OF False JStep True] by blast
      next
        case blank: False
        with False JStep "2.prems" obtain o1
          where o1: "compact st1 ps1 cs = Some o1" "out = compact_byte c @ o1" by auto
        from jrun_compact_byte [OF JStep blank "2.prems"(2)] "2.IH"(3) [OF False JStep blank o1(1), of st1]
        show ?thesis using o1 by (auto simp: jrun_append jsim_def)
      qed
    qed
  qed
qed

lemma compact_hd:
  "compact st ps bs = Some out \<Longrightarrow> \<not> in_string st \<Longrightarrow> out = [] \<or> \<not> is_space (hd out)"
proof (induction st ps bs arbitrary: out rule: compact.induct)
  case (2 st ps c cs)
  have head: "\<not> is_space c \<Longrightarrow> \<exists>d ds. compact_byte c = d # ds \<and> \<not> is_space d"
    by (auto simp: compact_byte_def quote_byte_def is_space_def)
  show ?case
  proof (cases "jstep st ps c")
    case (JStep st1 ps1)
    then show ?thesis
      using 2 head jstep_blank [OF _ _ JStep, of st]
      by (cases "is_space c") (auto simp: jsim_def split: if_splits)
  qed (use 2 in \<open>auto split: if_splits\<close>)
qed (auto split: jres.splits)

lemma json_text_compact:
  assumes "compact BeginValue [] bs = Some out" and "jdepth (BeginValue, []) out \<le> d"
  shows "json_text d out"
proof -
  obtain st where st: "jrun (BeginValue, []) out = Some (st, [])" "terminal st"
    using compact_run [OF assms(1)] by (auto simp: jsim_def)
  then have "out \<noteq> []" by auto
  with compact_hd [OF assms(1)] st assms(2) show ?thesis by (auto intro: json_textI)
qed

text \<open>Nesting of a value; a raw message counts with the nesting of its text.\<close>

fun gdepth :: "goval \<Rightarrow> nat" where
  "gdepth (GRaw bs) = (case compact BeginValue [] bs of None \<Rightarrow> 0 | Some out \<Rightarrow> jdepth (BeginValue, []) out)"
| "gdepth (GSlice vs) = Suc (foldr max (map gdepth vs) 0)"
| "gdepth (GMap kvs) = Suc (foldr max (map (\<lambda>(k, v). gdepth v) kvs) 0)"
| "gdepth _ = 0"

lemma foldr_max_ge: "x \<in> set xs \<Longrightarrow> x \<le> foldr max xs (0::nat)"
  by (induction xs) auto

lemma those_SomeD: "those xs = Some ys \<Longrightarrow> xs = map Some ys"
  by (induction xs arbitrary: ys) (auto split: option.splits)

lemma json_text_marshal: "marshal v = Some bs \<Longrightarrow> json_text (gdepth v) bs"
proof (induction v arbitrary: bs rule: marshal.induct)
  case (5 raw)
  then show ?case by (auto intro: json_text_compact)
next
  case (6 vs)
  then obtain ts where ts: "map marshal vs = map Some ts" "bs = 0x5B # join_comma ts @ [0x5D]"
    by (auto dest: those_SomeD)
  have "\<forall>t \<in> set ts. json_text (foldr max (map gdepth vs) 0) t"
  proof
    fix t
    assume "t \<in> set ts"
    then have "Some t \<in> set (map marshal vs)" using ts(1) by simp
    then obtain v where v: "v \<in> set vs" "marshal v = Some t" by auto
    then have "gdepth v \<in> set (map gdepth vs)" by simp
    then show "json_text (foldr max (map gdepth vs) 0) t"
      by (rule json_text_mono [OF "6.IH" [OF v] foldr_max_ge])
  qed
  with ts(2) json_text_array show ?case by simp
next
  case (7 kvs)
  let ?d = "foldr max (map (\<lambda>(k, v). gdepth v) kvs) 0"
  from 7 obtain ps where ps: "map (\<lambda>(k, v). map_option (Pair k) (marshal v)) kvs = map Some ps"
    "bs = 0x7B # join_comma (map (\<lambda>(k, b). quote (bytes_of_string k) @ 0x3A # b) (sort_key fst ps)) @ [0x7D]"
    by (auto dest: those_SomeD)
  have items: "\<forall>(k, b) \<in> set ps. json_text ?d b"
  proof clarify
    fix k b
    assume "(k, b) \<in> set ps"
    then have "Some (k, b) \<in> set (map (\<lambda>(k, v). map_option (Pair k) (marshal v)) kvs)"
      using ps(1) by simp
    then obtain v where v: "(k, v) \<in> set kvs" "marshal v = Some b"
      by (auto simp: eq_commute [of "Some (k, b)"])
    then have "gdepth v \<in> set (map (\<lambda>(k, v). gdepth v) kvs)" by force
    then show "json_text ?d b"
      by (rule json_text_mono [OF "7.IH" [OF v(1) refl v(2)] foldr_max_ge])
  qed
  let ?kbs = "map (\<lambda>(k, b). (bytes_of_string k, b)) (sort_key fst ps)"
  have "\<forall>(k, b) \<in> set ?kbs. json_text ?d b" using items by auto
  from json_text_object [OF this] show ?case
    by (simp add: ps(2) comp_def case_prod_unfold)
qed (auto simp: json_text_literals json_text_Itoa json_text_quote split: if_splits
    simp del: bytes_of_string_simps)

section \<open>Reading arrays and objects\<close>

lemma join_comma_Cons: "join_comma (b # bs) = b @ concat (map ((#) 0x2C) bs)"
  by (induction bs arbitrary: b) auto

lemma json_text_Cons:
  assumes "json_text d v" and "d \<le> maxNestingDepth"
  obtains c cs where "v = c # cs" "\<not> is_space c" "c \<noteq> 0x5D" "c \<noteq> 0x7D"
proof -
  obtain c cs where v: "v = c # cs" "\<not> is_space c"
    using assms(1) by (cases v) (auto simp: json_text_def)
  obtain st where "jrun (BeginValue, []) v = Some (st, [])"
    using json_text_run [OF assms(1), of "[]"] assms(2) by auto
  then have "c \<noteq> 0x5D" "c \<noteq> 0x7D" using v by (auto simp: jbegin_def is_space_def)
  with v show ?thesis by (rule that)
qed

lemma skip_space_Cons [simp]: "\<not> is_space c \<Longrightarrow> skip_space (c # cs) = c # cs"
  by (simp add: skip_space_def)

lemma hd_items: "concat (map ((#) 0x2C) vs) @ 0x5D # r = [] \<or>
    delimiter (hd (concat (map ((#) 0x2C) vs) @ 0x5D # r))"
  by (cases vs) (auto simp: delimiter_def)

lemma not_space_punct [simp]: "\<not> is_space 0x2C" "\<not> is_space 0x5D" "\<not> is_space 0x5B"
  by (simp_all add: is_space_def)

end
