(* ===== verification/SocketIO_Parser.thy ===== *)
theory SocketIO_Parser
  imports GoJSON
begin

text \<open>
  The Socket.IO v5 packet layer: \<^verbatim>\<open>socket.io/v5/defs.go\<close> and the default parser under
  \<^verbatim>\<open>socket.io/v5/parser/default\<close> (\<^verbatim>\<open>parser.go\<close>, \<^verbatim>\<open>payloadparser.go\<close>, \<^verbatim>\<open>serializer.go\<close>,
  \<^verbatim>\<open>constructor.go\<close>). A packet is a type digit, an optional namespace closed by a comma, an optional
  acknowledgement id and a JSON payload. A user-supplied \<^verbatim>\<open>PayloadParser\<close> is a field of the
  parser, as in the code.
\<close>

section \<open>Packets and messages\<close>

type_synonym SocketIOPacket = byte

definition PacketConnect :: SocketIOPacket where [simp]: "PacketConnect = 0x00"
definition PacketDisconnect :: SocketIOPacket where [simp]: "PacketDisconnect = 0x01"
definition PacketEvent :: SocketIOPacket where [simp]: "PacketEvent = 0x02"
definition PacketAck :: SocketIOPacket where [simp]: "PacketAck = 0x03"
definition PacketConnectError :: SocketIOPacket where [simp]: "PacketConnectError = 0x04"
definition PacketBinaryEvent :: SocketIOPacket where [simp]: "PacketBinaryEvent = 0x05"
definition PacketBinaryAck :: SocketIOPacket where [simp]: "PacketBinaryAck = 0x06"
definition PacketUnknown :: SocketIOPacket where [simp]: "PacketUnknown = 0xFF"

record Event =
  ev_Name :: string
  ev_Payloads :: "goval list"

record sio_Message =
  msg_Type :: SocketIOPacket
  msg_BinaryAttachments :: "int option"
  msg_NS :: string
  msg_AckId :: "int option"
  msg_Event :: "Event option"
  msg_Payload :: goval
  msg_ErrorMessage :: "string option"

definition new_message :: "SocketIOPacket \<Rightarrow> string \<Rightarrow> sio_Message" where
  "new_message t ns =
     \<lparr>msg_Type = t, msg_BinaryAttachments = None, msg_NS = ns, msg_AckId = None, msg_Event = None,
      msg_Payload = GNil, msg_ErrorMessage = None\<rparr>"

section \<open>Callbacks\<close>

text \<open>
  User functions are named by numbers. A callback handed to the library is \<^verbatim>\<open>nil\<close>, a
  \<^verbatim>\<open>func([]interface{})\<close>, a (non-variadic) function with other parameter types, or not a function
  at all. A wrapped callback is what \<^verbatim>\<open>WrapCallback\<close> returns: a nil function, the callback
  itself, the closure that decodes arguments by reflection, or a closure of a user's parser.
\<close>

type_synonym gotype = string

datatype callback = CbNil | CbRaw nat | CbFunc nat "gotype list" | CbValue

datatype wrapped = WNil | WDirect nat | WReflect nat "gotype list" | WCustom nat

text \<open>Invoking a wrapped callback calls the user function, logs an error instead, or panics.\<close>

datatype invocation = Called nat "goval list" | NotCalled string | CallPanics string

section \<open>The parser\<close>

text \<open>A \<^verbatim>\<open>PayloadParser\<close> supplied by the user replaces the JSON event parser and the wrapper.\<close>

record PayloadParser =
  pp_ParseEvent :: "bytes \<Rightarrow> bool \<Rightarrow> go_error + Event"
  pp_WrapCallback :: "callback \<Rightarrow> wrapped"

record SocketIOV5DefaultParser =
  payloadParser :: "PayloadParser option"

definition default_parser :: SocketIOV5DefaultParser where
  "default_parser = \<lparr>payloadParser = None\<rparr>"

definition ErrParseEventUnsupported :: go_error where
  "ErrParseEventUnsupported = ErrorNew ''unsuported event''"

definition ErrParsePackage :: go_error where
  "ErrParsePackage = ErrorNew ''parse package error''"

definition ErrParseEvent :: go_error where
  "ErrParseEvent = ErrorNew ''parse event error''"

definition checkData :: "bytes \<Rightarrow> SocketIOPacket \<times> go_error option" where
  "checkData data =
     (case data of
        [] \<Rightarrow> (PacketUnknown, Some (ErrorWrap ErrParsePackage ''empty message''))
      | b # _ \<Rightarrow>
          (let eventType = b - 0x30
           in if eventType = PacketBinaryEvent \<or> eventType = PacketBinaryAck
              then (eventType, Some (ErrorWrap ErrParseEventUnsupported ''binary events are not supported yet''))
              else (eventType, None)))"

text \<open>The loop of \<^verbatim>\<open>extractNamespace\<close>: the bytes before the first comma and those after it.\<close>

fun ns_loop :: "bytes \<Rightarrow> (bytes \<times> bytes) option" where
  "ns_loop [] = None"
| "ns_loop (c # cs) =
     (if c = 0x2C then Some ([], cs)
      else if c = 0x5B \<or> c = 0x7B then None
      else map_option (\<lambda>(ns, rest). (c # ns, rest)) (ns_loop cs))"

definition extractNamespace :: "sio_Message \<Rightarrow> bytes \<Rightarrow> (sio_Message \<times> bytes) go" where
  "extractNamespace msg packetData =
     (case packetData of
        [] \<Rightarrow> Panic ''index out of range''
      | c # _ \<Rightarrow>
          if c \<noteq> 0x2F then Ret (msg, packetData)
          else (case ns_loop packetData of
                  None \<Rightarrow> Ret (msg, packetData)
                | Some (ns, rest) \<Rightarrow> Ret (msg\<lparr>msg_NS := string_of_bytes ns\<rparr>, rest)))"

text \<open>The loop of \<^verbatim>\<open>extractAckId\<close>: the end of the digits, \<open>None\<close> once there are more than 18.\<close>

fun ack_loop :: "nat \<Rightarrow> bytes \<Rightarrow> nat option" where
  "ack_loop ackEnd [] = Some ackEnd"
| "ack_loop ackEnd (ch # chs) =
     (if ch < 0x30 \<or> ch > 0x39 then Some ackEnd
      else if Suc ackEnd > 18 then None
      else ack_loop (Suc ackEnd) chs)"

definition extractAckId :: "sio_Message \<Rightarrow> bytes \<Rightarrow> go_error + sio_Message \<times> bytes" where
  "extractAckId msg packetData =
     (case ack_loop 0 packetData of
        None \<Rightarrow> Inl (ErrorWrap ErrParsePackage ''wrong package payload'')
      | Some ackEnd \<Rightarrow>
          Inr (if ackEnd > 0
               then msg\<lparr>msg_AckId := Some (int (atoi_digits (take ackEnd packetData)))\<rparr> else msg,
               drop ackEnd packetData))"

subsection \<open>Event payloads\<close>

definition token_open :: "bytes \<Rightarrow> bytes option" where
  "token_open bs = (case skip_space bs of c # rest \<Rightarrow> if c = 0x5B then Some rest else None | [] \<Rightarrow> None)"

definition token_close :: "bytes \<Rightarrow> bool" where
  "token_close bs = (case skip_space bs of c # _ \<Rightarrow> c = 0x5D | [] \<Rightarrow> False)"

text \<open>\<^verbatim>\<open>decoder.Decode(&event.Name)\<close>: a JSON string sets the name, \<^verbatim>\<open>null\<close> leaves it empty.\<close>

definition decode_name :: "bytes \<Rightarrow> (string \<times> bytes) option" where
  "decode_name bs =
     (case read_value bs of
        None \<Rightarrow> None
      | Some (v, rest) \<Rightarrow>
          (case v of
             [] \<Rightarrow> None
           | c # _ \<Rightarrow>
               if c = 0x22 then map_option (\<lambda>n. (string_of_bytes n, rest)) (unquote v)
               else if c = 0x6E then Some ([], rest)
               else None))"

text \<open>
  The loop \<^verbatim>\<open>for decoder.More()\<close>. The flag says whether the decoder still stands right after the
  opening bracket, where it expects no comma.
\<close>

function decode_payloads :: "bool \<Rightarrow> bytes \<Rightarrow> (goval list \<times> bytes) option" where
  "decode_payloads start bs =
     (case skip_space bs of
        [] \<Rightarrow> Some ([], [])
      | c # cs \<Rightarrow>
          if c = 0x5D \<or> c = 0x7D then Some ([], c # cs)
          else
            (case (if start then read_value (c # cs) else if c = 0x2C then read_value cs else None) of
               None \<Rightarrow> None
             | Some (v, rest) \<Rightarrow>
                 map_option (\<lambda>(vs, e). (GRaw v # vs, e)) (decode_payloads False rest)))"
  by pat_completeness auto
termination
proof (relation "measure (\<lambda>(start, bs). length bs)", simp)
  fix start bs c cs y v rest
  assume s: "skip_space bs = c # cs" and y: "(if start then read_value (c # cs)
      else if c = 0x2C then read_value cs else None) = Some y" and "(v, rest) = y"
  then have "length rest < length (c # cs)"
    by (auto dest: read_value_shorter split: if_splits)
  moreover have "length (c # cs) \<le> length bs"
    using s by (metis skip_space_def length_dropWhile_le)
  ultimately show "((False, rest), start, bs) \<in> measure (\<lambda>(start, bs). length bs)" by simp
qed

declare decode_payloads.simps [simp del]

definition ParseEvent :: "SocketIOV5DefaultParser \<Rightarrow> bytes \<Rightarrow> bool \<Rightarrow> go_error + Event" where
  "ParseEvent p data isAck =
     (case payloadParser p of
        Some pp \<Rightarrow> pp_ParseEvent pp data isAck
      | None \<Rightarrow>
          (case token_open data of
             None \<Rightarrow> Inl (ErrorWrap ErrParseEvent ''json'')
           | Some rest \<Rightarrow>
               (case (if isAck then Some ([], rest) else decode_name rest) of
                  None \<Rightarrow> Inl (ErrorWrap ErrParseEvent ''json'')
                | Some (name, rest) \<Rightarrow>
                    (case decode_payloads isAck rest of
                       None \<Rightarrow> Inl (ErrorWrap ErrParseEvent ''json'')
                     | Some (payloads, rest) \<Rightarrow>
                         if token_close rest
                         then Inr \<lparr>ev_Name = name, ev_Payloads = payloads\<rparr>
                         else Inl (ErrorWrap ErrParseEvent ''json'')))))"

subsection \<open>Parse\<close>

text \<open>Go returns a message and an error; both components are kept.\<close>

definition wrong_payload :: "sio_Message option \<times> go_error option" where
  "wrong_payload = (None, Some (ErrorWrap ErrParsePackage ''wrong package payload''))"

definition needs_payload :: "SocketIOPacket \<Rightarrow> bool" where
  "needs_payload t \<longleftrightarrow> t = PacketEvent \<or> t = PacketAck \<or> t = PacketConnectError"

definition sio_Parse ::
  "SocketIOV5DefaultParser \<Rightarrow> bytes \<Rightarrow> (sio_Message option \<times> go_error option) go" where
  "sio_Parse p data =
     (case checkData data of (messageType, err) \<Rightarrow>
       let msg = new_message messageType ''/'' in
       if err \<noteq> None then Ret (Some msg, err)
       else
         let packetData = tl data in
         if packetData = [] then Ret (Some msg, None)
         else
           (case extractNamespace msg packetData of
              Panic r \<Rightarrow> Panic r
            | Ret (msg, packetData) \<Rightarrow>
                if packetData = [] then
                  Ret (if needs_payload (msg_Type msg) then wrong_payload else (Some msg, None))
                else
                  (case extractAckId msg packetData of
                     Inl e \<Rightarrow> Ret (None, Some e)
                   | Inr (msg, packetData) \<Rightarrow>
                       if packetData = [] then
                         Ret (if needs_payload (msg_Type msg) then wrong_payload else (Some msg, None))
                       else if msg_Type msg = PacketEvent \<or> msg_Type msg = PacketAck then
                         (case ParseEvent p packetData (msg_Type msg = PacketAck) of
                            Inl e \<Rightarrow> Ret (None, Some e)
                          | Inr ev \<Rightarrow> Ret (Some (msg\<lparr>msg_Event := Some ev\<rparr>), None))
                       else if msg_Type msg = PacketConnectError then
                         Ret (Some (msg\<lparr>msg_ErrorMessage := Some (string_of_bytes packetData)\<rparr>), None)
                       else Ret (Some msg, None))))"

section \<open>The serializer\<close>

definition validateMessage :: "sio_Message option \<Rightarrow> go_error option" where
  "validateMessage m =
     (case m of
        None \<Rightarrow> Some (ErrorNew ''empty package'')
      | Some msg \<Rightarrow>
          if msg_Type msg = PacketBinaryAck \<or> msg_Type msg = PacketBinaryEvent
          then Some (ErrorNew ''biniary events are not supported yet'')
          else if msg_Type msg = PacketEvent \<and>
                  (case msg_Event msg of None \<Rightarrow> True | Some ev \<Rightarrow> ev_Name ev = [])
          then Some (ErrorNew ''wrong event name'')
          else None)"

definition json_marshal_error :: go_error where
  "json_marshal_error = ErrorNew ''json: unsupported value''"

definition event_values :: "Event \<Rightarrow> goval list" where
  "event_values ev = (if ev_Name ev \<noteq> [] then [GString (ev_Name ev)] else []) @ ev_Payloads ev"

text \<open>The capacity hint, the JSON text and the acknowledgement id of a packet.\<close>

definition prepareSerializationInfo :: "sio_Message \<Rightarrow> go_error + nat \<times> bytes \<times> bytes" where
  "prepareSerializationInfo msg =
     (let nsLen = (if msg_NS msg \<noteq> ''/'' then length (msg_NS msg) + 1 else 0);
          ackId = (case msg_AckId msg of None \<Rightarrow> [] | Some a \<Rightarrow> Itoa a);
          pkgLen = 1 + nsLen + length ackId
      in case (case msg_Event msg of
                 None \<Rightarrow> Inr (pkgLen, [])
               | Some ev \<Rightarrow>
                   (case marshal (GSlice (event_values ev)) of
                      None \<Rightarrow> Inl json_marshal_error
                    | Some jsonData \<Rightarrow>
                        Inr (pkgLen + length (ev_Name ev) + 2 + length jsonData, jsonData))) of
           Inl e \<Rightarrow> Inl e
         | Inr (pkgLen, jsonData) \<Rightarrow>
             if msg_Payload msg \<noteq> GNil then
               (case marshal (msg_Payload msg) of
                  None \<Rightarrow> Inl json_marshal_error
                | Some payloadData \<Rightarrow>
                    let payloadData =
                      (if payloadData = bytes_of_string ''null'' \<or> payloadData = [0x22, 0x22]
                          \<or> payloadData = bytes_of_string ''{}''
                       then [] else payloadData)
                    in Inr (pkgLen + length payloadData, payloadData, ackId))
             else Inr (pkgLen, jsonData, ackId))"

definition sio_Serialize :: "sio_Message option \<Rightarrow> go_error + bytes" where
  "sio_Serialize m =
     (case validateMessage m of
        Some e \<Rightarrow> Inl e
      | None \<Rightarrow>
          (case m of
             None \<Rightarrow> Inl (ErrorNew ''empty package'')
           | Some msg \<Rightarrow>
               (case prepareSerializationInfo msg of
                  Inl e \<Rightarrow> Inl e
                | Inr (pkgLen, jsonData, ackId) \<Rightarrow>
                    Inr ([msg_Type msg + 0x30] @
                         (if msg_NS msg \<noteq> ''/'' \<and> msg_NS msg \<noteq> []
                          then bytes_of_string (msg_NS msg) @ [0x2C] else []) @
                         ackId @ jsonData))))"

section \<open>Wrapping callbacks\<close>

definition WrapCallback :: "SocketIOV5DefaultParser \<Rightarrow> callback \<Rightarrow> wrapped go" where
  "WrapCallback p cb =
     (case payloadParser p of
        Some pp \<Rightarrow> Ret (pp_WrapCallback pp cb)
      | None \<Rightarrow>
          (case cb of
             CbRaw f \<Rightarrow> Ret (WDirect f)
           | CbNil \<Rightarrow> Panic ''reflect: call of reflect.Value.Type on zero Value''
           | CbValue \<Rightarrow> Ret WNil
           | CbFunc f ts \<Rightarrow> Ret (WReflect f ts)))"

text \<open>
  The argument loop of the closure: the i-th input must be a \<^verbatim>\<open>json.RawMessage\<close> that unmarshals
  into the i-th parameter type. Unmarshalling into a user's type is the parameter \<open>unm\<close>.
\<close>

fun decode_args :: "(gotype \<Rightarrow> bytes \<Rightarrow> goval option) \<Rightarrow> gotype list \<Rightarrow> goval list \<Rightarrow> goval list option" where
  "decode_args unm [] vs = Some []"
| "decode_args unm (t # ts) [] = None"
| "decode_args unm (t # ts) (v # vs) =
     (case v of
        GRaw b \<Rightarrow>
          (case unm t b of
             None \<Rightarrow> None
           | Some a \<Rightarrow> map_option ((#) a) (decode_args unm ts vs))
      | _ \<Rightarrow> None)"

fun run_wrapped :: "(gotype \<Rightarrow> bytes \<Rightarrow> goval option) \<Rightarrow> wrapped \<Rightarrow> goval list \<Rightarrow> invocation" where
  "run_wrapped unm WNil vs = CallPanics ''invalid memory address or nil pointer dereference''"
| "run_wrapped unm (WDirect f) vs = Called f vs"
| "run_wrapped unm (WCustom f) vs = Called f vs"
| "run_wrapped unm (WReflect f ts) vs =
     (if length vs < length ts then NotCalled ''Error: expected %d arguments, got %d''
      else (case decode_args unm ts vs of
              None \<Rightarrow> NotCalled ''Error unmarshaling argument''
            | Some args \<Rightarrow> Called f args))"

section \<open>Reading back what was written\<close>

lemma decode_payloads_items:
  assumes "\<forall>v \<in> set vs. json_text maxNestingDepth v"
  shows "decode_payloads False (concat (map ((#) 0x2C) vs) @ 0x5D # r) = Some (map GRaw vs, 0x5D # r)"
  using assms
proof (induction vs)
  case Nil
  then show ?case by (simp add: decode_payloads.simps)
next
  case (Cons v vs)
  have "read_value (v @ concat (map ((#) 0x2C) vs) @ 0x5D # r) =
      Some (v, concat (map ((#) 0x2C) vs) @ 0x5D # r)"
    using Cons.prems hd_items by (intro read_value_json_text) auto
  with Cons show ?case by (simp add: decode_payloads.simps [of False "0x2C # _"])
qed

lemma decode_payloads_start:
  assumes "\<forall>v \<in> set vs. json_text maxNestingDepth v"
  shows "decode_payloads True (join_comma vs @ 0x5D # r) = Some (map GRaw vs, 0x5D # r)"
proof (cases vs)
  case Nil
  then show ?thesis by (simp add: decode_payloads.simps)
next
  case (Cons v ws)
  then obtain c cs where v: "v = c # cs" "\<not> is_space c" "c \<noteq> 0x5D" "c \<noteq> 0x7D"
    using assms by (metis json_text_Cons list.set_intros(1) order_refl)
  have "read_value (v @ concat (map ((#) 0x2C) ws) @ 0x5D # r) =
      Some (v, concat (map ((#) 0x2C) ws) @ 0x5D # r)"
    using assms Cons hd_items by (intro read_value_json_text) auto
  moreover have "decode_payloads False (concat (map ((#) 0x2C) ws) @ 0x5D # r) = Some (map GRaw ws, 0x5D # r)"
    using assms Cons by (intro decode_payloads_items) auto
  ultimately show ?thesis using v Cons
    by (simp add: decode_payloads.simps [of True] join_comma_Cons)
qed

lemma decode_name_quote:
  assumes "valid_utf8 (bytes_of_string nm)" and "rest = [] \<or> delimiter (hd rest)"
  shows "decode_name (quote (bytes_of_string nm) @ rest) = Some (nm, rest)"
proof -
  have "read_value (quote (bytes_of_string nm) @ rest) = Some (quote (bytes_of_string nm), rest)"
    using json_text_quote [of 0] assms(2) by (intro read_value_json_text) auto
  then show ?thesis
    using unquote_quote [OF assms(1)] by (simp add: decode_name_def quote_def)
qed

text \<open>An event whose payloads \<^verbatim>\<open>Marshal\<close> accepts and the scanner's nesting limit allows.\<close>

definition event_texts :: "Event \<Rightarrow> bytes list option" where
  "event_texts ev = those (map marshal (ev_Payloads ev))"

definition wf_event :: "bool \<Rightarrow> Event \<Rightarrow> bool" where
  "wf_event isAck ev \<longleftrightarrow>
     (if isAck then ev_Name ev = []
      else ev_Name ev \<noteq> [] \<and> valid_utf8 (bytes_of_string (ev_Name ev))) \<and>
     (\<forall>v \<in> set (ev_Payloads ev). gdepth v \<le> maxNestingDepth)"

lemma marshal_event:
  "marshal (GSlice (event_values ev)) =
     map_option (\<lambda>ts. 0x5B # join_comma ((if ev_Name ev \<noteq> [] then [quote (bytes_of_string (ev_Name ev))] else []) @ ts)
        @ [0x5D]) (event_texts ev)"
  by (cases "those (map marshal (ev_Payloads ev))") (simp_all add: event_values_def event_texts_def)

lemma event_texts_json:
  assumes "event_texts ev = Some ts" and "wf_event isAck ev"
  shows "\<forall>t \<in> set ts. json_text maxNestingDepth t"
proof
  fix t
  assume "t \<in> set ts"
  then have "Some t \<in> set (map marshal (ev_Payloads ev))"
    using those_SomeD [OF assms(1) [unfolded event_texts_def]] by simp
  then obtain v where "v \<in> set (ev_Payloads ev)" "marshal v = Some t" by (auto simp: eq_commute)
  with assms(2) show "json_text maxNestingDepth t"
    by (auto simp: wf_event_def intro: json_text_mono json_text_marshal)
qed

lemma ParseEvent_marshal:
  assumes "payloadParser p = None" and "wf_event isAck ev" and "event_texts ev = Some ts"
    and "marshal (GSlice (event_values ev)) = Some bs"
  shows "ParseEvent p bs isAck = Inr (ev\<lparr>ev_Payloads := map GRaw ts\<rparr>)"
proof -
  have ts: "\<forall>t \<in> set ts. json_text maxNestingDepth t"
    using assms(3,2) by (rule event_texts_json)
  have bs: "bs = 0x5B # join_comma ((if ev_Name ev \<noteq> [] then [quote (bytes_of_string (ev_Name ev))] else []) @ ts) @ [0x5D]"
    using assms(4) unfolding marshal_event assms(3) by simp
  show ?thesis
  proof (cases isAck)
    case True
    then have "ev_Name ev = []" using assms(2) by (simp add: wf_event_def)
    moreover from this have "\<lparr>ev_Name = [], ev_Payloads = map GRaw ts\<rparr> = ev\<lparr>ev_Payloads := map GRaw ts\<rparr>"
      by (cases ev) simp
    ultimately show ?thesis
      using True assms(1) bs decode_payloads_start [OF ts, of "[]"]
      by (simp add: ParseEvent_def token_open_def token_close_def)
  next
    case False
    let ?tail = "concat (map ((#) 0x2C) ts) @ [0x5D]"
    have nm: "ev_Name ev \<noteq> []" "valid_utf8 (bytes_of_string (ev_Name ev))"
      using False assms(2) by (auto simp: wf_event_def)
    have "decode_name (quote (bytes_of_string (ev_Name ev)) @ ?tail) = Some (ev_Name ev, ?tail)"
      using nm(2) hd_items [of ts "[]"] by (intro decode_name_quote) auto
    moreover have "decode_payloads False ?tail = Some (map GRaw ts, [0x5D])"
      using decode_payloads_items [OF ts, of "[]"] by simp
    moreover have "\<lparr>ev_Name = ev_Name ev, ev_Payloads = map GRaw ts\<rparr> = ev\<lparr>ev_Payloads := map GRaw ts\<rparr>"
      by (cases ev) simp
    ultimately show ?thesis
      using False assms(1) bs nm(1)
      by (simp add: ParseEvent_def token_open_def token_close_def join_comma_Cons)
  qed
qed

subsection \<open>Whole packets\<close>

definition ns_ok :: "string \<Rightarrow> bool" where
  "ns_ok ns \<longleftrightarrow>
     (case bytes_of_string ns of
        [] \<Rightarrow> False
      | c # cs \<Rightarrow> c = 0x2F \<and> list_all (\<lambda>c. c \<noteq> 0x2C \<and> c \<noteq> 0x5B \<and> c \<noteq> 0x7B) cs)"

definition wf_event_message :: "sio_Message \<Rightarrow> bool" where
  "wf_event_message m \<longleftrightarrow>
     (msg_Type m = PacketEvent \<or> msg_Type m = PacketAck) \<and>
     ns_ok (msg_NS m) \<and>
     (case msg_AckId m of None \<Rightarrow> True | Some a \<Rightarrow> 0 \<le> a \<and> a < 10 ^ 18) \<and>
     (case msg_Event m of None \<Rightarrow> False | Some ev \<Rightarrow> wf_event (msg_Type m = PacketAck) ev) \<and>
     msg_Payload m = GNil \<and> msg_BinaryAttachments m = None \<and> msg_ErrorMessage m = None"

text \<open>The message the receiving side gets: the same, with each payload as its JSON text.\<close>

definition wire_message :: "sio_Message \<Rightarrow> sio_Message" where
  "wire_message m =
     m\<lparr>msg_Event := map_option (\<lambda>ev. ev\<lparr>ev_Payloads :=
         (case event_texts ev of None \<Rightarrow> [] | Some ts \<Rightarrow> map GRaw ts)\<rparr>) (msg_Event m)\<rparr>"

lemma ns_loop_append:
  "list_all (\<lambda>c. c \<noteq> 0x2C \<and> c \<noteq> 0x5B \<and> c \<noteq> 0x7B) ns \<Longrightarrow> ns_loop (ns @ 0x2C # rest) = Some (ns, rest)"
  by (induction ns) auto

lemma ack_loop_digits:
  assumes "\<forall>b \<in> set ds. is_digit_byte b" and "k + length ds \<le> 18" and "rest \<noteq> []" "\<not> is_digit_byte (hd rest)"
  shows "ack_loop k (ds @ rest) = Some (k + length ds)"
  using assms
proof (induction ds arbitrary: k)
  case Nil
  then show ?case by (cases rest) (auto simp: is_digit_byte_def not_le)
next
  case (Cons d ds)
  then show ?case by (auto simp: is_digit_byte_def not_less)
qed

definition ack_bytes :: "int option \<Rightarrow> bytes" where
  "ack_bytes a = (case a of None \<Rightarrow> [] | Some i \<Rightarrow> Itoa i)"

lemma extractAckId_ack_bytes:
  assumes "case a of None \<Rightarrow> True | Some i \<Rightarrow> 0 \<le> i \<and> i < 10 ^ 18"
    and "rest \<noteq> []" "\<not> is_digit_byte (hd rest)" and "msg_AckId msg = None"
  shows "extractAckId msg (ack_bytes a @ rest) = Inr (msg\<lparr>msg_AckId := a\<rparr>, rest)"
proof (cases a)
  case None
  with assms ack_loop_digits [of "[]" 0 rest] show ?thesis
    by (simp add: extractAckId_def ack_bytes_def)
next
  case (Some i)
  then have i: "0 \<le> i" "nat i < 10 ^ 18" using assms(1) by (simp_all add: nat_less_iff)
  then have "length (itoa_nat (nat i)) \<le> 18" by (intro length_itoa_nat) auto
  with ack_loop_digits [of "itoa_nat (nat i)" 0 rest] itoa_nat_digits assms(2,3)
  have "ack_loop 0 (itoa_nat (nat i) @ rest) = Some (length (itoa_nat (nat i)))" by simp
  with Some i(1) show ?thesis by (simp add: extractAckId_def ack_bytes_def Itoa_def)
qed

lemma hd_ack_bytes:
  assumes "case a of None \<Rightarrow> True | Some i \<Rightarrow> 0 \<le> i \<and> i < 10 ^ 18"
  shows "ack_bytes a @ 0x5B # rest \<noteq> [] \<and> hd (ack_bytes a @ 0x5B # rest) \<noteq> 0x2F"
proof (cases a)
  case (Some i)
  have "hd (itoa_nat (nat i)) \<in> set (itoa_nat (nat i))" by simp
  then have "is_digit_byte (hd (itoa_nat (nat i)))" using itoa_nat_digits by blast
  with Some assms show ?thesis by (auto simp: ack_bytes_def Itoa_def is_digit_byte_def)
qed (simp add: ack_bytes_def)

lemma extractNamespace_written:
  assumes "ns_ok ns" and "rest \<noteq> []" "hd rest \<noteq> 0x2F" and "msg_NS msg = ''/''"
  shows "extractNamespace msg
      ((if ns \<noteq> ''/'' \<and> ns \<noteq> [] then bytes_of_string ns @ [0x2C] else []) @ rest) =
    Ret (msg\<lparr>msg_NS := ns\<rparr>, rest)"
proof (cases "ns = ''/''")
  case True
  with assms show ?thesis by (cases rest) (auto simp: extractNamespace_def)
next
  case False
  obtain cs where ns: "bytes_of_string ns = 0x2F # cs" "list_all (\<lambda>c. c \<noteq> 0x2C \<and> c \<noteq> 0x5B \<and> c \<noteq> 0x7B) cs"
    using assms(1) by (auto simp: ns_ok_def split: list.splits)
  then have loop: "ns_loop (bytes_of_string ns @ 0x2C # rest) = Some (bytes_of_string ns, rest)"
    by (intro ns_loop_append) auto
  have "string_of_bytes (0x2F # cs) = ns" using ns(1) by (metis string_of_bytes_of_string)
  moreover have "ns \<noteq> []" using ns by auto
  ultimately show ?thesis
    using False ns loop by (simp add: extractNamespace_def del: ns_loop.simps string_of_bytes_simps)
qed

lemma sio_roundtrip:
  assumes wf: "wf_event_message m" and ser: "sio_Serialize (Some m) = Inr bs" and p: "payloadParser p = None"
  shows "sio_Parse p bs = Ret (Some (wire_message m), None)"
proof -
  obtain ev where ev: "msg_Event m = Some ev" "wf_event (msg_Type m = PacketAck) ev"
    using wf by (auto simp: wf_event_message_def split: option.splits)
  have a: "case msg_AckId m of None \<Rightarrow> True | Some i \<Rightarrow> 0 \<le> i \<and> i < 10 ^ 18" and ns: "ns_ok (msg_NS m)"
    and t: "msg_Type m = PacketEvent \<or> msg_Type m = PacketAck" and pl: "msg_Payload m = GNil"
    and rest: "msg_BinaryAttachments m = None" "msg_ErrorMessage m = None"
    using wf by (simp_all add: wf_event_message_def)
  obtain json where json: "marshal (GSlice (event_values ev)) = Some json"
    and bs: "bs = [msg_Type m + 0x30] @
       (if msg_NS m \<noteq> ''/'' \<and> msg_NS m \<noteq> [] then bytes_of_string (msg_NS m) @ [0x2C] else []) @
       ack_bytes (msg_AckId m) @ json"
    using ser ev(1) pl unfolding sio_Serialize_def prepareSerializationInfo_def ack_bytes_def
    by (auto simp: Let_def split: option.splits sum.splits if_splits simp del: marshal.simps)
  obtain ts where ts: "event_texts ev = Some ts" and "\<exists>js. json = 0x5B # js"
    using json unfolding marshal_event by auto
  then obtain js where js: "json = 0x5B # js" by blast
  let ?m0 = "new_message (msg_Type m) ''/''"
  let ?tail = "ack_bytes (msg_AckId m) @ json"
  let ?pd = "(if msg_NS m \<noteq> ''/'' \<and> msg_NS m \<noteq> [] then bytes_of_string (msg_NS m) @ [0x2C] else []) @ ?tail"
  have 1: "checkData bs = (msg_Type m, None)" and 2: "tl bs = ?pd" and 3: "?pd \<noteq> []" "?tail \<noteq> []"
    using bs t js by (auto simp: checkData_def)
  have 4: "extractNamespace ?m0 ?pd = Ret (?m0\<lparr>msg_NS := msg_NS m\<rparr>, ?tail)"
    using hd_ack_bytes [OF a, of js] js ns by (intro extractNamespace_written) (auto simp: new_message_def)
  have 5: "extractAckId (?m0\<lparr>msg_NS := msg_NS m\<rparr>) ?tail =
      Inr (?m0\<lparr>msg_NS := msg_NS m, msg_AckId := msg_AckId m\<rparr>, json)"
    using extractAckId_ack_bytes [OF a, of json "?m0\<lparr>msg_NS := msg_NS m\<rparr>"] js
    by (simp add: new_message_def is_digit_byte_def)
  have 6: "ParseEvent p json (msg_Type m = PacketAck) = Inr (ev\<lparr>ev_Payloads := map GRaw ts\<rparr>)"
    using p ev(2) ts json by (rule ParseEvent_marshal)
  have 7: "wire_message m = ?m0\<lparr>msg_NS := msg_NS m, msg_AckId := msg_AckId m,
      msg_Event := Some (ev\<lparr>ev_Payloads := map GRaw ts\<rparr>)\<rparr>"
    using ev(1) ts pl rest by (cases m) (simp add: wire_message_def new_message_def)
  have ty: "msg_Type (?m0\<lparr>msg_NS := ns, msg_AckId := i\<rparr>) = msg_Type m" for ns i
    by (simp add: new_message_def)
  show ?thesis
    unfolding sio_Parse_def 1 2 using 3 4 5 6 t js
    by (simp add: Let_def ty 7 del: PacketEvent_def PacketAck_def)
qed

section \<open>Correctness\<close>

text \<open>Messages in the form the parser produces: every payload is already its own JSON text.\<close>

definition raw_payload :: "goval \<Rightarrow> bool" where
  "raw_payload v = (case v of GRaw b \<Rightarrow> marshal v = Some b | _ \<Rightarrow> False)"

definition wf_wire_message :: "sio_Message \<Rightarrow> bool" where
  "wf_wire_message m \<longleftrightarrow> wf_event_message m \<and>
     (case msg_Event m of None \<Rightarrow> False | Some ev \<Rightarrow> list_all raw_payload (ev_Payloads ev))"

lemma those_map_raw: "list_all raw_payload vs \<Longrightarrow> \<exists>ts. those (map marshal vs) = Some ts \<and> map GRaw ts = vs"
  by (induction vs) (auto simp: raw_payload_def split: goval.splits)

lemma wire_message_raw: "wf_wire_message m \<Longrightarrow> wire_message m = m"
  by (cases m) (auto simp: wf_wire_message_def wire_message_def event_texts_def
      split: option.splits dest!: those_map_raw)

definition sio_parse_result :: "SocketIOV5DefaultParser \<Rightarrow> bytes \<Rightarrow> go_error + sio_Message" where
  "sio_parse_result p bs =
     (case sio_Parse p bs of
        Ret (Some m, None) \<Rightarrow> Inr m
      | Ret (_, Some e) \<Rightarrow> Inl e
      | _ \<Rightarrow> Inl (ErrorNew ''panic''))"

interpretation sio_codec: packet_codec "\<lambda>m. sio_Serialize (Some m)" "sio_parse_result default_parser" wf_wire_message
proof
  fix m bs
  assume wf: "wf_wire_message m" and "sio_Serialize (Some m) = Inr bs"
  then have "sio_Parse default_parser bs = Ret (Some (wire_message m), None)"
    by (intro sio_roundtrip) (auto simp: wf_wire_message_def default_parser_def)
  with wire_message_raw [OF wf] show "sio_parse_result default_parser bs = Inr m"
    by (simp add: sio_parse_result_def)
qed

text \<open>
  C34: an EVENT or ACK message serialized for any valid namespace, acknowledgement id and payload
  values parses back to the same message, with each payload delivered as the JSON text that
  \<^verbatim>\<open>Marshal\<close> wrote for it.
\<close>

theorem sio_event_roundtrip:
  assumes "wf_event_message m" and "sio_Serialize (Some m) = Inr bs"
  shows "sio_Parse default_parser bs = Ret (Some (wire_message m), None)"
  using assms by (rule sio_roundtrip) (simp add: default_parser_def)

definition demo_message :: sio_Message where
  "demo_message = (new_message PacketEvent ''/chat'')\<lparr>msg_AckId := Some 12,
     msg_Event := Some \<lparr>ev_Name = ''msg'', ev_Payloads = [GInt 7, GSlice [GString ''a'', GBool True]]\<rparr>\<rparr>"

theorem sio_event_roundtrip_witness:
  "sio_Parse default_parser (bytes_of_string ''2/chat,12['' @ quote (bytes_of_string ''msg'') @
      bytes_of_string '',7,['' @ quote (bytes_of_string ''a'') @ bytes_of_string '',true]]'')
   = Ret (Some (wire_message demo_message), None)"
  by (rule sio_event_roundtrip) code_simp+

text \<open>
  On messages whose payloads are raw JSON texts, parsing inverts serializing on whole streams:
  a sequence of packets written by one side is read back message for message by the other.
\<close>

lemma sio_stream_roundtrip:
  assumes "\<forall>m \<in> set ms. wf_wire_message m" and "map (\<lambda>m. sio_Serialize (Some m)) ms = map Inr bss"
  shows "map (sio_parse_result default_parser) bss = map Inr ms"
  using assms by (rule sio_codec.stream_roundtrip)

lemma sio_stream_roundtrip_example:
  "map (sio_parse_result default_parser) [bytes_of_string ''37[10]''] =
     map Inr [(new_message PacketAck ''/'')\<lparr>msg_AckId := Some 7,
       msg_Event := Some \<lparr>ev_Name = [], ev_Payloads = [GRaw (bytes_of_string ''10'')]\<rparr>\<rparr>]"
  by (rule sio_stream_roundtrip) code_simp+

subsection \<open>What a parsed message looks like\<close>

lemma ns_loop_Some:
  "ns_loop bs = Some (ns, rest) \<Longrightarrow>
     bs = ns @ 0x2C # rest \<and> list_all (\<lambda>c. c \<noteq> 0x2C \<and> c \<noteq> 0x5B \<and> c \<noteq> 0x7B) ns"
  by (induction bs arbitrary: ns) (auto split: if_splits)

lemma extractNamespace_Ret:
  assumes "extractNamespace msg bs = Ret (msg', rest)" and "ns_ok (msg_NS msg)"
  shows "ns_ok (msg_NS msg') \<and> msg' = msg\<lparr>msg_NS := msg_NS msg'\<rparr> \<and> length rest \<le> length bs"
proof -
  have "ns_ok (string_of_bytes ns)" if "bs = 0x2F # tl bs" "ns_loop bs = Some (ns, rest)" for ns rest
  proof -
    have split: "bs = ns @ 0x2C # rest" "list_all (\<lambda>c. c \<noteq> 0x2C \<and> c \<noteq> 0x5B \<and> c \<noteq> 0x7B) ns"
      using ns_loop_Some [OF that(2)] by blast+
    with that(1) obtain ns' where "ns = 0x2F # ns'" by (cases ns) auto
    with split(2) show ?thesis unfolding ns_ok_def by (simp del: string_of_bytes_simps)
  qed
  then show ?thesis
    using assms by (auto simp: extractNamespace_def dest: ns_loop_Some split: list.splits if_splits option.splits)
qed

lemma extractNamespace_no_panic: "bs \<noteq> [] \<Longrightarrow> \<exists>r. extractNamespace msg bs = Ret r"
  by (cases bs) (auto simp: extractNamespace_def split: option.splits)

lemma ack_loop_Some:
  "ack_loop k bs = Some n \<Longrightarrow>
     k \<le> n \<and> n - k \<le> length bs \<and> n \<le> max k 18 \<and> (\<forall>b \<in> set (take (n - k) bs). is_digit_byte b)"
proof (induction k bs rule: ack_loop.induct)
  case (2 k ch chs)
  show ?case
  proof (cases "ch < 0x30 \<or> ch > 0x39")
    case True
    with 2 show ?thesis by auto
  next
    case False
    with "2.prems" have "ack_loop (Suc k) chs = Some n" "Suc k \<le> 18" by (auto split: if_splits)
    moreover from this False "2.IH" have "Suc k \<le> n \<and> n - Suc k \<le> length chs \<and> n \<le> max (Suc k) 18 \<and>
        (\<forall>b \<in> set (take (n - Suc k) chs). is_digit_byte b)" by auto
    moreover from this have "n - k = Suc (n - Suc k)" by arith
    ultimately show ?thesis using False by (auto simp: is_digit_byte_def not_less)
  qed
qed simp

definition ack_in_range :: "sio_Message \<Rightarrow> bool" where
  "ack_in_range m \<longleftrightarrow> (case msg_AckId m of None \<Rightarrow> True | Some a \<Rightarrow> 0 \<le> a \<and> a < 10 ^ 18)"

lemma extractAckId_Inr:
  assumes "extractAckId msg bs = Inr (msg', rest)" and "msg_AckId msg = None"
  shows "ack_in_range msg' \<and> msg' = msg\<lparr>msg_AckId := msg_AckId msg'\<rparr>"
proof -
  obtain n where n: "ack_loop 0 bs = Some n" using assms by (auto simp: extractAckId_def split: option.splits)
  then have "\<forall>b \<in> set (take n bs). is_digit_byte b" "n \<le> 18"
    using ack_loop_Some [OF n] by auto
  from atoi_digits_bound [OF this(1)] have "atoi_digits (take n bs) < 10 ^ length (take n bs)" .
  moreover have "(10::nat) ^ length (take n bs) \<le> 10 ^ 18"
    using \<open>n \<le> 18\<close> by (intro power_increasing) auto
  ultimately have "atoi_digits (take n bs) < 10 ^ 18" by (rule_tac order.strict_trans2)
  with n assms show ?thesis by (auto simp: extractAckId_def ack_in_range_def split: if_splits)
qed

definition parsed_ok :: "bytes \<Rightarrow> sio_Message \<Rightarrow> bool" where
  "parsed_ok data m \<longleftrightarrow>
     data \<noteq> [] \<and> msg_Type m = hd data - 0x30 \<and>
     msg_Type m \<noteq> PacketBinaryEvent \<and> msg_Type m \<noteq> PacketBinaryAck \<and>
     ns_ok (msg_NS m) \<and> ack_in_range m \<and> msg_Payload m = GNil \<and> msg_BinaryAttachments m = None \<and>
     (msg_Event m \<noteq> None \<longrightarrow> msg_Type m = PacketEvent \<or> msg_Type m = PacketAck) \<and>
     (length data \<noteq> 1 \<longrightarrow>
        (msg_Type m = PacketEvent \<or> msg_Type m = PacketAck \<longrightarrow> msg_Event m \<noteq> None) \<and>
        (msg_Type m = PacketConnectError \<longrightarrow> msg_ErrorMessage m \<noteq> None))"

lemma ns_ok_slash: "ns_ok ''/''"
  by (simp add: ns_ok_def)

lemma sio_Parse_ok:
  assumes "sio_Parse p data = Ret (Some m, None)"
  shows "parsed_ok data m"
proof -
  obtain b pd where data: "data = b # pd" and ty: "b - 0x30 \<noteq> PacketBinaryEvent" "b - 0x30 \<noteq> PacketBinaryAck"
    using assms by (auto simp: sio_Parse_def checkData_def Let_def split: list.splits if_splits)
  let ?m0 = "new_message (b - 0x30) ''/''"
  have chk: "checkData data = (b - 0x30, None)" using data ty by (simp add: checkData_def)
  show ?thesis
  proof (cases "pd = []")
    case True
    with assms chk data show ?thesis
      using ty ns_ok_slash by (auto simp: sio_Parse_def parsed_ok_def new_message_def ack_in_range_def)
  next
    case False
    then obtain m1 pd1 where ns: "extractNamespace ?m0 pd = Ret (m1, pd1)"
      using extractNamespace_no_panic by (metis surj_pair)
    have m1: "ns_ok (msg_NS m1)" "m1 = ?m0\<lparr>msg_NS := msg_NS m1\<rparr>"
      using extractNamespace_Ret [OF ns] ns_ok_slash by (simp_all add: new_message_def)
    have m1_fields: "msg_Type m1 = b - 0x30" "msg_AckId m1 = None" "msg_Payload m1 = GNil"
      "msg_BinaryAttachments m1 = None" "msg_Event m1 = None" "msg_ErrorMessage m1 = None"
      by (subst m1(2), simp add: new_message_def)+
    show ?thesis
    proof (cases "pd1 = []")
      case True
      with assms chk data False ns have "m = m1" "\<not> needs_payload (b - 0x30)"
        using m1_fields by (auto simp: sio_Parse_def wrong_payload_def split: if_splits)
      with m1(1) m1_fields ty data False show ?thesis
        by (auto simp: parsed_ok_def ack_in_range_def needs_payload_def)
    next
      case pd1: False
      with assms chk data False ns obtain m2 pd2 where ack: "extractAckId m1 pd1 = Inr (m2, pd2)"
        by (auto simp: sio_Parse_def split: sum.splits)
      have m2: "ack_in_range m2" "m2 = m1\<lparr>msg_AckId := msg_AckId m2\<rparr>"
        using extractAckId_Inr [OF ack m1_fields(2)] by blast+
      have m2_fields: "msg_Type m2 = b - 0x30" "msg_Payload m2 = GNil" "msg_NS m2 = msg_NS m1"
        "msg_BinaryAttachments m2 = None" "msg_Event m2 = None" "msg_ErrorMessage m2 = None"
        using m1_fields by (subst m2(2), simp)+
      from assms chk data False ns pd1 ack have
        "(m = m2 \<and> \<not> (pd2 = [] \<and> needs_payload (b - 0x30)) \<and> (pd2 \<noteq> [] \<longrightarrow> \<not> needs_payload (b - 0x30))) \<or>
         (\<exists>ev. m = m2\<lparr>msg_Event := Some ev\<rparr> \<and> (b - 0x30 = PacketEvent \<or> b - 0x30 = PacketAck)) \<or>
         (\<exists>e. m = m2\<lparr>msg_ErrorMessage := Some e\<rparr> \<and> b - 0x30 = PacketConnectError)"
        using m2_fields
        by (auto simp: sio_Parse_def wrong_payload_def needs_payload_def split: if_splits sum.splits)
      then show ?thesis
        using m1(1) m2(1) m2_fields ty data False
        by (auto simp: parsed_ok_def ack_in_range_def needs_payload_def)
    qed
  qed
qed

lemma sio_Parse_total:
  "\<exists>r. sio_Parse p data = Ret r \<and> r \<noteq> (None, None)"
proof (cases "snd (checkData data) = None \<and> tl data \<noteq> []")
  case True
  then obtain r where "extractNamespace (new_message (fst (checkData data)) ''/'') (tl data) = Ret r"
    using extractNamespace_no_panic by blast
  with True show ?thesis
    by (cases r; cases "checkData data")
      (auto simp: sio_Parse_def Let_def wrong_payload_def split: sum.splits)
next
  case False
  then show ?thesis
    by (cases "checkData data") (auto simp: sio_Parse_def Let_def)
qed

text \<open>
  C35: parsing never panics, whatever bytes the server sends and whatever event parser is plugged
  in: it returns a message, an error, or (for a packet type that is refused) both.
\<close>

theorem sio_parse_never_panics:
  "\<exists>r. sio_Parse p data = Ret r \<and> r \<noteq> (None, None)"
  by (rule sio_Parse_total)

text \<open>
  C36: every message the parser accepts carries the packet type of its first byte (never a binary
  type), a well-formed namespace, an acknowledgement id that fits an \<^verbatim>\<open>int64\<close> with room to spare,
  and no payload; a packet of more than one byte has its event (EVENT, ACK) or its error text
  (CONNECT_ERROR).
\<close>

theorem sio_parse_well_formed:
  assumes "sio_Parse p data = Ret (Some m, None)"
  shows "parsed_ok data m"
  using assms by (rule sio_Parse_ok)

theorem sio_parse_well_formed_witness:
  "parsed_ok (bytes_of_string ''4/admin,denied'')
     ((new_message PacketConnectError ''/admin'')\<lparr>msg_ErrorMessage := Some ''denied''\<rparr>)"
  by (rule sio_parse_well_formed [of default_parser]) code_simp

text \<open>
  The guard on the length of a packet is needed: the bare packets \<^verbatim>\<open>2\<close>, \<^verbatim>\<open>3\<close> and \<^verbatim>\<open>4\<close> are accepted without
  error and yield an EVENT or ACK message with no event, and a CONNECT_ERROR with no text.
\<close>

lemma sio_parse_bare_packets:
  "sio_Parse p [0x32] = Ret (Some (new_message PacketEvent ''/''), None) \<and>
   sio_Parse p [0x33] = Ret (Some (new_message PacketAck ''/''), None) \<and>
   sio_Parse p [0x34] = Ret (Some (new_message PacketConnectError ''/''), None)"
  by (simp add: sio_Parse_def checkData_def Let_def)

text \<open>
  The buffer the serializer allocates is never too small for the packet it appends, so no
  append reallocates.
\<close>

lemma sio_serialize_capacity:
  assumes "prepareSerializationInfo m = Inr (pkgLen, jsonData, ackId)" and "sio_Serialize (Some m) = Inr bs"
  shows "length bs \<le> 1 + pkgLen"
  using assms
  by (auto simp: sio_Serialize_def prepareSerializationInfo_def Let_def
      split: option.splits sum.splits if_splits)

lemma sio_serialize_capacity_example:
  "length (bytes_of_string ''2/chat,12['' @ quote (bytes_of_string ''msg'') @
      bytes_of_string '',7,['' @ quote (bytes_of_string ''a'') @ bytes_of_string '',true]]'') \<le> 1 + 34"
  by (rule sio_serialize_capacity [of demo_message _
        "bytes_of_string ''['' @ quote (bytes_of_string ''msg'') @
      bytes_of_string '',7,['' @ quote (bytes_of_string ''a'') @ bytes_of_string '',true]]''"
        "bytes_of_string ''12''"]) code_simp+

text \<open>
  C37: the serializer refuses exactly a missing message, a binary packet, an EVENT without an
  event or with an empty name, and values that \<^verbatim>\<open>Marshal\<close> refuses.
\<close>

theorem sio_serialize_refuses:
  "(\<exists>e. sio_Serialize m = Inl e) \<longleftrightarrow>
     (case m of
        None \<Rightarrow> True
      | Some msg \<Rightarrow>
          msg_Type msg \<in> {PacketBinaryEvent, PacketBinaryAck} \<or>
          (msg_Type msg = PacketEvent \<and> (case msg_Event msg of None \<Rightarrow> True | Some ev \<Rightarrow> ev_Name ev = [])) \<or>
          (\<exists>ev. msg_Event msg = Some ev \<and> marshal (GSlice (event_values ev)) = None) \<or>
          (msg_Payload msg \<noteq> GNil \<and> marshal (msg_Payload msg) = None))"
  by (auto simp: sio_Serialize_def validateMessage_def prepareSerializationInfo_def Let_def
      split: option.splits simp del: marshal.simps)

subsection \<open>Callbacks receive decoded arguments\<close>

lemma decode_args_Some_iff:
  "decode_args unm ts vs = Some as \<longleftrightarrow>
     length ts \<le> length vs \<and> length as = length ts \<and>
     (\<forall>i < length ts. \<exists>b. vs ! i = GRaw b \<and> unm (ts ! i) b = Some (as ! i))"
proof (induction unm ts vs arbitrary: as rule: decode_args.induct)
  case (3 unm t ts v vs)
  show ?case
  proof (cases as)
    case Nil
    then show ?thesis by (auto split: goval.splits option.splits)
  next
    case (Cons a as')
    have "decode_args unm (t # ts) (v # vs) = Some as \<longleftrightarrow>
        (\<exists>b. v = GRaw b \<and> unm t b = Some a) \<and> decode_args unm ts vs = Some as'"
      using Cons by (auto split: goval.splits option.splits)
    also have "\<dots> \<longleftrightarrow> length ts \<le> length vs \<and> length as' = length ts \<and>
        (\<forall>i < Suc (length ts). \<exists>b. (v # vs) ! i = GRaw b \<and> unm ((t # ts) ! i) b = Some ((a # as') ! i))"
      using 3 by (cases v; cases "unm t (case v of GRaw b \<Rightarrow> b | _ \<Rightarrow> [])")
        (auto simp: All_less_Suc2)
    finally show ?thesis using Cons by auto
  qed
qed auto



end
