(* ===== verification/Logging.thy ===== *)
theory Logging
  imports Prelude
begin

text \<open>
  Logging as the components do it: \<^verbatim>\<open>utils/logger.go\<close> (levels and the default logger) and the
  \<^verbatim>\<open>payload\<close> helper that each client and transport applies to message contents before they reach a
  log line. A log line is its level, its format string and its rendered arguments.
\<close>

datatype log_level = LDebug | LInfo | LWarn | LError

type_synonym log_line = "log_level \<times> string \<times> string list"

definition DEBUG :: int where "DEBUG = 0"
definition INFO :: int where "INFO = 1"
definition WARN :: int where "WARN = 2"
definition ERROR :: int where "ERROR = 3"
definition NONE :: int where "NONE = 4"

record DefaultLogger =
  Level :: int

text \<open>Each method prints when the configured level does not exceed its own.\<close>

definition logger_Debugf :: "DefaultLogger \<Rightarrow> string \<Rightarrow> string list \<Rightarrow> log_line list" where
  "logger_Debugf l fmt v = (if Level l \<le> DEBUG then [(LDebug, fmt, v)] else [])"

definition logger_Infof :: "DefaultLogger \<Rightarrow> string \<Rightarrow> string list \<Rightarrow> log_line list" where
  "logger_Infof l fmt v = (if Level l \<le> INFO then [(LInfo, fmt, v)] else [])"

definition logger_Warnf :: "DefaultLogger \<Rightarrow> string \<Rightarrow> string list \<Rightarrow> log_line list" where
  "logger_Warnf l fmt v = (if Level l \<le> WARN then [(LWarn, fmt, v)] else [])"

definition logger_Errorf :: "DefaultLogger \<Rightarrow> string \<Rightarrow> string list \<Rightarrow> log_line list" where
  "logger_Errorf l fmt v = (if Level l \<le> ERROR then [(LError, fmt, v)] else [])"

fun logger_print :: "DefaultLogger \<Rightarrow> log_line \<Rightarrow> log_line list" where
  "logger_print l (LDebug, fmt, v) = logger_Debugf l fmt v"
| "logger_print l (LInfo, fmt, v) = logger_Infof l fmt v"
| "logger_print l (LWarn, fmt, v) = logger_Warnf l fmt v"
| "logger_print l (LError, fmt, v) = logger_Errorf l fmt v"

fun level_rank :: "log_level \<Rightarrow> int" where
  "level_rank LDebug = DEBUG"
| "level_rank LInfo = INFO"
| "level_rank LWarn = WARN"
| "level_rank LError = ERROR"

lemma logger_print_iff: "logger_print l line \<noteq> [] \<longleftrightarrow> Level l \<le> level_rank (fst line)"
  by (cases "(l, line)" rule: logger_print.cases)
    (auto simp: logger_Debugf_def logger_Infof_def logger_Warnf_def logger_Errorf_def)

text \<open>
  The \<^verbatim>\<open>payload\<close> method: a size marker when redaction is on, the raw contents otherwise.
\<close>

definition render_payload :: "bool \<Rightarrow> bytes \<Rightarrow> string" where
  "render_payload redact data =
     (if redact then ''[redacted '' @ string_of_bytes (itoa_nat (length data)) @ '' bytes]''
      else string_of_bytes data)"

lemma render_payload_redacted: "length data = length data' \<Longrightarrow> render_payload True data = render_payload True data'"
  by (simp add: render_payload_def)

end
