(* ===== verification/SocketIO_Client.thy ===== *)
theory SocketIO_Client
  imports SocketIO_Parser Logging
begin

text \<open>
  The Socket.IO client: \<^verbatim>\<open>socket.io/v5/client\<close> (\<^verbatim>\<open>client.go\<close>, \<^verbatim>\<open>handlers.go\<close>, \<^verbatim>\<open>emitters.go\<close>,
  \<^verbatim>\<open>emit/options.go\<close>). The client's maps and counters are a record; a goroutine the code starts
  is an entry of the record (\<open>c_tasks\<close> for \<^verbatim>\<open>safeGo\<close>, \<open>c_waiters\<close> for the goroutine of an emit with
  a timeout) that a later step runs. The parser and the Engine.IO client are interfaces in the
  code (\<^verbatim>\<open>dep.go\<close>) and arguments (\<open>sio_Deps\<close>) here; the default parser is modelled in
  \<open>SocketIO_Parser\<close>.
\<close>

section \<open>State\<close>

record namespace =
  ns_name :: string
  ns_handlers :: "string \<rightharpoonup> wrapped list"
  ns_anyHandlers :: "nat list"
  ns_waitConnected :: "bool option" \<comment> \<open>the channel: \<^verbatim>\<open>nil\<close>, or whether it is closed\<close>
  ns_hadConnected :: bool \<comment> \<open>the \<^verbatim>\<open>sync.Once\<close> has run\<close>

text \<open>An entry of \<^verbatim>\<open>ackCallbacks\<close>: the wrapped callback, or the closure that feeds \<^verbatim>\<open>done\<close>.\<close>

datatype ack_callback = AckWrapped wrapped | AckDone

text \<open>A goroutine started by \<^verbatim>\<open>safeGo\<close> and not run yet.\<close>

datatype task =
    THandler wrapped "goval list"
  | TAny nat string "goval list"
  | TAck int ack_callback "goval list"

datatype waiter_state = Waiting | TimerFired | TimedOut | Acked | CtxDone

text \<open>The goroutine of an emit with a timeout, with the buffer of its \<^verbatim>\<open>done\<close> channel.\<close>

record waiter =
  w_callback :: "wrapped option"
  w_timeoutCallback :: "nat option"
  w_done :: "goval list list"
  w_state :: waiter_state

text \<open>What the user sees of an acknowledgement: the callback invoked, or the timeout callback.\<close>

datatype ack_event = AckInvoked invocation | TimeoutInvoked nat

record sio_Client =
  c_ctxErr :: "go_error option" \<comment> \<open>\<^verbatim>\<open>ctx.Err()\<close>\<close>
  c_handshakeData :: "(string \<times> goval) list"
  c_namespaces :: "string \<rightharpoonup> namespace"
  c_defaultNs :: string
  c_ackCallbacks :: "int \<rightharpoonup> ack_callback"
  c_ackCounter :: int64
  c_redactPayload :: bool
  c_waiters :: "int \<rightharpoonup> waiter"
  c_tasks :: "task list"
  c_sent :: "bytes list" \<comment> \<open>packets handed to \<^verbatim>\<open>engineio.Send\<close>, oldest first\<close>
  c_log :: "log_line list"
  c_calls :: "invocation list" \<comment> \<open>event handlers invoked so far\<close>
  c_acks :: "(int \<times> ack_event) list" \<comment> \<open>acknowledgement outcomes so far\<close>

record sio_Parser_iface =
  p_WrapCallback :: "callback \<Rightarrow> wrapped go"
  p_Parse :: "bytes \<Rightarrow> (sio_Message option \<times> go_error option) go"
  p_Serialize :: "sio_Message option \<Rightarrow> go_error + bytes"

text \<open>The answers of \<^verbatim>\<open>engineio.Send\<close> may depend on everything sent before.\<close>

record sio_Deps =
  d_parser :: sio_Parser_iface
  d_Send :: "bytes list \<Rightarrow> bytes \<Rightarrow> go_error option"
  d_Connect :: "go_error option"
  d_Close :: "go_error option"

definition default_parser_iface :: "SocketIOV5DefaultParser \<Rightarrow> sio_Parser_iface" where
  "default_parser_iface p =
     \<lparr>p_WrapCallback = WrapCallback p, p_Parse = sio_Parse p, p_Serialize = sio_Serialize\<rparr>"

definition sio_log :: "log_level \<Rightarrow> string \<Rightarrow> string list \<Rightarrow> sio_Client \<Rightarrow> sio_Client" where
  "sio_log lv fmt args c = c\<lparr>c_log := c_log c @ [(lv, fmt, args)]\<rparr>"

definition sio_payload :: "sio_Client \<Rightarrow> bytes \<Rightarrow> string" where
  "sio_payload c data = render_payload (c_redactPayload c) data"

section \<open>Namespaces and registration\<close>

definition new_namespace :: "string \<Rightarrow> namespace" where
  "new_namespace name =
     \<lparr>ns_name = name, ns_handlers = Map.empty, ns_anyHandlers = [],
      ns_waitConnected = Some False, ns_hadConnected = False\<rparr>"

definition client_namespace :: "string \<Rightarrow> sio_Client \<Rightarrow> sio_Client \<times> namespace" where
  "client_namespace name c =
     (case c_namespaces c name of
        Some ns \<Rightarrow> (c, ns)
      | None \<Rightarrow>
          (c\<lparr>c_namespaces := (c_namespaces c)(name \<mapsto> new_namespace name)\<rparr>, new_namespace name))"

text \<open>Writing through a namespace pointer.\<close>

definition update_namespace :: "string \<Rightarrow> (namespace \<Rightarrow> namespace) \<Rightarrow> sio_Client \<Rightarrow> sio_Client" where
  "update_namespace name f c =
     c\<lparr>c_namespaces := (c_namespaces c)(name := map_option f (c_namespaces c name))\<rparr>"

definition handlers_of :: "namespace \<Rightarrow> string \<Rightarrow> wrapped list" where
  "handlers_of ns event = (case ns_handlers ns event of None \<Rightarrow> [] | Some hs \<Rightarrow> hs)"

definition ns_On :: "sio_Deps \<Rightarrow> string \<Rightarrow> string \<Rightarrow> callback \<Rightarrow> sio_Client \<Rightarrow> sio_Client go" where
  "ns_On d name event handler c =
     (case p_WrapCallback (d_parser d) handler of
        Panic r \<Rightarrow> Panic r
      | Ret w \<Rightarrow>
          Ret (update_namespace name
                (\<lambda>ns. ns\<lparr>ns_handlers := (ns_handlers ns)(event \<mapsto> handlers_of ns event @ [w])\<rparr>) c))"

definition ns_OnAny :: "string \<Rightarrow> nat \<Rightarrow> sio_Client \<Rightarrow> sio_Client" where
  "ns_OnAny name handler c =
     update_namespace name (\<lambda>ns. ns\<lparr>ns_anyHandlers := ns_anyHandlers ns @ [handler]\<rparr>) c"

definition client_On :: "sio_Deps \<Rightarrow> string \<Rightarrow> callback \<Rightarrow> sio_Client \<Rightarrow> sio_Client go" where
  "client_On d event handler c = ns_On d (c_defaultNs c) event handler c"

definition client_OnAny :: "nat \<Rightarrow> sio_Client \<Rightarrow> sio_Client" where
  "client_OnAny handler c = ns_OnAny (c_defaultNs c) handler c"

section \<open>Sending\<close>

definition sio_sendPacket :: "sio_Deps \<Rightarrow> sio_Message \<Rightarrow> sio_Client \<Rightarrow> sio_Client \<times> go_error option" where
  "sio_sendPacket d packet c =
     (case p_Serialize (d_parser d) (Some packet) of
        Inl e \<Rightarrow> (c, Some e)
      | Inr packetData \<Rightarrow> (c\<lparr>c_sent := c_sent c @ [packetData]\<rparr>, d_Send d (c_sent c) packetData))"

definition SetHandshakeData :: "(string \<times> goval) list \<Rightarrow> sio_Client \<Rightarrow> sio_Client" where
  "SetHandshakeData data c = c\<lparr>c_handshakeData := data\<rparr>"

definition connectSocketIO :: "sio_Deps \<Rightarrow> sio_Client \<Rightarrow> sio_Client" where
  "connectSocketIO d c =
     (case sio_sendPacket d
             ((new_message PacketConnect (c_defaultNs c))\<lparr>msg_Payload := GMap (c_handshakeData c)\<rparr>) c of
        (c', None) \<Rightarrow> c'
      | (c', Some e) \<Rightarrow> sio_log LError ''Can't connect: %v'' [] c')"

text \<open>\<^verbatim>\<open>Connect\<close>: store the context, register the callbacks, connect the Engine.IO client.\<close>

fun register_all :: "sio_Deps \<Rightarrow> string \<Rightarrow> callback list \<Rightarrow> sio_Client \<Rightarrow> sio_Client go" where
  "register_all d event [] c = Ret c"
| "register_all d event (cb # cbs) c =
     (case client_On d event cb c of Panic r \<Rightarrow> Panic r | Ret c' \<Rightarrow> register_all d event cbs c')"

definition sio_Connect ::
  "sio_Deps \<Rightarrow> go_error option \<Rightarrow> nat list \<Rightarrow> sio_Client \<Rightarrow> (sio_Client \<times> go_error option) go" where
  "sio_Connect d ctxErr callbacks c =
     (case register_all d ''connect'' (map (\<lambda>f. CbFunc f [''interface {}'']) callbacks)
             (c\<lparr>c_ctxErr := ctxErr\<rparr>) of
        Panic r \<Rightarrow> Panic r
      | Ret c' \<Rightarrow> Ret (c', d_Connect d))"

definition sio_Close :: "sio_Deps \<Rightarrow> sio_Client \<Rightarrow> go_error option" where
  "sio_Close d c = d_Close d"

section \<open>Incoming packets\<close>

text \<open>\<^verbatim>\<open>safeGo\<close> for each handler of a list, in order.\<close>

definition safeGo :: "task list \<Rightarrow> sio_Client \<Rightarrow> sio_Client" where
  "safeGo ts c = c\<lparr>c_tasks := c_tasks c @ ts\<rparr>"

definition handleConnectError :: "namespace \<Rightarrow> goval \<Rightarrow> sio_Client \<Rightarrow> sio_Client" where
  "handleConnectError ns payload c =
     (let c = sio_log LInfo ''Connect error, namespace: %s'' [ns_name ns] c in
      case ns_handlers ns ''error'' of
        None \<Rightarrow> sio_log LInfo ''No handlers for event: %s'' [''error''] c
      | Some handlers \<Rightarrow> safeGo (map (\<lambda>h. THandler h [payload]) handlers) c)"

definition handleDisconnect :: "namespace \<Rightarrow> goval \<Rightarrow> sio_Client \<Rightarrow> sio_Client" where
  "handleDisconnect ns payload c =
     (let c = sio_log LInfo ''Disconnected from namespace: %s'' [ns_name ns] c in
      case ns_handlers ns ''disconnect'' of
        None \<Rightarrow> sio_log LInfo ''No handlers for event: %s'' [''disconnect''] c
      | Some handlers \<Rightarrow> safeGo (map (\<lambda>h. THandler h [payload]) handlers) c)"

text \<open>The \<^verbatim>\<open>sync.Once\<close> of a namespace: its channel is closed on the first CONNECT only.\<close>

definition mark_connected :: "namespace \<Rightarrow> namespace" where
  "mark_connected ns =
     (if ns_hadConnected ns then ns
      else ns\<lparr>ns_hadConnected := True, ns_waitConnected := map_option (\<lambda>_. True) (ns_waitConnected ns)\<rparr>)"

definition handleConnect :: "namespace \<Rightarrow> goval \<Rightarrow> sio_Client \<Rightarrow> sio_Client" where
  "handleConnect ns payload c =
     (let c = sio_log LInfo ''Connected to namespace: %s'' [ns_name ns] c;
          c = update_namespace (ns_name ns) mark_connected c in
      case ns_handlers ns ''connect'' of
        None \<Rightarrow> sio_log LDebug ''No handlers for event: %s'' [''connect''] c
      | Some handlers \<Rightarrow> safeGo (map (\<lambda>h. THandler h [payload]) handlers) c)"

definition handleEvent :: "namespace \<Rightarrow> Event option \<Rightarrow> sio_Client \<Rightarrow> sio_Client go" where
  "handleEvent ns event c =
     (case event of
        None \<Rightarrow> Panic ''invalid memory address or nil pointer dereference''
      | Some ev \<Rightarrow>
          if ns_handlers ns (ev_Name ev) = None \<and> ns_anyHandlers ns = []
          then Ret (sio_log LInfo ''No handlers for event: %s'' [ev_Name ev] c)
          else Ret (safeGo (map (\<lambda>h. TAny h (ev_Name ev) (ev_Payloads ev)) (ns_anyHandlers ns) @
                            map (\<lambda>h. THandler h (ev_Payloads ev)) (handlers_of ns (ev_Name ev))) c))"

definition handleAck :: "Event \<Rightarrow> int \<Rightarrow> sio_Client \<Rightarrow> sio_Client" where
  "handleAck event ackId c =
     (let c' = c\<lparr>c_ackCallbacks := (c_ackCallbacks c)(ackId := None)\<rparr> in
      case c_ackCallbacks c ackId of
        None \<Rightarrow> sio_log LInfo ''No ack callback for id: %d'' [string_of_bytes (Itoa ackId)] c'
      | Some callback \<Rightarrow> safeGo [TAck ackId callback (ev_Payloads event)] c')"

text \<open>The dispatch on the packet type once the namespace is known.\<close>

definition dispatch :: "namespace \<Rightarrow> sio_Message \<Rightarrow> sio_Client \<Rightarrow> sio_Client go" where
  "dispatch ns msg c =
     (if msg_Type msg = PacketDisconnect then Ret (handleDisconnect ns (msg_Payload msg) c)
      else if msg_Type msg = PacketConnect then Ret (handleConnect ns (msg_Payload msg) c)
      else if msg_Type msg = PacketEvent then handleEvent ns (msg_Event msg) c
      else if msg_Type msg = PacketConnectError then
        (let c = handleConnectError ns (msg_Payload msg) c in
         case msg_ErrorMessage msg of
           None \<Rightarrow> Panic ''invalid memory address or nil pointer dereference''
         | Some e \<Rightarrow> Ret (sio_log LError ''Connect error: %v'' [e] c))
      else Ret c)"

definition onMessage :: "sio_Deps \<Rightarrow> bytes \<Rightarrow> sio_Client \<Rightarrow> sio_Client go" where
  "onMessage d data c0 =
     (let c = sio_log LDebug ''socketio receive %s'' [sio_payload c0 data] c0 in
      case p_Parse (d_parser d) data of
        Panic r \<Rightarrow> Panic r
      | Ret (_, Some e) \<Rightarrow> Ret (sio_log LError ''Can't parse message: %v'' [] c)
      | Ret (None, None) \<Rightarrow> Panic ''invalid memory address or nil pointer dereference''
      | Ret (Some msg, None) \<Rightarrow>
          if msg_Type msg = PacketAck then
            (case msg_AckId msg of
               None \<Rightarrow> Ret (sio_log LError ''received ACK packet without ack ID, dropping'' [] c)
             | Some ackId \<Rightarrow>
                 (case msg_Event msg of
                    None \<Rightarrow>
                      Ret ((sio_log LError ''received ACK packet without event data, dropping'' [] c)
                             \<lparr>c_ackCallbacks := (c_ackCallbacks c)(ackId := None)\<rparr>)
                  | Some event \<Rightarrow> Ret (handleAck event ackId c)))
          else
            (case c_namespaces c (msg_NS msg) of
               Some ns \<Rightarrow> dispatch ns msg c
             | None \<Rightarrow>
                 if msg_Type msg = PacketConnect
                 then (case client_namespace (msg_NS msg) c of (c, ns) \<Rightarrow> dispatch ns msg c)
                 else Ret (sio_log LWarn ''Received %v for unknown namespace: %s'' [msg_NS msg] c)))"

section \<open>Emitting\<close>

record EmitOptions =
  eo_timeout :: "int option"
  eo_timeoutCallback :: "nat option"
  eo_ackCallback :: callback

datatype EmitOption = WithTimeout int "nat option" | WithAck callback

fun apply_EmitOption :: "EmitOption \<Rightarrow> EmitOptions \<Rightarrow> EmitOptions" where
  "apply_EmitOption (WithTimeout timeout cb) opts =
     opts\<lparr>eo_timeout := Some timeout, eo_timeoutCallback := cb\<rparr>"
| "apply_EmitOption (WithAck cb) opts = opts\<lparr>eo_ackCallback := cb\<rparr>"

definition no_EmitOptions :: EmitOptions where
  "no_EmitOptions = \<lparr>eo_timeout = None, eo_timeoutCallback = None, eo_ackCallback = CbNil\<rparr>"

text \<open>The dynamic types that \<^verbatim>\<open>Emit\<close> distinguishes, of its event and of its arguments.\<close>

datatype emit_event = EvName string | EvValue Event | EvPtr "Event option" | EvOther

datatype emit_arg = ArgOpt EmitOption | ArgVal goval

text \<open>
  The argument loop: options are applied, plain values are moved to the front of the very slice
  that is being read (\<^verbatim>\<open>args[optLen] = args[i]\<close>).
\<close>

function emit_loop ::
  "bool \<Rightarrow> nat \<Rightarrow> nat \<Rightarrow> emit_arg list \<Rightarrow> EmitOptions \<Rightarrow> go_error + nat \<times> emit_arg list \<times> EmitOptions" where
  "emit_loop isEventDefined i optLen args opts =
     (if i < length args then
        (case args ! i of
           ArgOpt v \<Rightarrow> emit_loop isEventDefined (Suc i) optLen args (apply_EmitOption v opts)
         | ArgVal v \<Rightarrow>
             if isEventDefined
             then Inl (ErrorNew ''you can pass ether Event() ether eventName and params, not both'')
             else emit_loop isEventDefined (Suc i) (Suc optLen) (args[optLen := args ! i]) opts)
      else Inr (optLen, args, opts))"
  by pat_completeness auto
termination
  by (relation "measure (\<lambda>(d, i, k, args, opts). length args - i)") auto

declare emit_loop.simps [simp del]

fun arg_value :: "emit_arg \<Rightarrow> goval" where
  "arg_value (ArgVal v) = v"
| "arg_value (ArgOpt _) = GOther"

text \<open>
  The critical section of \<^verbatim>\<open>sendPacketWithAckTimeout\<close> and the start of its goroutine: the counter
  is incremented (it wraps at 64 bits) and the callback registered under it.
\<close>

definition register_ack :: "wrapped option \<Rightarrow> int option \<Rightarrow> nat option \<Rightarrow> sio_Client \<Rightarrow> sio_Client" where
  "register_ack wrappedCallback timeout timeoutCallback c =
     (let counter = c_ackCounter c + 1;
          ackId = sint counter;
          c = c\<lparr>c_ackCounter := counter\<rparr> in
      if timeout \<noteq> None
      then c\<lparr>c_ackCallbacks := (c_ackCallbacks c)(ackId \<mapsto> AckDone),
             c_waiters := (c_waiters c)(ackId \<mapsto>
               \<lparr>w_callback = wrappedCallback, w_timeoutCallback = timeoutCallback,
                w_done = [], w_state = Waiting\<rparr>)\<rparr>
      else (case wrappedCallback of
              None \<Rightarrow> c
            | Some w \<Rightarrow> c\<lparr>c_ackCallbacks := (c_ackCallbacks c)(ackId \<mapsto> AckWrapped w)\<rparr>))"

definition wrap_ack :: "sio_Deps \<Rightarrow> callback \<Rightarrow> wrapped option go" where
  "wrap_ack d callback =
     (if callback = CbNil then Ret None
      else (case p_WrapCallback (d_parser d) callback of Panic r \<Rightarrow> Panic r | Ret w \<Rightarrow> Ret (Some w)))"

definition sendPacketWithAckTimeout ::
  "sio_Deps \<Rightarrow> sio_Message \<Rightarrow> callback \<Rightarrow> int option \<Rightarrow> nat option \<Rightarrow> sio_Client \<Rightarrow>
     (sio_Client \<times> go_error option) go" where
  "sendPacketWithAckTimeout d packet callback timeout timeoutCallback c =
     (case wrap_ack d callback of
        Panic r \<Rightarrow> Panic r
      | Ret wrappedCallback \<Rightarrow>
          if wrappedCallback = Some WNil then Ret (c, Some (ErrorNew ''callback must be a function''))
          else
            let c = register_ack wrappedCallback timeout timeoutCallback c in
            Ret (sio_sendPacket d (packet\<lparr>msg_AckId := Some (sint (c_ackCounter c))\<rparr>) c))"

datatype emit_status = EmitBlocked | EmitReturned "go_error option"

text \<open>
  \<^verbatim>\<open>Emit\<close> on a namespace. Where the connection gate is open and the context done as well, Go's
  \<^verbatim>\<open>select\<close> picks either; \<open>pick_ctx\<close> is that choice.
\<close>

definition emit_gate :: "bool \<Rightarrow> namespace \<Rightarrow> sio_Client \<Rightarrow> emit_status option" where
  "emit_gate pick_ctx ns c =
     (case ns_waitConnected ns of
        None \<Rightarrow> None
      | Some closed \<Rightarrow>
          (case c_ctxErr c of
             None \<Rightarrow> if closed then None else Some EmitBlocked
           | Some e \<Rightarrow> if closed \<and> \<not> pick_ctx then None else Some (EmitReturned (Some e))))"

definition emit_send ::
  "sio_Deps \<Rightarrow> namespace \<Rightarrow> Event option \<Rightarrow> EmitOptions \<Rightarrow> sio_Client \<Rightarrow> (sio_Client \<times> emit_status) go" where
  "emit_send d ns event opts c =
     (let packet = (new_message PacketEvent (ns_name ns))\<lparr>msg_Event := event\<rparr> in
      if eo_ackCallback opts = CbNil \<and> eo_timeout opts = None
      then (case sio_sendPacket d packet c of (c', e) \<Rightarrow> Ret (c', EmitReturned e))
      else (case sendPacketWithAckTimeout d packet (eo_ackCallback opts) (eo_timeout opts)
                   (eo_timeoutCallback opts) c of
              Panic r \<Rightarrow> Panic r
            | Ret (c', e) \<Rightarrow> Ret (c', EmitReturned e)))"

definition ns_Emit ::
  "sio_Deps \<Rightarrow> bool \<Rightarrow> namespace \<Rightarrow> emit_event \<Rightarrow> emit_arg list \<Rightarrow> sio_Client \<Rightarrow> (sio_Client \<times> emit_status) go" where
  "ns_Emit d pick_ctx ns event args c =
     (case emit_gate pick_ctx ns c of
        Some st \<Rightarrow> Ret (c, st)
      | None \<Rightarrow>
          if event = EvOther then Ret (c, EmitReturned (Some (ErrorNew ''invalid event type'')))
          else
            (case emit_loop (case event of EvName _ \<Rightarrow> False | _ \<Rightarrow> True) 0 0 args no_EmitOptions of
               Inl e \<Rightarrow> Ret (c, EmitReturned (Some e))
             | Inr (optLen, args, opts) \<Rightarrow>
                 emit_send d ns
                   (case event of
                      EvName n \<Rightarrow> Some \<lparr>ev_Name = n, ev_Payloads = map arg_value (take optLen args)\<rparr>
                    | EvValue ev \<Rightarrow> Some ev
                    | EvPtr ev \<Rightarrow> ev
                    | EvOther \<Rightarrow> None)
                   opts c))"

definition client_Emit ::
  "sio_Deps \<Rightarrow> bool \<Rightarrow> emit_event \<Rightarrow> emit_arg list \<Rightarrow> sio_Client \<Rightarrow> (sio_Client \<times> emit_status) go" where
  "client_Emit d pick_ctx event args c =
     (case c_namespaces c (c_defaultNs c) of
        None \<Rightarrow> Panic ''invalid memory address or nil pointer dereference''
      | Some ns \<Rightarrow> ns_Emit d pick_ctx ns event args c)"

subsection \<open>The argument loop collects the values and the options\<close>

definition plain_values :: "emit_arg list \<Rightarrow> goval list" where
  "plain_values args = map arg_value (filter (\<lambda>a. case a of ArgVal _ \<Rightarrow> True | _ \<Rightarrow> False) args)"

definition plain_options :: "emit_arg list \<Rightarrow> EmitOption list" where
  "plain_options args = concat (map (\<lambda>a. case a of ArgOpt v \<Rightarrow> [v] | _ \<Rightarrow> []) args)"

lemma emit_loop_by_name:
  assumes "optLen \<le> i" and "i \<le> length args"
  shows "\<exists>optLen' args'. emit_loop False i optLen args opts =
      Inr (optLen', args', fold apply_EmitOption (plain_options (drop i args)) opts) \<and>
      map arg_value (take optLen' args') =
        map arg_value (take optLen args) @ plain_values (drop i args)"
  using assms
proof (induction False i optLen args opts rule: emit_loop.induct)
  case (1 i optLen args opts)
  show ?case
  proof (cases "i < length args")
    case False
    then show ?thesis
      by (simp add: emit_loop.simps [of False i] plain_values_def plain_options_def)
  next
    case True
    then have drop: "drop i args = args ! i # drop (Suc i) args" by (simp add: Cons_nth_drop_Suc)
    show ?thesis
    proof (cases "args ! i")
      case (ArgOpt v)
      with 1 True drop show ?thesis
        by (simp add: emit_loop.simps [of False i] plain_values_def plain_options_def)
    next
      case (ArgVal v)
      have "take (Suc optLen) (args[optLen := ArgVal v]) = take optLen args @ [ArgVal v]"
        using "1.prems" True by (simp add: take_Suc_conv_app_nth)
      moreover have "drop (Suc i) (args[optLen := ArgVal v]) = drop (Suc i) args"
        using "1.prems" by simp
      ultimately show ?thesis
        using 1 True drop ArgVal
        by (simp add: emit_loop.simps [of False i] plain_values_def plain_options_def)
    qed
  qed
qed

lemma emit_loop_event:
  assumes "i \<le> length args"
  shows "emit_loop True i optLen args opts =
    (if plain_values (drop i args) = [] then Inr (optLen, args, fold apply_EmitOption (plain_options (drop i args)) opts)
     else Inl (ErrorNew ''you can pass ether Event() ether eventName and params, not both''))"
  using assms
proof (induction True i optLen args opts rule: emit_loop.induct)
  case (1 i optLen args opts)
  show ?case
  proof (cases "i < length args")
    case False
    then show ?thesis by (simp add: emit_loop.simps [of True i] plain_values_def plain_options_def)
  next
    case True
    then have drop: "drop i args = args ! i # drop (Suc i) args" by (simp add: Cons_nth_drop_Suc)
    show ?thesis
      using 1 True drop
      by (cases "args ! i") (simp_all add: emit_loop.simps [of True i] plain_values_def plain_options_def)
  qed
qed

end
