(* ===== verification/SocketIO_Acks.thy ===== *)
theory SocketIO_Acks
  imports SocketIO_Client
begin

text \<open>
  The goroutines of the Socket.IO client interleaved: handlers started by \<^verbatim>\<open>safeGo\<close>, the waiters of
  emits with a timeout, incoming packets, emits and registrations, in any order. The step relation
  has one rule per action of \<^verbatim>\<open>client.go\<close>, \<^verbatim>\<open>handlers.go\<close> and \<^verbatim>\<open>emitters.go\<close>; its invariant shows
  that every acknowledgement has at most one outcome and that no goroutine blocks on the \<^verbatim>\<open>done\<close>
  channel.
\<close>

section \<open>Running goroutines\<close>

text \<open>
  A call made inside \<^verbatim>\<open>safeGo\<close>: a panic is recovered and logged. A callback that is not called
  because its arguments do not decode is reported to the parser's logger.
\<close>

definition record_call :: "invocation \<Rightarrow> sio_Client \<Rightarrow> sio_Client" where
  "record_call iv c =
     (case iv of
        CallPanics r \<Rightarrow> sio_log LError ''panic in event handler: %v'' [r] c
      | _ \<Rightarrow> c)"

text \<open>
  One goroutine of \<^verbatim>\<open>safeGo\<close>, already taken off the list. \<open>None\<close>: it blocks on a full \<^verbatim>\<open>done\<close>
  channel (capacity 1).
\<close>

fun run_task :: "(gotype \<Rightarrow> bytes \<Rightarrow> goval option) \<Rightarrow> task \<Rightarrow> sio_Client \<Rightarrow> sio_Client option" where
  "run_task unm (THandler w vs) c =
     (let iv = run_wrapped unm w vs in Some (record_call iv (c\<lparr>c_calls := c_calls c @ [iv]\<rparr>)))"
| "run_task unm (TAny f name vs) c = Some (c\<lparr>c_calls := c_calls c @ [Called f (GString name # vs)]\<rparr>)"
| "run_task unm (TAck ackId (AckWrapped w) vs) c =
     (let iv = run_wrapped unm w vs in Some (record_call iv (c\<lparr>c_acks := c_acks c @ [(ackId, AckInvoked iv)]\<rparr>)))"
| "run_task unm (TAck ackId AckDone vs) c =
     (case c_waiters c ackId of
        None \<Rightarrow> None
      | Some w \<Rightarrow>
          if length (w_done w) < 1
          then Some (c\<lparr>c_waiters := (c_waiters c)(ackId \<mapsto> w\<lparr>w_done := w_done w @ [vs]\<rparr>)\<rparr>)
          else None)"

text \<open>
  The three cases of the waiter's \<^verbatim>\<open>select\<close>; the timeout takes the lock in a step of its own. The
  waiter calls the wrapped callback itself, outside \<^verbatim>\<open>safeGo\<close>.
\<close>

definition waiter_timer :: "int \<Rightarrow> waiter \<Rightarrow> sio_Client \<Rightarrow> sio_Client" where
  "waiter_timer ackId w c =
     (sio_log LWarn ''ack timeout: %v'' [] c)\<lparr>c_waiters := (c_waiters c)(ackId \<mapsto> w\<lparr>w_state := TimerFired\<rparr>)\<rparr>"

definition waiter_expire :: "int \<Rightarrow> waiter \<Rightarrow> sio_Client \<Rightarrow> sio_Client" where
  "waiter_expire ackId w c =
     c\<lparr>c_ackCallbacks := (c_ackCallbacks c)(ackId := None),
       c_waiters := (c_waiters c)(ackId \<mapsto> w\<lparr>w_state := TimedOut\<rparr>),
       c_acks := c_acks c @ (case w_timeoutCallback w of None \<Rightarrow> [] | Some f \<Rightarrow> [(ackId, TimeoutInvoked f)])\<rparr>"

definition waiter_ctx :: "int \<Rightarrow> waiter \<Rightarrow> sio_Client \<Rightarrow> sio_Client" where
  "waiter_ctx ackId w c =
     (sio_log LWarn ''context is done: %v'' [] c)\<lparr>c_waiters := (c_waiters c)(ackId \<mapsto> w\<lparr>w_state := CtxDone\<rparr>)\<rparr>"

definition waiter_done ::
  "(gotype \<Rightarrow> bytes \<Rightarrow> goval option) \<Rightarrow> int \<Rightarrow> waiter \<Rightarrow> goval list \<Rightarrow> sio_Client \<Rightarrow> sio_Client" where
  "waiter_done unm ackId w param c =
     c\<lparr>c_waiters := (c_waiters c)(ackId \<mapsto> w\<lparr>w_done := tl (w_done w), w_state := Acked\<rparr>),
       c_acks := c_acks c @ (case w_callback w of
                               None \<Rightarrow> []
                             | Some cb \<Rightarrow> [(ackId, AckInvoked (run_wrapped unm cb param))])\<rparr>"

section \<open>Steps\<close>

text \<open>
  An emit is taken only while the counter has not reached the largest \<^verbatim>\<open>int\<close>: the ids of fewer
  than \<open>2^63 - 1\<close> emits. A waiter watches the context that was stored when it was started, whose end
  the client does not control: it may come at any time.
\<close>

inductive sio_step :: "sio_Deps \<Rightarrow> (gotype \<Rightarrow> bytes \<Rightarrow> goval option) \<Rightarrow> sio_Client \<Rightarrow> sio_Client \<Rightarrow> bool"
  for d :: sio_Deps and unm :: "gotype \<Rightarrow> bytes \<Rightarrow> goval option" where
  s_receive: "onMessage d data c = Ret c' \<Longrightarrow> sio_step d unm c c'"
| s_emit: "c_namespaces c n = Some ns \<Longrightarrow> sint (c_ackCounter c) < 2 ^ 63 - 1 \<Longrightarrow>
     ns_Emit d pick ns event args c = Ret (c', st) \<Longrightarrow> sio_step d unm c c'"
| s_on: "client_On d event cb c = Ret c' \<Longrightarrow> sio_step d unm c c'"
| s_onany: "sio_step d unm c (client_OnAny f c)"
| s_handshake_data: "sio_step d unm c (SetHandshakeData hsd c)"
| s_engine_connect: "sio_step d unm c (connectSocketIO d c)"
| s_connect: "sio_Connect d ctx fs c = Ret (c', e) \<Longrightarrow> sio_step d unm c c'"
| s_cancel: "sio_step d unm c (c\<lparr>c_ctxErr := Some e\<rparr>)"
| s_task: "c_tasks c = xs @ t # ys \<Longrightarrow> run_task unm t (c\<lparr>c_tasks := xs @ ys\<rparr>) = Some c' \<Longrightarrow> sio_step d unm c c'"
| s_timer: "c_waiters c ackId = Some w \<Longrightarrow> w_state w = Waiting \<Longrightarrow> sio_step d unm c (waiter_timer ackId w c)"
| s_expire: "c_waiters c ackId = Some w \<Longrightarrow> w_state w = TimerFired \<Longrightarrow> sio_step d unm c (waiter_expire ackId w c)"
| s_ctx: "c_waiters c ackId = Some w \<Longrightarrow> w_state w = Waiting \<Longrightarrow>
     sio_step d unm c (waiter_ctx ackId w c)"
| s_done: "c_waiters c ackId = Some w \<Longrightarrow> w_state w = Waiting \<Longrightarrow> w_done w = param # rest \<Longrightarrow>
     sio_step d unm c (waiter_done unm ackId w param c)"

definition sio_init :: "sio_Client \<Rightarrow> bool" where
  "sio_init c \<longleftrightarrow>
     c_namespaces c = [c_defaultNs c \<mapsto> new_namespace (c_defaultNs c)] \<and>
     c_ackCallbacks c = Map.empty \<and> c_ackCounter c = 0 \<and> c_waiters c = Map.empty \<and>
     c_tasks c = [] \<and> c_sent c = [] \<and> c_calls c = [] \<and> c_acks c = []"

section \<open>The acknowledgement invariant\<close>

fun task_id :: "task \<Rightarrow> int option" where
  "task_id (TAck ackId _ _) = Some ackId"
| "task_id _ = None"

definition ack_tasks :: "sio_Client \<Rightarrow> task list" where
  "ack_tasks c = filter (\<lambda>t. task_id t \<noteq> None) (c_tasks c)"

definition id_tasks :: "task list \<Rightarrow> int \<Rightarrow> task list" where
  "id_tasks ts ackId = filter (\<lambda>t. task_id t = Some ackId) ts"

text \<open>How many deliveries of an id are still on their way: its map entry and its goroutines.\<close>

definition pending :: "sio_Client \<Rightarrow> int \<Rightarrow> nat" where
  "pending c ackId =
     (if c_ackCallbacks c ackId = None then 0 else 1) + length (id_tasks (ack_tasks c) ackId)"

definition outcomes :: "sio_Client \<Rightarrow> int \<Rightarrow> (int \<times> ack_event) list" where
  "outcomes c ackId = filter (\<lambda>e. fst e = ackId) (c_acks c)"

definition uses_done :: "sio_Client \<Rightarrow> int \<Rightarrow> bool" where
  "uses_done c ackId \<longleftrightarrow>
     c_ackCallbacks c ackId = Some AckDone \<or> (\<exists>ps. TAck ackId AckDone ps \<in> set (ack_tasks c))"

definition uses_callback :: "sio_Client \<Rightarrow> int \<Rightarrow> bool" where
  "uses_callback c ackId \<longleftrightarrow>
     (\<exists>w. c_ackCallbacks c ackId = Some (AckWrapped w)) \<or>
     (\<exists>w ps. TAck ackId (AckWrapped w) ps \<in> set (ack_tasks c))"

definition id_ok :: "sio_Client \<Rightarrow> int \<Rightarrow> bool" where
  "id_ok c ackId \<longleftrightarrow>
     (case c_waiters c ackId of
        None \<Rightarrow> pending c ackId + length (outcomes c ackId) \<le> 1 \<and> \<not> uses_done c ackId
      | Some w \<Rightarrow>
          pending c ackId + length (w_done w) + (if w_state w = Acked then 1 else 0) \<le> 1 \<and>
          length (outcomes c ackId) \<le> (if w_state w = TimedOut \<or> w_state w = Acked then 1 else 0) \<and>
          \<not> uses_callback c ackId)"

definition id_fresh :: "sio_Client \<Rightarrow> int \<Rightarrow> bool" where
  "id_fresh c ackId \<longleftrightarrow> c_waiters c ackId = None \<and> pending c ackId = 0 \<and> outcomes c ackId = []"

definition ack_inv :: "sio_Client \<Rightarrow> bool" where
  "ack_inv c \<longleftrightarrow> 0 \<le> sint (c_ackCounter c) \<and>
     (\<forall>ackId. id_ok c ackId) \<and>
     (\<forall>ackId. \<not> (1 \<le> ackId \<and> ackId \<le> sint (c_ackCounter c)) \<longrightarrow> id_fresh c ackId)"

lemmas ack_defs = pending_def outcomes_def uses_done_def uses_callback_def id_tasks_def

text \<open>The part of the state that the invariant reads.\<close>

definition ack_view ::
  "sio_Client \<Rightarrow> (int \<rightharpoonup> ack_callback) \<times> int64 \<times> (int \<rightharpoonup> waiter) \<times> task list \<times> (int \<times> ack_event) list" where
  "ack_view c = (c_ackCallbacks c, c_ackCounter c, c_waiters c, ack_tasks c, c_acks c)"

lemma ack_inv_view: "ack_view c = ack_view c' \<Longrightarrow> ack_inv c \<Longrightarrow> ack_inv c'"
proof -
  assume eq: "ack_view c = ack_view c'" and "ack_inv c"
  then have f: "pending c = pending c'" "outcomes c = outcomes c'" "uses_done c = uses_done c'"
    "uses_callback c = uses_callback c'" "c_waiters c = c_waiters c'"
    by (auto simp: fun_eq_iff ack_defs ack_view_def)
  have "id_ok c = id_ok c'" "id_fresh c = id_fresh c'"
    unfolding id_ok_def [abs_def] id_fresh_def [abs_def] f by (rule refl)+
  then show "ack_inv c'" using eq \<open>ack_inv c\<close> by (simp add: ack_inv_def ack_view_def)
qed

lemma ack_view_simps [simp]:
  "ack_view (sio_log lv fmt as c) = ack_view c"
  "ack_view (update_namespace n f c) = ack_view c"
  "ack_view (c\<lparr>c_namespaces := nss\<rparr>) = ack_view c"
  "ack_view (c\<lparr>c_sent := ss\<rparr>) = ack_view c"
  "ack_view (c\<lparr>c_ctxErr := e\<rparr>) = ack_view c"
  "ack_view (c\<lparr>c_calls := is\<rparr>) = ack_view c"
  "ack_view (c\<lparr>c_handshakeData := hs\<rparr>) = ack_view c"
  by (simp_all add: ack_view_def ack_tasks_def sio_log_def update_namespace_def)

lemma ack_view_safeGo [simp]: "\<forall>t \<in> set ts. task_id t = None \<Longrightarrow> ack_view (safeGo ts c) = ack_view c"
  by (simp add: ack_view_def ack_tasks_def safeGo_def filter_empty_conv)

lemma ack_view_record_call [simp]: "ack_view (record_call iv c) = ack_view c"
  by (simp add: record_call_def split: invocation.splits)

subsection \<open>What each action does to acknowledgements\<close>

lemma sio_sendPacket_view: "ack_view (fst (sio_sendPacket d m c)) = ack_view c"
  by (simp add: sio_sendPacket_def split: sum.splits)

lemma connectSocketIO_view [simp]: "ack_view (connectSocketIO d c) = ack_view c"
proof -
  let ?m = "(new_message PacketConnect (c_defaultNs c))\<lparr>msg_Payload := GMap (c_handshakeData c)\<rparr>"
  show ?thesis
    using sio_sendPacket_view [of d ?m c]
    by (cases "sio_sendPacket d ?m c") (simp add: connectSocketIO_def split: option.splits)
qed

lemma client_On_view: "client_On d event cb c = Ret c' \<Longrightarrow> ack_view c' = ack_view c"
  by (auto simp: client_On_def ns_On_def split: go.splits)

lemma register_all_view: "register_all d event cbs c = Ret c' \<Longrightarrow> ack_view c' = ack_view c"
  by (induction cbs arbitrary: c) (auto dest: client_On_view split: go.splits)

lemma sio_Connect_view: "sio_Connect d ctx fs c = Ret (c', e) \<Longrightarrow> ack_view c' = ack_view c"
  by (auto simp: sio_Connect_def dest!: register_all_view split: go.splits)

text \<open>Removing an id from the map, with or without starting its goroutine.\<close>

definition ack_deleted :: "int \<Rightarrow> task list \<Rightarrow> sio_Client \<Rightarrow> sio_Client" where
  "ack_deleted ackId ts c =
     c\<lparr>c_ackCallbacks := (c_ackCallbacks c)(ackId := None), c_tasks := c_tasks c @ ts\<rparr>"

lemma dispatch_view: "dispatch ns msg c = Ret c' \<Longrightarrow> ack_view c' = ack_view c"
  by (auto simp: dispatch_def handleDisconnect_def handleConnect_def handleConnectError_def
      handleEvent_def Let_def ball_Un split: if_splits option.splits)

lemma handleAck_view:
  "ack_view (handleAck ev ackId c) =
     ack_view (ack_deleted ackId (case c_ackCallbacks c ackId of None \<Rightarrow> [] | Some cb \<Rightarrow> [TAck ackId cb (ev_Payloads ev)]) c)"
  by (auto simp: handleAck_def ack_deleted_def ack_view_def ack_tasks_def sio_log_def safeGo_def
      split: option.splits)

lemma onMessage_view:
  assumes "onMessage d data c = Ret c'"
  shows "ack_view c' = ack_view c \<or>
    (\<exists>ackId ps. ack_view c' = ack_view (ack_deleted ackId [] c) \<or>
      ack_view c' = ack_view (ack_deleted ackId
        (case c_ackCallbacks c ackId of None \<Rightarrow> [] | Some cb \<Rightarrow> [TAck ackId cb ps]) c))"
proof -
  let ?c = "sio_log LDebug ''socketio receive %s'' [sio_payload c data] c"
  have del: "ack_view ((sio_log LError fmt [] ?c)\<lparr>c_ackCallbacks := (c_ackCallbacks ?c)(i := None)\<rparr>) =
      ack_view (ack_deleted i [] c)" for i fmt
    by (simp add: ack_view_def ack_tasks_def sio_log_def ack_deleted_def)
  have ack: "ack_view (handleAck ev i ?c) = ack_view (ack_deleted i
      (case c_ackCallbacks c i of None \<Rightarrow> [] | Some cb \<Rightarrow> [TAck i cb (ev_Payloads ev)]) c)" for i ev
    by (simp add: handleAck_view) (simp add: ack_view_def ack_tasks_def sio_log_def ack_deleted_def)
  have ns: "ack_view (fst (client_namespace n ?c)) = ack_view c" for n
    by (simp add: client_namespace_def split: option.splits)
  obtain mo eo where r: "p_Parse (d_parser d) data = Ret (mo, eo)"
    using assms by (cases "p_Parse (d_parser d) data") (auto simp: onMessage_def)
  show ?thesis
  proof (cases "eo = None \<and> mo \<noteq> None")
    case False
    then show ?thesis
      using assms r by (cases eo; cases mo) (auto simp: onMessage_def)
  next
    case True
    then obtain msg where m: "p_Parse (d_parser d) data = Ret (Some msg, None)" using r by auto
    show ?thesis
    proof (cases "msg_Type msg = PacketAck")
      case True
      show ?thesis
      proof (cases "msg_AckId msg \<noteq> None \<and> msg_Event msg \<noteq> None")
        case ev: True
        then obtain i ev where "msg_AckId msg = Some i" "msg_Event msg = Some ev" by auto
        with assms m True have "c' = handleAck ev i ?c" by (simp add: onMessage_def Let_def)
        with ack show ?thesis by metis
      next
        case False
        then show ?thesis
          using assms m True del
          by (cases "msg_AckId msg"; cases "msg_Event msg") (auto simp: onMessage_def Let_def)
      qed
    next
      case False
      obtain c1 ns1 where cn: "client_namespace (msg_NS msg) ?c = (c1, ns1)" by fastforce
      with ns [of "msg_NS msg"] have "ack_view c1 = ack_view c" by simp
      then show ?thesis
        using assms m False cn dispatch_view [of _ msg ?c c'] dispatch_view [of ns1 msg c1 c']
        by (cases "c_namespaces ?c (msg_NS msg)") (auto simp: onMessage_def Let_def split: if_splits)
    qed
  qed
qed

subsection \<open>Every action keeps the invariant\<close>

text \<open>Nothing about an id got worse.\<close>

definition ack_frame :: "sio_Client \<Rightarrow> sio_Client \<Rightarrow> int \<Rightarrow> bool" where
  "ack_frame c c' j \<longleftrightarrow>
     c_waiters c' j = c_waiters c j \<and> pending c' j \<le> pending c j \<and> outcomes c' j = outcomes c j \<and>
     (uses_done c' j \<longrightarrow> uses_done c j) \<and> (uses_callback c' j \<longrightarrow> uses_callback c j)"

lemma ack_frame_ok: "ack_frame c c' j \<Longrightarrow> id_ok c j \<Longrightarrow> id_ok c' j"
  by (auto simp: ack_frame_def id_ok_def split: option.splits if_splits)

lemma ack_frame_fresh: "ack_frame c c' j \<Longrightarrow> id_fresh c j \<Longrightarrow> id_fresh c' j"
  by (auto simp: ack_frame_def id_fresh_def)

lemma ack_inv_frame:
  assumes "ack_inv c" and "c_ackCounter c' = c_ackCounter c" and "\<And>j. ack_frame c c' j"
  shows "ack_inv c'"
  using assms(1,2) ack_frame_ok [OF assms(3)] ack_frame_fresh [OF assms(3)]
  unfolding ack_inv_def by metis

lemma ack_inv_local:
  assumes inv: "ack_inv c" and cnt: "sint (c_ackCounter c) \<le> sint (c_ackCounter c')"
    and k: "1 \<le> k" "k \<le> sint (c_ackCounter c')" and frame: "\<And>j. j \<noteq> k \<Longrightarrow> ack_frame c c' j" and ok: "id_ok c' k"
  shows "ack_inv c'"
  unfolding ack_inv_def
proof (intro conjI allI impI)
  show "0 \<le> sint (c_ackCounter c')" using inv cnt by (simp add: ack_inv_def)
  show "id_ok c' j" for j
    using ack_frame_ok [OF frame, of j] inv ok by (cases "j = k") (simp_all add: ack_inv_def)
  fix j
  assume j: "\<not> (1 \<le> j \<and> j \<le> sint (c_ackCounter c'))"
  then have "j \<noteq> k" "id_fresh c j" using k cnt inv by (auto simp: ack_inv_def)
  with frame ack_frame_fresh show "id_fresh c' j" by blast
qed

lemma ack_inv_range:
  assumes "ack_inv c" and "c_waiters c k \<noteq> None \<or> pending c k \<noteq> 0"
  shows "1 \<le> k \<and> k \<le> sint (c_ackCounter c)"
  using assms by (auto simp: ack_inv_def id_fresh_def)

lemma ack_inv_deleted:
  assumes "ack_inv c" and "ts = [] \<or> (\<exists>cb ps. c_ackCallbacks c k = Some cb \<and> ts = [TAck k cb ps])"
  shows "ack_inv (ack_deleted k ts c)"
  using assms(1)
proof (rule ack_inv_frame)
  show "ack_frame c (ack_deleted k ts c) j" for j
    using assms(2) by (auto simp: ack_frame_def ack_deleted_def ack_defs ack_tasks_def)
qed (simp add: ack_deleted_def)

lemma onMessage_inv: "ack_inv c \<Longrightarrow> onMessage d data c = Ret c' \<Longrightarrow> ack_inv c'"
proof -
  assume inv: "ack_inv c" and "onMessage d data c = Ret c'"
  from onMessage_view [OF this(2)]
  consider "ack_view c' = ack_view c"
    | k where "ack_view c' = ack_view (ack_deleted k [] c)"
    | k ps where "ack_view c' = ack_view (ack_deleted k
        (case c_ackCallbacks c k of None \<Rightarrow> [] | Some cb \<Rightarrow> [TAck k cb ps]) c)"
    by blast
  then show ?thesis
  proof cases
    case 1
    with inv show ?thesis using ack_inv_view [of c c'] by simp
  next
    case (2 k)
    with ack_inv_deleted [OF inv, of "[]" k] show ?thesis by (auto intro: ack_inv_view)
  next
    case (3 k ps)
    have "ack_inv (ack_deleted k (case c_ackCallbacks c k of None \<Rightarrow> [] | Some cb \<Rightarrow> [TAck k cb ps]) c)"
      using inv by (intro ack_inv_deleted) (auto split: option.splits)
    with 3 show ?thesis by (auto intro: ack_inv_view)
  qed
qed

text \<open>Emitting: the new id is one above every id in use.\<close>

lemma sint_succ: "sint (n :: int64) < 2 ^ 63 - 1 \<Longrightarrow> sint (n + 1) = sint n + 1"
  using sint_ge [of n]
  by (simp add: signed_take_bit_int_eq_self sint_word_ariths)

lemma ack_inv_register:
  assumes inv: "ack_inv c" and cnt: "sint (c_ackCounter c) < 2 ^ 63 - 1"
    and c': "c_ackCounter c' = c_ackCounter c + 1" "ack_tasks c' = ack_tasks c" "c_acks c' = c_acks c"
    and cb: "c_ackCallbacks c' = (c_ackCallbacks c)(k := v)" and k: "k = sint (c_ackCounter c + 1)"
    and w: "(c_waiters c' = c_waiters c \<and> v \<noteq> Some AckDone) \<or>
      (\<exists>w. c_waiters c' = (c_waiters c)(k \<mapsto> w) \<and> w_done w = [] \<and> w_state w = Waiting \<and> v = Some AckDone)"
  shows "ack_inv c'"
proof (rule ack_inv_local [OF inv])
  have k1: "k = sint (c_ackCounter c) + 1" using k sint_succ [OF cnt] by simp
  show "sint (c_ackCounter c) \<le> sint (c_ackCounter c')" "1 \<le> k" "k \<le> sint (c_ackCounter c')"
    using c'(1) k k1 inv by (simp_all add: ack_inv_def)
  have fresh: "id_fresh c k" using inv k1 by (simp add: ack_inv_def)
  then have none: "c_waiters c k = None" "id_tasks (ack_tasks c) k = []" "outcomes c k = []"
    by (simp_all add: id_fresh_def pending_def)
  have no_task: "TAck k b ps \<notin> set (ack_tasks c)" for b ps
    using none(2) by (auto simp: id_tasks_def filter_empty_conv)
  show "ack_frame c c' j" if "j \<noteq> k" for j
    using that c' cb w by (auto simp: ack_frame_def ack_defs)
  show "id_ok c' k"
    using none no_task c' cb w
    by (auto simp: id_ok_def pending_def outcomes_def uses_done_def uses_callback_def)
qed

lemma sio_sendPacket_inv: "ack_inv c \<Longrightarrow> ack_inv (fst (sio_sendPacket d m c))"
  using sio_sendPacket_view [of d m c] ack_inv_view [of c "fst (sio_sendPacket d m c)"] by simp

lemma register_ack_inv:
  assumes inv: "ack_inv c" and cnt: "sint (c_ackCounter c) < 2 ^ 63 - 1"
  shows "ack_inv (register_ack wc t tcb c)"
proof (rule ack_inv_register [OF inv cnt _ _ _ _ refl,
      where v = "if t \<noteq> None then Some AckDone else map_option AckWrapped wc"])
  let ?k = "sint (c_ackCounter c + 1)"
  have "c_ackCallbacks c ?k = None"
    using inv sint_succ [OF cnt] by (auto simp: ack_inv_def id_fresh_def pending_def split: if_splits)
  then show "c_ackCallbacks (register_ack wc t tcb c) =
      (c_ackCallbacks c)(?k := if t \<noteq> None then Some AckDone else map_option AckWrapped wc)"
    by (auto simp: register_ack_def Let_def fun_upd_idem split: option.splits)
qed (auto simp: register_ack_def Let_def ack_tasks_def split: option.splits)

lemma sendPacketWithAckTimeout_inv:
  assumes "ack_inv c" and "sint (c_ackCounter c) < 2 ^ 63 - 1"
    and "sendPacketWithAckTimeout d m cb t tcb c = Ret (c', e)"
  shows "ack_inv c'"
proof -
  have "ack_inv (fst (sio_sendPacket d m' (register_ack wc t tcb c)))" for m' wc
    by (intro sio_sendPacket_inv register_ack_inv assms)
  with assms(1,3) show ?thesis
    by (auto simp: sendPacketWithAckTimeout_def Let_def split: if_splits go.splits) (metis fst_conv)+
qed

lemma emit_send_inv:
  assumes "ack_inv c" and "sint (c_ackCounter c) < 2 ^ 63 - 1" and "emit_send d ns ev opts c = Ret (c', st)"
  shows "ack_inv c'"
proof (cases "eo_ackCallback opts = CbNil \<and> eo_timeout opts = None")
  case True
  then show ?thesis
    using assms sio_sendPacket_inv [OF assms(1)]
    by (auto simp: emit_send_def Let_def split: prod.splits) (metis fst_conv)
next
  case False
  then show ?thesis
    using assms(3) sendPacketWithAckTimeout_inv [OF assms(1,2)]
    by (auto simp: emit_send_def Let_def simp del: de_Morgan_conj split: if_splits go.splits prod.splits)
qed

lemma ns_Emit_inv:
  assumes "ack_inv c" and "sint (c_ackCounter c) < 2 ^ 63 - 1" and "ns_Emit d pick ns event args c = Ret (c', st)"
  shows "ack_inv c'"
  using assms(1,3) emit_send_inv [OF assms(1,2)]
  by (auto simp: ns_Emit_def split: option.splits if_splits sum.splits prod.splits)

subsection \<open>Goroutines and waiters\<close>

lemma id_ok_of: "ack_inv c \<Longrightarrow> id_ok c k"
  by (simp add: ack_inv_def)

lemma run_task_inv:
  assumes inv: "ack_inv c" and ts: "c_tasks c = xs @ t # ys"
    and r: "run_task unm t (c\<lparr>c_tasks := xs @ ys\<rparr>) = Some c'"
  shows "ack_inv c'"
proof (cases "task_id t")
  case None
  then have "ack_view c' = ack_view (c\<lparr>c_tasks := xs @ ys\<rparr>)"
    using r by (cases t) (auto simp: Let_def)
  also have "\<dots> = ack_view c" using None ts by (simp add: ack_view_def ack_tasks_def)
  finally show ?thesis using inv ack_inv_view [of c c'] by simp
next
  case (Some k)
  then obtain b vs where t: "t = TAck k b vs" by (cases t) auto
  have pend: "pending c k \<noteq> 0" using t ts by (simp add: pending_def ack_tasks_def id_tasks_def)
  have ok: "id_ok c k" using inv by (rule id_ok_of)
  show ?thesis
  proof (cases b)
    case (AckWrapped w)
    have u: "uses_callback c k" using t ts AckWrapped by (auto simp: uses_callback_def ack_tasks_def)
    let ?c = "c\<lparr>c_tasks := xs @ ys, c_acks := c_acks c @ [(k, AckInvoked (run_wrapped unm w vs))]\<rparr>"
    have view: "ack_view ?c = ack_view c'" using r t AckWrapped by (auto simp: Let_def)
    have "ack_inv ?c"
    proof (rule ack_inv_local [OF inv])
      show "ack_frame c ?c j" if "j \<noteq> k" for j
        using that t ts by (auto simp: ack_frame_def ack_defs ack_tasks_def)
      have "c_waiters c k = None" using ok u by (auto simp: id_ok_def split: option.splits)
      then show "id_ok ?c k"
        using ok t ts by (auto simp: id_ok_def ack_defs ack_tasks_def split: option.splits if_splits)
    qed (use ack_inv_range [OF inv] pend in auto)
    with view show ?thesis by (rule ack_inv_view)
  next
    case AckDone
    have u: "uses_done c k" using t ts AckDone by (auto simp: uses_done_def ack_tasks_def)
    then obtain w where w: "c_waiters c k = Some w" using ok by (auto simp: id_ok_def split: option.splits)
    then have c': "c' = c\<lparr>c_tasks := xs @ ys, c_waiters := (c_waiters c)(k \<mapsto> w\<lparr>w_done := w_done w @ [vs]\<rparr>)\<rparr>"
      using r t AckDone by (auto split: if_splits)
    show ?thesis
    proof (rule ack_inv_local [OF inv])
      show "ack_frame c c' j" if "j \<noteq> k" for j
        using that t ts by (auto simp: c' ack_frame_def ack_defs ack_tasks_def)
      show "id_ok c' k"
        using ok t ts w by (auto simp: c' id_ok_def ack_defs ack_tasks_def split: if_splits)
    qed (use ack_inv_range [OF inv] pend in \<open>auto simp: c'\<close>)
  qed
qed

lemma waiter_inv:
  assumes inv: "ack_inv c" and w: "c_waiters c k = Some w"
    and c': "c_ackCounter c' = c_ackCounter c" "\<And>j. j \<noteq> k \<Longrightarrow> ack_frame c c' j" and ok: "id_ok c' k"
  shows "ack_inv c'"
  using ack_inv_local [OF inv _ _ _ c'(2) ok] ack_inv_range [OF inv, of k] w c'(1) by simp

lemma waiter_timer_inv:
  assumes "ack_inv c" and "c_waiters c k = Some w" and "w_state w = Waiting"
  shows "ack_inv (waiter_timer k w c)" and "ack_inv (waiter_ctx k w c)"
  using id_ok_of [OF assms(1), of k] assms(2,3)
  by (auto intro!: waiter_inv [OF assms(1,2)]
      simp: waiter_timer_def waiter_ctx_def sio_log_def ack_frame_def id_ok_def ack_defs ack_tasks_def)

lemma waiter_expire_inv:
  assumes "ack_inv c" and "c_waiters c k = Some w" and "w_state w = TimerFired"
  shows "ack_inv (waiter_expire k w c)"
  using id_ok_of [OF assms(1), of k] assms(2,3)
  by (auto intro!: waiter_inv [OF assms(1,2)]
      simp: waiter_expire_def ack_frame_def id_ok_def ack_defs ack_tasks_def split: option.splits if_splits)

lemma waiter_done_inv:
  assumes "ack_inv c" and "c_waiters c k = Some w" and "w_state w = Waiting" and "w_done w = p # rest"
  shows "ack_inv (waiter_done unm k w p c)"
  using id_ok_of [OF assms(1), of k] assms(2-)
  by (auto intro!: waiter_inv [OF assms(1,2)]
      simp: waiter_done_def ack_frame_def id_ok_def ack_defs ack_tasks_def split: option.splits if_splits)

lemma registration_inv:
  "ack_inv c \<Longrightarrow> ack_inv (client_OnAny f c)"
  "ack_inv c \<Longrightarrow> ack_inv (SetHandshakeData hsd c)"
  "ack_inv c \<Longrightarrow> ack_inv (connectSocketIO d c)"
  "ack_inv c \<Longrightarrow> ack_inv (c\<lparr>c_ctxErr := e\<rparr>)"
  by (erule ack_inv_view [rotated], simp add: client_OnAny_def ns_OnAny_def SetHandshakeData_def)+

lemma sio_step_inv: "sio_step d unm c c' \<Longrightarrow> ack_inv c \<Longrightarrow> ack_inv c'"
proof (induction rule: sio_step.induct)
  case (s_emit c n ns pick event args c' st)
  then show ?case by (blast intro: ns_Emit_inv)
next
  case (s_on event cb c c')
  then show ?case using client_On_view ack_inv_view by metis
next
  case (s_connect ctx fs c c' e)
  then show ?case using sio_Connect_view ack_inv_view by metis
qed (auto intro: onMessage_inv run_task_inv waiter_timer_inv waiter_expire_inv waiter_done_inv
      registration_inv)

lemma sio_init_inv: "sio_init c \<Longrightarrow> ack_inv c"
  by (simp add: sio_init_def ack_inv_def id_ok_def id_fresh_def ack_defs ack_tasks_def)

interpretation sio_acks: invariant_system sio_init "sio_step d unm" ack_inv
  by unfold_locales (auto intro: sio_init_inv sio_step_inv)

subsection \<open>Executions\<close>

text \<open>A schedule names the next action; running one is executable and takes steps of the relation.\<close>

datatype action =
    Receive bytes
  | EmitOn string emit_event "emit_arg list"
  | RunTask nat
  | Timer int
  | Expire int
  | Done int

fun exec :: "sio_Deps \<Rightarrow> (gotype \<Rightarrow> bytes \<Rightarrow> goval option) \<Rightarrow> action \<Rightarrow> sio_Client \<Rightarrow> sio_Client option" where
  "exec d unm (Receive data) c = (case onMessage d data c of Ret c' \<Rightarrow> Some c' | Panic _ \<Rightarrow> None)"
| "exec d unm (EmitOn n event args) c =
     (case c_namespaces c n of
        None \<Rightarrow> None
      | Some ns \<Rightarrow>
          if sint (c_ackCounter c) < 2 ^ 63 - 1
          then (case ns_Emit d False ns event args c of Ret (c', st) \<Rightarrow> Some c' | Panic _ \<Rightarrow> None)
          else None)"
| "exec d unm (RunTask i) c =
     (if i < length (c_tasks c)
      then run_task unm (c_tasks c ! i) (c\<lparr>c_tasks := take i (c_tasks c) @ drop (Suc i) (c_tasks c)\<rparr>)
      else None)"
| "exec d unm (Timer k) c =
     (case c_waiters c k of
        Some w \<Rightarrow> if w_state w = Waiting then Some (waiter_timer k w c) else None
      | None \<Rightarrow> None)"
| "exec d unm (Expire k) c =
     (case c_waiters c k of
        Some w \<Rightarrow> if w_state w = TimerFired then Some (waiter_expire k w c) else None
      | None \<Rightarrow> None)"
| "exec d unm (Done k) c =
     (case c_waiters c k of
        Some w \<Rightarrow> (case w_done w of
                     param # _ \<Rightarrow> if w_state w = Waiting then Some (waiter_done unm k w param c) else None
                   | [] \<Rightarrow> None)
      | None \<Rightarrow> None)"

fun exec_all :: "sio_Deps \<Rightarrow> (gotype \<Rightarrow> bytes \<Rightarrow> goval option) \<Rightarrow> action list \<Rightarrow> sio_Client \<Rightarrow> sio_Client option" where
  "exec_all d unm [] c = Some c"
| "exec_all d unm (a # as) c = (case exec d unm a c of None \<Rightarrow> None | Some c' \<Rightarrow> exec_all d unm as c')"

lemma exec_step: "exec d unm a c = Some c' \<Longrightarrow> sio_step d unm c c'"
proof (cases a)
  case (RunTask i)
  assume "exec d unm a c = Some c'"
  with RunTask show ?thesis
    by (auto split: if_splits intro!: s_task [where xs = "take i (c_tasks c)" and t = "c_tasks c ! i"
          and ys = "drop (Suc i) (c_tasks c)"] simp: id_take_nth_drop)
qed (auto split: go.splits option.splits if_splits prod.splits list.splits intro: sio_step.intros)

lemma exec_all_steps: "exec_all d unm as c = Some c' \<Longrightarrow> (sio_step d unm)\<^sup>*\<^sup>* c c'"
  by (induction as arbitrary: c)
    (auto split: option.splits dest: exec_step intro: converse_rtranclp_into_rtranclp)

lemma exec_all_reachable: "sio_init c \<Longrightarrow> exec_all d unm as c = Some c' \<Longrightarrow> reachable sio_init (sio_step d unm) c'"
  using sio_acks.reachable_steps [OF reachable_init] exec_all_steps by blast

definition demo_deps :: sio_Deps where
  "demo_deps = \<lparr>d_parser = default_parser_iface default_parser, d_Send = (\<lambda>_ _. None), d_Connect = None, d_Close = None\<rparr>"

definition demo_client :: sio_Client where
  "demo_client =
     \<lparr>c_ctxErr = None, c_handshakeData = [], c_namespaces = [''/'' \<mapsto> new_namespace ''/''], c_defaultNs = ''/'',
      c_ackCallbacks = Map.empty, c_ackCounter = 0, c_redactPayload = False, c_waiters = Map.empty,
      c_tasks = [], c_sent = [], c_log = [], c_calls = [], c_acks = []\<rparr>"

definition demo_unm :: "gotype \<Rightarrow> bytes \<Rightarrow> goval option" where
  "demo_unm t b = Some (GRaw b)"

text \<open>An emit whose timeout expires, and its acknowledgement \<^verbatim>\<open>31["k"]\<close> arriving late.\<close>

definition demo_timeout :: "action list" where
  "demo_timeout =
     [Receive [0x30], EmitOn ''/'' (EvName ''e'') [ArgOpt (WithAck (CbFunc 5 [''string''])), ArgOpt (WithTimeout 1 (Some 9))],
      Timer 1, Expire 1]"

definition demo_reply :: "action list" where
  "demo_reply = [Receive [0x33, 0x31, 0x5B, 0x22, 0x6B, 0x22, 0x5D]]"

definition demo_state :: "action list \<Rightarrow> sio_Client" where
  "demo_state as = (case exec_all demo_deps demo_unm as demo_client of Some c \<Rightarrow> c | None \<Rightarrow> demo_client)"

lemma demo_client_init: "sio_init demo_client"
  by (simp add: sio_init_def demo_client_def)

lemma demo_reachable: "reachable sio_init (sio_step demo_deps demo_unm) (demo_state as)"
  using exec_all_reachable [OF demo_client_init, of demo_deps demo_unm as] reachable_init [of sio_init, OF demo_client_init]
  by (simp add: demo_state_def split: option.splits)

subsection \<open>Acknowledgements end once\<close>

text \<open>
  C1: In every state the client can reach, whatever the server sends and however its goroutines
  interleave, an acknowledgement id has at most one outcome: its callback ran once, or its timeout
  callback ran once, never both and never twice; and an id that was never handed out has none.
\<close>

theorem ack_at_most_one_outcome:
  assumes "reachable sio_init (sio_step d unm) c"
  shows "length (outcomes c ackId) \<le> 1 \<and>
    (ackId < 1 \<or> sint (c_ackCounter c) < ackId \<longrightarrow> outcomes c ackId = [] \<and> c_ackCallbacks c ackId = None)"
proof (rule sio_acks.reachable_imp [OF assms])
  assume inv: "ack_inv c"
  have "length (outcomes c ackId) \<le> 1"
    using id_ok_of [OF inv, of ackId] by (auto simp: id_ok_def split: option.splits if_splits)
  moreover have "ackId < 1 \<or> sint (c_ackCounter c) < ackId \<longrightarrow> id_fresh c ackId"
    using inv by (auto simp: ack_inv_def)
  ultimately show "length (outcomes c ackId) \<le> 1 \<and>
    (ackId < 1 \<or> sint (c_ackCounter c) < ackId \<longrightarrow> outcomes c ackId = [] \<and> c_ackCallbacks c ackId = None)"
    by (auto simp: id_fresh_def pending_def split: if_splits)
qed

theorem ack_at_most_one_outcome_witness:
  "outcomes (demo_state (demo_timeout @ demo_reply)) 1 = [(1, TimeoutInvoked 9)] \<and>
   length (outcomes (demo_state (demo_timeout @ demo_reply)) 1) \<le> 1"
proof
  show "outcomes (demo_state (demo_timeout @ demo_reply)) 1 = [(1, TimeoutInvoked 9)]" by code_simp
  show "length (outcomes (demo_state (demo_timeout @ demo_reply)) 1) \<le> 1"
    using ack_at_most_one_outcome [OF demo_reachable] by blast
qed

text \<open>
  C2: No goroutine of the client blocks on a \<^verbatim>\<open>done\<close> channel: in every reachable state each
  goroutine started by \<^verbatim>\<open>safeGo\<close> can run to its end, also when the waiter has already left by its
  timeout or by the context.
\<close>

theorem ack_goroutines_never_block:
  assumes "reachable sio_init (sio_step d unm) c" and "c_tasks c = xs @ t # ys"
  shows "\<exists>c'. run_task unm t (c\<lparr>c_tasks := xs @ ys\<rparr>) = Some c' \<and> c_tasks c' = xs @ ys"
proof (rule sio_acks.reachable_imp [OF assms(1)])
  assume inv: "ack_inv c"
  show "\<exists>c'. run_task unm t (c\<lparr>c_tasks := xs @ ys\<rparr>) = Some c' \<and> c_tasks c' = xs @ ys"
  proof (cases "\<exists>k vs. t = TAck k AckDone vs")
    case False
    then show ?thesis
      by (cases "(unm, t, c\<lparr>c_tasks := xs @ ys\<rparr>)" rule: run_task.cases)
        (auto simp: record_call_def Let_def sio_log_def split: invocation.splits)
  next
    case True
    then obtain k vs where t: "t = TAck k AckDone vs" by auto
    then have u: "uses_done c k" and p: "pending c k \<noteq> 0"
      using assms(2) by (auto simp: uses_done_def pending_def ack_tasks_def id_tasks_def)
    have ok: "id_ok c k" using inv by (rule id_ok_of)
    with u obtain w where w: "c_waiters c k = Some w" by (auto simp: id_ok_def split: option.splits)
    with ok p have "w_done w = []" by (cases "w_done w") (auto simp: id_ok_def)
    with t w show ?thesis by simp
  qed
qed

theorem ack_goroutines_never_block_witness:
  "\<exists>c'. run_task demo_unm (TAck 1 AckDone [GRaw [0x22, 0x6B, 0x22]])
      ((demo_state (take 2 demo_timeout @ demo_reply))\<lparr>c_tasks := [] @ []\<rparr>) = Some c' \<and> c_tasks c' = [] @ []"
  by (rule ack_goroutines_never_block [OF demo_reachable]) code_simp

text \<open>A waiter that has left its \<^verbatim>\<open>select\<close> for good.\<close>

definition settled :: "sio_Client \<Rightarrow> int \<Rightarrow> bool" where
  "settled c k \<longleftrightarrow> (\<exists>w. c_waiters c k = Some w \<and> w_state w \<in> {TimedOut, Acked, CtxDone})"

definition settled_same :: "sio_Client \<Rightarrow> sio_Client \<Rightarrow> int \<Rightarrow> bool" where
  "settled_same c c' k \<longleftrightarrow> settled c' k \<and> outcomes c' k = outcomes c k"

lemma settled_same_view:
  "settled c k \<Longrightarrow> c_waiters c' k = c_waiters c k \<Longrightarrow> c_acks c' = c_acks c \<Longrightarrow> settled_same c c' k"
  by (simp add: settled_same_def settled_def outcomes_def)

lemma ack_view_settled: "settled c k \<Longrightarrow> ack_view c' = ack_view c \<Longrightarrow> settled_same c c' k"
  by (auto intro: settled_same_view simp: ack_view_def)

lemma onMessage_settled: "settled c k \<Longrightarrow> onMessage d data c = Ret c' \<Longrightarrow> settled_same c c' k"
  by (drule onMessage_view) (auto intro!: settled_same_view simp: ack_view_def ack_deleted_def)

lemma sio_sendPacket_frame:
  "c_acks (fst (sio_sendPacket d m c)) = c_acks c" "c_waiters (fst (sio_sendPacket d m c)) = c_waiters c"
  using sio_sendPacket_view [of d m c] by (simp_all add: ack_view_def)

lemma emit_send_frame:
  assumes "emit_send d ns ev opts c = Ret (c', st)" and "k \<noteq> sint (c_ackCounter c + 1)"
  shows "c_acks c' = c_acks c \<and> c_waiters c' k = c_waiters c k"
proof -
  have "c_acks (register_ack wc t tcb c) = c_acks c \<and> c_waiters (register_ack wc t tcb c) k = c_waiters c k"
    for wc t tcb
    using assms(2) by (simp add: register_ack_def Let_def split: option.splits)
  with assms(1) show ?thesis
    by (auto simp: emit_send_def sendPacketWithAckTimeout_def Let_def
        split: if_splits go.splits prod.splits) (metis fst_conv sio_sendPacket_frame)+
qed

lemma ns_Emit_settled:
  assumes "ack_inv c" and "sint (c_ackCounter c) < 2 ^ 63 - 1" and "settled c k"
    and "ns_Emit d pick ns event args c = Ret (c', st)"
  shows "settled_same c c' k"
proof -
  have "k \<le> sint (c_ackCounter c)"
    using ack_inv_range [OF assms(1), of k] assms(3) by (auto simp: settled_def)
  then have "k \<noteq> sint (c_ackCounter c + 1)" using sint_succ [OF assms(2)] by simp
  then have "c_acks c' = c_acks c \<and> c_waiters c' k = c_waiters c k"
    using assms(4) emit_send_frame [of d ns _ _ c c' st k]
    by (auto simp: ns_Emit_def split: option.splits if_splits sum.splits prod.splits)
  with assms(3) show ?thesis by (auto intro: settled_same_view)
qed

lemma run_task_settled:
  assumes inv: "ack_inv c" and ts: "c_tasks c = xs @ t # ys" and "settled c k"
    and r: "run_task unm t (c\<lparr>c_tasks := xs @ ys\<rparr>) = Some c'"
  shows "settled_same c c' k"
proof (cases "\<exists>w vs. t = TAck k (AckWrapped w) vs")
  case True
  then have "uses_callback c k" using ts by (auto simp: uses_callback_def ack_tasks_def)
  with id_ok_of [OF inv, of k] assms(3) show ?thesis
    by (auto simp: id_ok_def settled_def split: option.splits)
next
  case False
  have rc: "c_acks (record_call iv x) = c_acks x" "c_waiters (record_call iv x) = c_waiters x" for iv x
    by (simp_all add: record_call_def sio_log_def split: invocation.splits)
  show ?thesis
    using False assms(3) r
    by (cases "(unm, t, c\<lparr>c_tasks := xs @ ys\<rparr>)" rule: run_task.cases)
      (auto simp: settled_same_def settled_def outcomes_def Let_def rc split: option.splits if_splits)
qed

lemma waiter_settled:
  assumes "settled c k" and "c_waiters c i = Some w" and "w_state w = Waiting \<or> w_state w = TimerFired"
  shows "settled_same c (waiter_timer i w c) k" "settled_same c (waiter_expire i w c) k"
    "settled_same c (waiter_ctx i w c) k" "settled_same c (waiter_done unm i w p c) k"
proof -
  have "i \<noteq> k" using assms by (auto simp: settled_def)
  with assms(1) show "settled_same c (waiter_timer i w c) k" "settled_same c (waiter_expire i w c) k"
    "settled_same c (waiter_ctx i w c) k" "settled_same c (waiter_done unm i w p c) k"
    by (auto simp: settled_same_def settled_def outcomes_def waiter_timer_def waiter_expire_def
        waiter_ctx_def waiter_done_def sio_log_def split: option.splits)
qed

lemma registration_settled:
  "settled c k \<Longrightarrow> settled_same c (client_OnAny f c) k"
  "settled c k \<Longrightarrow> settled_same c (SetHandshakeData hsd c) k"
  "settled c k \<Longrightarrow> settled_same c (connectSocketIO d c) k"
  "settled c k \<Longrightarrow> settled_same c (c\<lparr>c_ctxErr := e\<rparr>) k"
  by (erule ack_view_settled, simp add: client_OnAny_def ns_OnAny_def SetHandshakeData_def)+

lemma sio_step_settled: "sio_step d unm c c' \<Longrightarrow> ack_inv c \<Longrightarrow> settled c k \<Longrightarrow> settled_same c c' k"
proof (induction rule: sio_step.induct)
  case (s_emit c n ns pick event args c' st)
  then show ?case by (blast intro: ns_Emit_settled)
next
  case (s_on event cb c c')
  then show ?case by (blast intro: ack_view_settled client_On_view)
next
  case (s_connect ctx fs c c' e)
  then show ?case by (blast intro: ack_view_settled sio_Connect_view)
qed (auto intro: onMessage_settled run_task_settled waiter_settled registration_settled)

text \<open>
  C3: Once the waiter of an emit has left (its timeout expired, its context ended, or the
  acknowledgement was taken), the outcome of that emit is final: whatever the client and the server
  do afterwards, a late or repeated acknowledgement never calls a callback for that id again.
\<close>

theorem ack_late_reply_ignored:
  assumes "reachable sio_init (sio_step d unm) c" and "settled c ackId" and "(sio_step d unm)\<^sup>*\<^sup>* c c'"
  shows "outcomes c' ackId = outcomes c ackId \<and> settled c' ackId"
proof -
  have "ack_inv c" by (rule sio_acks.reachable_inv [OF assms(1)])
  with assms(3,2) have "ack_inv c' \<and> settled_same c c' ackId"
  proof (induction rule: rtranclp_induct)
    case base
    then show ?case by (simp add: settled_same_def)
  next
    case (step y z)
    with sio_step_settled [OF step.hyps(2), of ackId] sio_step_inv [OF step.hyps(2)] show ?case
      by (simp add: settled_same_def)
  qed
  then show ?thesis by (simp add: settled_same_def)
qed

lemma demo_timeout_settled: "settled (demo_state demo_timeout) 1"
proof -
  have "map_option w_state (c_waiters (demo_state demo_timeout) 1) = Some TimedOut" by code_simp
  then show ?thesis by (auto simp: settled_def)
qed

lemma demo_reply_steps:
  "(sio_step demo_deps demo_unm)\<^sup>*\<^sup>* (demo_state demo_timeout) (demo_state (demo_timeout @ demo_reply))"
proof (rule exec_all_steps [where as = demo_reply])
  have app: "exec_all d unm (as @ bs) c = Option.bind (exec_all d unm as c) (exec_all d unm bs)" for d unm as bs c
    by (induction as arbitrary: c) (auto split: option.splits)
  have "exec_all demo_deps demo_unm demo_timeout demo_client \<noteq> None"
    "exec_all demo_deps demo_unm (demo_timeout @ demo_reply) demo_client \<noteq> None" by code_simp+
  then show "exec_all demo_deps demo_unm demo_reply (demo_state demo_timeout) =
      Some (demo_state (demo_timeout @ demo_reply))"
    by (auto simp: demo_state_def app)
qed

theorem ack_late_reply_ignored_witness:
  "outcomes (demo_state (demo_timeout @ demo_reply)) 1 = outcomes (demo_state demo_timeout) 1"
  using ack_late_reply_ignored [OF demo_reachable demo_timeout_settled demo_reply_steps] by blast

end
