(* ===== verification/SocketIO_Delivery.thy ===== *)
theory SocketIO_Delivery
  imports SocketIO_Acks
begin

text \<open>
  What the Socket.IO client does with the packets it receives and sends, with the default parser
  in place of the parser interface: events reach their handlers, acknowledgements reach the
  callback of their emit, and nothing is sent on a namespace before it is connected.
\<close>

definition uses_default :: "sio_Deps \<Rightarrow> bool" where
  "uses_default d \<longleftrightarrow> d_parser d = default_parser_iface default_parser"

definition wire_payloads :: "Event \<Rightarrow> goval list" where
  "wire_payloads ev = (case event_texts ev of None \<Rightarrow> [] | Some ts \<Rightarrow> map GRaw ts)"

lemma default_parser_noPayload [simp]: "payloadParser default_parser = None"
  by (simp add: default_parser_def)

lemma sio_log_sel [simp]:
  "c_namespaces (sio_log lv fmt as c) = c_namespaces c" "c_tasks (sio_log lv fmt as c) = c_tasks c"
  "c_ackCallbacks (sio_log lv fmt as c) = c_ackCallbacks c" "c_sent (sio_log lv fmt as c) = c_sent c"
  "c_acks (sio_log lv fmt as c) = c_acks c" "c_waiters (sio_log lv fmt as c) = c_waiters c"
  "c_ackCounter (sio_log lv fmt as c) = c_ackCounter c" "c_ctxErr (sio_log lv fmt as c) = c_ctxErr c"
  "c_calls (sio_log lv fmt as c) = c_calls c" "c_defaultNs (sio_log lv fmt as c) = c_defaultNs c"
  by (simp_all add: sio_log_def)

lemma default_Parse:
  assumes "uses_default d" and "wf_event_message m" and "sio_Serialize (Some m) = Inr bs"
  shows "p_Parse (d_parser d) bs = Ret (Some (wire_message m), None)"
  using sio_roundtrip [OF assms(2,3)] assms(1) by (simp add: uses_default_def default_parser_iface_def)

lemma wire_message_sel:
  "msg_Type (wire_message m) = msg_Type m" "msg_NS (wire_message m) = msg_NS m" "msg_AckId (wire_message m) = msg_AckId m"
  "msg_Event m = Some ev \<Longrightarrow> msg_Event (wire_message m) = Some (ev\<lparr>ev_Payloads := wire_payloads ev\<rparr>)"
  by (simp_all add: wire_message_def wire_payloads_def)

section \<open>Events\<close>

lemma onMessage_event:
  assumes "uses_default d" and "wf_event_message m" and "msg_Type m = PacketEvent" and "msg_Event m = Some ev"
    and "sio_Serialize (Some m) = Inr bs" and "c_namespaces c (msg_NS m) = Some ns"
  shows "\<exists>c'. onMessage d bs c = Ret c' \<and>
    c_tasks c' = c_tasks c @ map (\<lambda>h. TAny h (ev_Name ev) (wire_payloads ev)) (ns_anyHandlers ns) @
      map (\<lambda>h. THandler h (wire_payloads ev)) (handlers_of ns (ev_Name ev)) \<and>
    c_sent c' = c_sent c \<and> c_namespaces c' = c_namespaces c \<and> ack_view c' = ack_view c"
proof -
  note sel = wire_message_sel [of m] wire_message_sel(4) [OF assms(4)]
  have "onMessage d bs c = handleEvent ns (Some (ev\<lparr>ev_Payloads := wire_payloads ev\<rparr>))
      (sio_log LDebug ''socketio receive %s'' [sio_payload c bs] c)"
    using default_Parse [OF assms(1,2,5)] assms(3,6) sel
    by (simp add: onMessage_def Let_def dispatch_def)
  then show ?thesis
    by (auto simp: handleEvent_def handlers_of_def safeGo_def ack_view_def ack_tasks_def filter_empty_conv
        sio_log_def split: option.splits)
qed

text \<open>
  C4: An EVENT packet written by a peer for a namespace the client knows starts one goroutine per
  handler, first the \<^verbatim>\<open>OnAny\<close> handlers and then the handlers of that event name, each in the order
  of registration and each with the payloads as the JSON texts the peer wrote; nothing is sent and
  no acknowledgement or namespace changes.
\<close>

theorem event_delivery:
  assumes "uses_default d" and "wf_event_message m" and "msg_Type m = PacketEvent" and "msg_Event m = Some ev"
    and "sio_Serialize (Some m) = Inr bs" and "c_namespaces c (msg_NS m) = Some ns"
  shows "\<exists>c'. onMessage d bs c = Ret c' \<and>
    c_tasks c' = c_tasks c @ map (\<lambda>h. TAny h (ev_Name ev) (wire_payloads ev)) (ns_anyHandlers ns) @
      map (\<lambda>h. THandler h (wire_payloads ev)) (handlers_of ns (ev_Name ev)) \<and>
    c_sent c' = c_sent c \<and> c_namespaces c' = c_namespaces c \<and> ack_view c' = ack_view c"
  by (rule onMessage_event [OF assms])

definition demo_listener :: sio_Client where
  "demo_listener = demo_client\<lparr>c_namespaces := [''/chat'' \<mapsto> (new_namespace ''/chat'')
     \<lparr>ns_handlers := [''msg'' \<mapsto> [WReflect 1 [''int''], WReflect 2 []]], ns_anyHandlers := [3]\<rparr>]\<rparr>"

theorem event_delivery_witness:
  "\<exists>c'. onMessage demo_deps (bytes_of_string ''2/chat,12['' @ quote (bytes_of_string ''msg'') @
      bytes_of_string '',7,['' @ quote (bytes_of_string ''a'') @ bytes_of_string '',true]]'') demo_listener = Ret c' \<and>
    length (c_tasks c') = 3"
proof -
  let ?ev = "\<lparr>ev_Name = ''msg'', ev_Payloads = [GInt 7, GSlice [GString ''a'', GBool True]]\<rparr>"
  let ?ns = "(new_namespace ''/chat'')\<lparr>ns_handlers := [''msg'' \<mapsto> [WReflect 1 [''int''], WReflect 2 []]], ns_anyHandlers := [3]\<rparr>"
  have "uses_default demo_deps" by (simp add: uses_default_def demo_deps_def)
  moreover have "c_namespaces demo_listener (msg_NS demo_message) = Some ?ns"
    by (simp add: demo_listener_def demo_message_def new_message_def)
  moreover have "wf_event_message demo_message" "msg_Type demo_message = PacketEvent" "msg_Event demo_message = Some ?ev"
    "sio_Serialize (Some demo_message) = Inr (bytes_of_string ''2/chat,12['' @ quote (bytes_of_string ''msg'') @
      bytes_of_string '',7,['' @ quote (bytes_of_string ''a'') @ bytes_of_string '',true]]'')" by code_simp+
  ultimately show ?thesis
    using event_delivery [of demo_deps demo_message ?ev _ demo_listener ?ns]
    by (force simp: handlers_of_def demo_listener_def demo_client_def)
qed

section \<open>Acknowledgements\<close>

lemma onMessage_ack:
  assumes "uses_default d" and "wf_event_message m" and "msg_Type m = PacketAck" and "msg_Event m = Some ev"
    and "msg_AckId m = Some k" and "sio_Serialize (Some m) = Inr bs"
  shows "onMessage d bs c = Ret (handleAck (ev\<lparr>ev_Payloads := wire_payloads ev\<rparr>) k
      (sio_log LDebug ''socketio receive %s'' [sio_payload c bs] c))"
  using default_Parse [OF assms(1,2,6)] assms(3-5) wire_message_sel(4) [OF assms(4)]
  by (simp add: onMessage_def Let_def wire_message_sel)

text \<open>What an emit with a callback and no timeout leaves behind.\<close>

lemma emit_with_callback:
  assumes "sendPacketWithAckTimeout d packet cb None tcb c = Ret (c', None)" and "cb \<noteq> CbNil"
    and "p_WrapCallback (d_parser d) cb = Ret w"
  shows "c_ackCounter c' = c_ackCounter c + 1" "c_ackCallbacks c' (sint (c_ackCounter c + 1)) = Some (AckWrapped w)"
    "c_acks c' = c_acks c" "c_tasks c' = c_tasks c"
    "\<exists>bs. p_Serialize (d_parser d) (Some (packet\<lparr>msg_AckId := Some (sint (c_ackCounter c + 1))\<rparr>)) = Inr bs \<and>
      c_sent c' = c_sent c @ [bs]"
  using assms
  by (auto simp: sendPacketWithAckTimeout_def wrap_ack_def register_ack_def sio_sendPacket_def Let_def
      split: if_splits sum.splits)

text \<open>
  C5: The full cycle of an emit with an acknowledgement: after \<^verbatim>\<open>Emit\<close> with a callback has returned
  without error, its packet has been handed to the Engine.IO client, and the ACK packet the peer
  writes for that id starts one goroutine that calls the callback with the peer's payloads; the id
  is gone from the map afterwards, and its outcomes grow by exactly that call.
\<close>

theorem emit_ack_cycle:
  assumes "uses_default d"
    and "emit_send d ns (Some ev) \<lparr>eo_timeout = None, eo_timeoutCallback = None, eo_ackCallback = CbFunc f ts\<rparr> c =
           Ret (c1, EmitReturned None)"
    and "reply = (new_message PacketAck n)\<lparr>msg_AckId := Some (sint (c_ackCounter c1)), msg_Event := Some answer\<rparr>"
    and "wf_event_message reply" and "sio_Serialize (Some reply) = Inr bs"
  shows "(\<exists>out. sio_Serialize (Some ((new_message PacketEvent (ns_name ns))
             \<lparr>msg_AckId := Some (sint (c_ackCounter c1)), msg_Event := Some ev\<rparr>)) = Inr out \<and> c_sent c1 = c_sent c @ [out]) \<and>
    (\<exists>c2 c3. onMessage d bs c1 = Ret c2 \<and> c_ackCallbacks c2 (sint (c_ackCounter c1)) = None \<and>
       c_tasks c2 = c_tasks c1 @ [TAck (sint (c_ackCounter c1)) (AckWrapped (WReflect f ts)) (wire_payloads answer)] \<and>
       run_task unm (last (c_tasks c2)) (c2\<lparr>c_tasks := c_tasks c1\<rparr>) = Some c3 \<and>
       c_acks c3 = c_acks c @ [(sint (c_ackCounter c1), AckInvoked (run_wrapped unm (WReflect f ts) (wire_payloads answer)))])"
proof -
  let ?p = "(new_message PacketEvent (ns_name ns))\<lparr>msg_Event := Some ev\<rparr>"
  let ?k = "sint (c_ackCounter c1)"
  have w: "p_WrapCallback (d_parser d) (CbFunc f ts) = Ret (WReflect f ts)"
    and ser: "p_Serialize (d_parser d) = sio_Serialize"
    using assms(1) by (simp_all add: uses_default_def default_parser_iface_def WrapCallback_def)
  have "sendPacketWithAckTimeout d ?p (CbFunc f ts) None None c = Ret (c1, None)"
    using assms(2) by (auto simp: emit_send_def Let_def split: go.splits)
  note e = emit_with_callback [OF this _ w, simplified]
  have r: "msg_Type reply = PacketAck" "msg_Event reply = Some answer" "msg_AckId reply = Some ?k"
    using assms(3) by (simp_all add: new_message_def)
  define c2 where "c2 = handleAck (answer\<lparr>ev_Payloads := wire_payloads answer\<rparr>) ?k
      (sio_log LDebug ''socketio receive %s'' [sio_payload c1 bs] c1)"
  have m: "onMessage d bs c1 = Ret c2" unfolding c2_def by (rule onMessage_ack [OF assms(1,4) r assms(5)])
  have c2: "c_ackCallbacks c2 ?k = None" "c_acks c2 = c_acks c"
    "c_tasks c2 = c_tasks c1 @ [TAck ?k (AckWrapped (WReflect f ts)) (wire_payloads answer)]"
    using e by (simp_all add: c2_def handleAck_def Let_def safeGo_def)
  have out: "\<exists>out. sio_Serialize (Some ((new_message PacketEvent (ns_name ns))
      \<lparr>msg_AckId := Some ?k, msg_Event := Some ev\<rparr>)) = Inr out \<and> c_sent c1 = c_sent c @ [out]"
    using e(1,5) ser by (simp add: new_message_def)
  have rc: "c_acks (record_call iv x) = c_acks x" for iv x
    by (simp add: record_call_def split: invocation.splits)
  have "\<exists>c3. run_task unm (last (c_tasks c2)) (c2\<lparr>c_tasks := c_tasks c1\<rparr>) = Some c3 \<and>
      c_acks c3 = c_acks c @ [(?k, AckInvoked (run_wrapped unm (WReflect f ts) (wire_payloads answer)))]"
    using c2 by (simp add: Let_def rc del: run_wrapped.simps)
  with out m c2 show ?thesis by blast
qed

definition demo_options :: EmitOptions where
  "demo_options = \<lparr>eo_timeout = None, eo_timeoutCallback = None, eo_ackCallback = CbFunc 5 [''int'']\<rparr>"

definition demo_event :: Event where
  "demo_event = \<lparr>ev_Name = ''ask'', ev_Payloads = []\<rparr>"

definition demo_emitted :: sio_Client where
  "demo_emitted = (case emit_send demo_deps (new_namespace ''/'') (Some demo_event) demo_options demo_client of
     Ret (c, _) \<Rightarrow> c | Panic _ \<Rightarrow> demo_client)"

lemma demo_emitted_result: "emit_send demo_deps (new_namespace ''/'') (Some demo_event) demo_options demo_client =
    Ret (demo_emitted, EmitReturned None)"
proof -
  have "(case emit_send demo_deps (new_namespace ''/'') (Some demo_event) demo_options demo_client of
     Ret (_, st) \<Rightarrow> st = EmitReturned None | Panic _ \<Rightarrow> False)" by code_simp
  then show ?thesis by (auto simp: demo_emitted_def split: go.splits)
qed

theorem emit_ack_cycle_witness:
  "\<exists>c2 c3. onMessage demo_deps (bytes_of_string ''31[3]'') demo_emitted = Ret c2 \<and>
     run_task demo_unm (last (c_tasks c2)) (c2\<lparr>c_tasks := c_tasks demo_emitted\<rparr>) = Some c3 \<and>
     c_acks c3 = [(1, AckInvoked (Called 5 [GRaw (bytes_of_string ''3'')]))]"
proof -
  let ?answer = "\<lparr>ev_Name = [], ev_Payloads = [GInt 3]\<rparr>"
  let ?reply = "(new_message PacketAck ''/'')\<lparr>msg_AckId := Some 1, msg_Event := Some ?answer\<rparr>"
  have k: "sint (c_ackCounter demo_emitted) = 1" by code_simp
  have r: "wf_event_message ?reply" "sio_Serialize (Some ?reply) = Inr (bytes_of_string ''31[3]'')" by code_simp+
  have i: "run_wrapped demo_unm (WReflect 5 [''int'']) (wire_payloads ?answer) = Called 5 [GRaw (bytes_of_string ''3'')]"
    by code_simp
  have a: "c_acks demo_client = []" and d: "uses_default demo_deps"
    by (simp_all add: demo_client_def uses_default_def demo_deps_def)
  show ?thesis
    using emit_ack_cycle [OF d demo_emitted_result [unfolded demo_options_def], where reply = ?reply and n = "''/''"
        and answer = ?answer and bs = "bytes_of_string ''31[3]''" and unm = demo_unm] r
    unfolding k i a by auto
qed

section \<open>Emitting\<close>

text \<open>
  C21: On a connected namespace \<^verbatim>\<open>Emit\<close> with an event name sends exactly the arguments that are not
  options, in their order, with the options applied in theirs; with an event value it sends that
  event, and refuses any further plain argument. So the in-place compaction of the argument slice
  loses and reorders nothing.
\<close>

theorem emit_arguments:
  assumes "ns_waitConnected ns = Some True" and "c_ctxErr c = None"
  shows "ns_Emit d pick ns (EvName name) args c =
      emit_send d ns (Some \<lparr>ev_Name = name, ev_Payloads = plain_values args\<rparr>)
        (fold apply_EmitOption (plain_options args) no_EmitOptions) c \<and>
    ns_Emit d pick ns (EvPtr ev) args c =
      (if plain_values args = []
       then emit_send d ns ev (fold apply_EmitOption (plain_options args) no_EmitOptions) c
       else Ret (c, EmitReturned (Some (ErrorNew ''you can pass ether Event() ether eventName and params, not both''))))"
proof
  have gate: "emit_gate pick ns c = None" using assms by (simp add: emit_gate_def)
  from emit_loop_by_name [of 0 0 args no_EmitOptions]
  obtain k as where "emit_loop False 0 0 args no_EmitOptions =
      Inr (k, as, fold apply_EmitOption (plain_options args) no_EmitOptions)"
    "map arg_value (take k as) = plain_values args" by auto
  with gate show "ns_Emit d pick ns (EvName name) args c =
      emit_send d ns (Some \<lparr>ev_Name = name, ev_Payloads = plain_values args\<rparr>)
        (fold apply_EmitOption (plain_options args) no_EmitOptions) c"
    by (simp add: ns_Emit_def)
  from gate show "ns_Emit d pick ns (EvPtr ev) args c =
      (if plain_values args = []
       then emit_send d ns ev (fold apply_EmitOption (plain_options args) no_EmitOptions) c
       else Ret (c, EmitReturned (Some (ErrorNew ''you can pass ether Event() ether eventName and params, not both''))))"
    using emit_loop_event [of 0 args 0 no_EmitOptions] by (simp add: ns_Emit_def)
qed

theorem emit_arguments_witness:
  "ns_Emit demo_deps False ((new_namespace ''/'')\<lparr>ns_waitConnected := Some True\<rparr>) (EvName ''e'')
     [ArgVal (GInt 1), ArgOpt (WithAck (CbFunc 5 [])), ArgVal (GInt 2)] demo_client =
   emit_send demo_deps ((new_namespace ''/'')\<lparr>ns_waitConnected := Some True\<rparr>)
     (Some \<lparr>ev_Name = ''e'', ev_Payloads = [GInt 1, GInt 2]\<rparr>)
     \<lparr>eo_timeout = None, eo_timeoutCallback = None, eo_ackCallback = CbFunc 5 []\<rparr> demo_client"
  using emit_arguments [of "(new_namespace ''/'')\<lparr>ns_waitConnected := Some True\<rparr>" demo_client demo_deps False "''e''"
      "[ArgVal (GInt 1), ArgOpt (WithAck (CbFunc 5 [])), ArgVal (GInt 2)]"]
  by (simp add: demo_client_def plain_values_def plain_options_def no_EmitOptions_def)

section \<open>Bad packets\<close>

definition lacks_content :: "sio_Message \<Rightarrow> bool" where
  "lacks_content m \<longleftrightarrow>
     msg_Type m = PacketEvent \<and> msg_Event m = None \<or> msg_Type m = PacketConnectError \<and> msg_ErrorMessage m = None"

lemma onMessage_parsed_panics:
  assumes "p_Parse (d_parser d) data = Ret (Some m, None)"
  shows "(\<exists>r. onMessage d data c = Panic r) \<longleftrightarrow> lacks_content m \<and> c_namespaces c (msg_NS m) \<noteq> None"
  using assms
  by (cases "c_namespaces c (msg_NS m)")
    (auto simp: onMessage_def Let_def dispatch_def handleEvent_def lacks_content_def client_namespace_def
      split: option.splits)

lemma parsed_lacks_content:
  assumes "sio_Parse default_parser data = Ret (Some m, None)"
  shows "lacks_content m \<longleftrightarrow> data = [0x32] \<or> data = [0x34]"
proof -
  have bare: "sio_Parse default_parser [b] = Ret (Some (new_message (b - 0x30) ''/''), None)" if "b = 0x32 \<or> b = 0x34" for b
    using that by (auto simp: sio_Parse_def checkData_def Let_def)
  have ok: "parsed_ok data m" using assms by (rule sio_Parse_ok)
  show ?thesis
  proof
    assume l: "lacks_content m"
    with ok have "length data = 1" by (auto simp: parsed_ok_def lacks_content_def)
    then obtain b where b: "data = [b]" by (cases data) auto
    with l ok have "b - 0x30 = 2 \<or> b - 0x30 = 4" by (auto simp: parsed_ok_def lacks_content_def)
    then have "b = 2 + 0x30 \<or> b = 4 + 0x30" by (simp only: diff_eq_eq)
    with b show "data = [0x32] \<or> data = [0x34]" by simp
  qed (use assms bare in \<open>auto simp: lacks_content_def new_message_def\<close>)
qed

text \<open>
  C22: Receiving never panics, whatever the bytes, except for two one-byte packets: with the default
  parser \<^verbatim>\<open>onMessage\<close> panics exactly on the bare packets \<^verbatim>\<open>2\<close> and \<^verbatim>\<open>4\<close> while the client has the
  default namespace, because the parser accepts them without an event or an error text.
\<close>

theorem onMessage_panics_exactly:
  assumes "uses_default d"
  shows "(\<exists>r. onMessage d data c = Panic r) \<longleftrightarrow> (data = [0x32] \<or> data = [0x34]) \<and> c_namespaces c ''/'' \<noteq> None"
proof -
  have P: "p_Parse (d_parser d) = sio_Parse default_parser"
    using assms by (simp add: uses_default_def default_parser_iface_def)
  obtain mo eo where r: "sio_Parse default_parser data = Ret (mo, eo)" "(mo, eo) \<noteq> (None, None)"
    using sio_Parse_total [of default_parser data] by auto
  show ?thesis
  proof (cases "mo = None \<or> eo \<noteq> None")
    case True
    with r have "data \<noteq> [0x32]" "data \<noteq> [0x34]" by (auto simp: sio_Parse_def checkData_def Let_def)
    with True r P show ?thesis by (cases mo; cases eo) (auto simp: onMessage_def)
  next
    case False
    then obtain m where m: "mo = Some m" "eo = None" by auto
    with r(1) have p: "sio_Parse default_parser data = Ret (Some m, None)" by simp
    have "msg_NS m = ''/''" if "data = [0x32] \<or> data = [0x34]"
      using that p by (auto simp: sio_Parse_def checkData_def Let_def new_message_def)
    then show ?thesis
      using onMessage_parsed_panics [of d data m c] parsed_lacks_content [OF p] p P by auto
  qed
qed

theorem onMessage_panics_exactly_witness:
  "\<exists>r. onMessage demo_deps [0x32] demo_client = Panic r"
  using onMessage_panics_exactly [of demo_deps "[0x32]" demo_client]
  by (simp add: demo_deps_def uses_default_def demo_client_def)

section \<open>The connection gate\<close>

text \<open>
  The channel of a namespace is closed exactly when its \<^verbatim>\<open>sync.Once\<close> has run, and as long as no
  namespace is connected only CONNECT packets have been sent.
\<close>

definition gate_ok :: "string \<Rightarrow> namespace \<Rightarrow> bool" where
  "gate_ok n ns \<longleftrightarrow> ns_name ns = n \<and> ns_waitConnected ns = Some (ns_hadConnected ns)"

definition any_connected :: "sio_Client \<Rightarrow> bool" where
  "any_connected c \<longleftrightarrow> (\<exists>n ns. c_namespaces c n = Some ns \<and> ns_hadConnected ns)"

definition connect_packet :: "sio_Deps \<Rightarrow> bytes \<Rightarrow> bool" where
  "connect_packet d bs \<longleftrightarrow> (\<exists>m. msg_Type m = PacketConnect \<and> p_Serialize (d_parser d) (Some m) = Inr bs)"

definition gate_inv :: "sio_Deps \<Rightarrow> sio_Client \<Rightarrow> bool" where
  "gate_inv d c \<longleftrightarrow>
     (\<forall>n ns. c_namespaces c n = Some ns \<longrightarrow> gate_ok n ns) \<and>
     (any_connected c \<or> list_all (connect_packet d) (c_sent c))"

lemma gate_inv_same:
  "gate_inv d c \<Longrightarrow> c_namespaces c' = c_namespaces c \<Longrightarrow> c_sent c' = c_sent c \<Longrightarrow> gate_inv d c'"
  by (simp add: gate_inv_def any_connected_def)

lemma gate_inv_update:
  assumes "gate_inv d c" and "c_sent c' = c_sent c"
    and "c_namespaces c' = (c_namespaces c)(n := map_option f (c_namespaces c n))"
    and "\<And>ns. gate_ok n ns \<Longrightarrow> gate_ok n (f ns) \<and> (ns_hadConnected ns \<longrightarrow> ns_hadConnected (f ns))"
  shows "gate_inv d c'"
  using assms unfolding gate_inv_def any_connected_def
  by (auto split: if_splits) (metis (mono_tags, lifting) fun_upd_apply option.simps(9))+

lemma gate_ok_mark_connected: "gate_ok n ns \<Longrightarrow> gate_ok n (mark_connected ns)"
  by (simp add: gate_ok_def mark_connected_def)

lemma dispatch_namespaces:
  assumes "dispatch ns msg c = Ret c'"
  shows "c_sent c' = c_sent c \<and>
    (c_namespaces c' = c_namespaces c \<or> c_namespaces c' = c_namespaces (update_namespace (ns_name ns) mark_connected c))"
  using assms
  by (auto simp: dispatch_def handleDisconnect_def handleConnect_def handleConnectError_def handleEvent_def
      Let_def safeGo_def update_namespace_def sio_log_def split: if_splits option.splits)

lemma dispatch_gate:
  assumes "dispatch ns msg c = Ret c'" and "gate_inv d c"
  shows "gate_inv d c'"
  using dispatch_namespaces [OF assms(1)]
proof (elim conjE disjE)
  assume "c_sent c' = c_sent c" "c_namespaces c' = c_namespaces (update_namespace (ns_name ns) mark_connected c)"
  then show ?thesis
    by (intro gate_inv_update [OF assms(2), where n = "ns_name ns" and f = mark_connected])
      (auto simp: update_namespace_def gate_ok_mark_connected, simp add: mark_connected_def)
qed (use assms(2) gate_inv_same in blast)

lemma client_namespace_gate:
  assumes "gate_inv d c"
  shows "gate_inv d (fst (client_namespace n c))"
proof (cases "c_namespaces c n")
  case None
  let ?c = "c\<lparr>c_namespaces := (c_namespaces c)(n \<mapsto> new_namespace n)\<rparr>"
  have "any_connected ?c" if "any_connected c"
  proof -
    from that obtain n' ns where ns: "c_namespaces c n' = Some ns" "ns_hadConnected ns"
      by (auto simp: any_connected_def)
    with None have "n' \<noteq> n" by auto
    with ns show ?thesis unfolding any_connected_def by (intro exI [of _ n'] exI [of _ ns]) simp
  qed
  with assms None show ?thesis
    by (auto simp: client_namespace_def gate_inv_def gate_ok_def new_namespace_def)
qed (use assms in \<open>simp add: client_namespace_def\<close>)

lemma onMessage_elim:
  assumes "onMessage d data c = Ret c'"
  obtains (same) "c_namespaces c' = c_namespaces c" "c_sent c' = c_sent c"
  | (known) ns msg where "dispatch ns msg (sio_log LDebug ''socketio receive %s'' [sio_payload c data] c) = Ret c'"
  | (new) ns msg n where
      "dispatch ns msg (fst (client_namespace n (sio_log LDebug ''socketio receive %s'' [sio_payload c data] c))) = Ret c'"
proof -
  let ?c = "sio_log LDebug ''socketio receive %s'' [sio_payload c data] c"
  have ack: "c_namespaces (handleAck ev k x) = c_namespaces x" "c_sent (handleAck ev k x) = c_sent x" for ev k x
    by (simp_all add: handleAck_def Let_def safeGo_def split: option.splits)
  obtain mo eo where r: "p_Parse (d_parser d) data = Ret (mo, eo)"
    using assms by (cases "p_Parse (d_parser d) data") (auto simp: onMessage_def)
  show thesis
  proof (cases "eo = None \<and> mo \<noteq> None")
    case False
    then show thesis using assms r same by (cases eo; cases mo) (auto simp: onMessage_def)
  next
    case True
    then obtain msg where m: "p_Parse (d_parser d) data = Ret (Some msg, None)" using r by auto
    obtain c1 ns1 where cn: "client_namespace (msg_NS msg) ?c = (c1, ns1)" by fastforce
    show thesis
    proof (cases "msg_Type msg = PacketAck")
      case True
      then show thesis
        using assms m same ack by (auto simp: onMessage_def Let_def split: option.splits)
    next
      case False
      then show thesis
        using assms m cn same known [of _ msg] new [of ns1 msg "msg_NS msg"]
        by (cases "c_namespaces ?c (msg_NS msg)") (auto simp: onMessage_def Let_def split: if_splits)
    qed
  qed
qed

lemma onMessage_gate:
  assumes "onMessage d data c = Ret c'" and inv: "gate_inv d c"
  shows "gate_inv d c'"
  using assms(1)
proof (cases rule: onMessage_elim)
  case same
  with inv show ?thesis by (intro gate_inv_same [OF inv])
next
  case (known ns msg)
  then show ?thesis by (rule dispatch_gate) (rule gate_inv_same [OF inv], simp_all)
next
  case (new ns msg n)
  then show ?thesis
    by (rule dispatch_gate) (intro client_namespace_gate gate_inv_same [OF inv], simp_all)
qed

lemma emit_send_namespaces: "emit_send d ns ev opts c = Ret (c', st) \<Longrightarrow> c_namespaces c' = c_namespaces c"
  by (auto simp: emit_send_def sendPacketWithAckTimeout_def register_ack_def sio_sendPacket_def Let_def
      split: if_splits go.splits prod.splits sum.splits option.splits)

lemma ns_Emit_gate:
  assumes "ns_Emit d pick ns event args c = Ret (c', st)" and "c_namespaces c n = Some ns" and inv: "gate_inv d c"
  shows "gate_inv d c'"
proof (cases "emit_gate pick ns c")
  case None
  have "ns_waitConnected ns = Some (ns_hadConnected ns)" using assms by (simp add: gate_inv_def gate_ok_def)
  with None have conn: "any_connected c"
    using assms(2) by (auto simp: any_connected_def emit_gate_def split: option.splits if_splits)
  have "c_namespaces c' = c_namespaces c"
    using assms(1) None emit_send_namespaces
    by (auto simp: ns_Emit_def split: if_splits sum.splits prod.splits)
  with inv conn show ?thesis by (simp add: gate_inv_def any_connected_def)
qed (use assms in \<open>simp add: ns_Emit_def\<close>)

lemma connectSocketIO_gate: "gate_inv d c \<Longrightarrow> gate_inv d (connectSocketIO d c)"
  by (auto simp: connectSocketIO_def sio_sendPacket_def gate_inv_def any_connected_def connect_packet_def
      new_message_def split: sum.splits option.splits)

lemma client_On_gate:
  assumes "client_On d event cb c = Ret c'" and "gate_inv d c"
  shows "gate_inv d c'"
proof -
  obtain w where "c' = update_namespace (c_defaultNs c)
      (\<lambda>ns. ns\<lparr>ns_handlers := (ns_handlers ns)(event \<mapsto> handlers_of ns event @ [w])\<rparr>) c"
    using assms(1) by (auto simp: client_On_def ns_On_def split: go.splits)
  then show ?thesis
    by (intro gate_inv_update [OF assms(2), where n = "c_defaultNs c"
          and f = "\<lambda>ns. ns\<lparr>ns_handlers := (ns_handlers ns)(event \<mapsto> handlers_of ns event @ [w])\<rparr>"])
      (auto simp: update_namespace_def gate_ok_def)
qed

lemma client_OnAny_gate: "gate_inv d c \<Longrightarrow> gate_inv d (client_OnAny f c)"
  by (erule gate_inv_update [where n = "c_defaultNs c" and f = "\<lambda>ns. ns\<lparr>ns_anyHandlers := ns_anyHandlers ns @ [f]\<rparr>"])
    (auto simp: client_OnAny_def ns_OnAny_def update_namespace_def gate_ok_def)

lemma register_all_gate: "register_all d event cbs c = Ret c' \<Longrightarrow> gate_inv d c \<Longrightarrow> gate_inv d c'"
  by (induction cbs arbitrary: c) (auto dest: client_On_gate split: go.splits)

lemma sio_Connect_gate: "sio_Connect d ctx fs c = Ret (c', e) \<Longrightarrow> gate_inv d c \<Longrightarrow> gate_inv d c'"
  by (auto simp: sio_Connect_def split: go.splits elim!: register_all_gate) (erule gate_inv_same, simp_all)

lemma run_task_namespaces:
  "run_task unm t c = Some c' \<Longrightarrow> c_namespaces c' = c_namespaces c \<and> c_sent c' = c_sent c"
  by (cases "(unm, t, c)" rule: run_task.cases)
    (auto simp: Let_def record_call_def split: invocation.splits option.splits if_splits)

lemma sio_step_gate: "sio_step d unm c c' \<Longrightarrow> gate_inv d c \<Longrightarrow> gate_inv d c'"
proof (induction rule: sio_step.induct)
  case (s_emit c n ns pick event args c' st)
  then show ?case by (blast intro: ns_Emit_gate)
next
  case (s_task c xs t ys c')
  then show ?case using run_task_namespaces [OF s_task(2)] by (auto elim: gate_inv_same)
qed (auto intro: onMessage_gate client_On_gate client_OnAny_gate connectSocketIO_gate sio_Connect_gate
    elim: gate_inv_same simp: SetHandshakeData_def waiter_timer_def waiter_expire_def waiter_ctx_def waiter_done_def)

lemma sio_init_gate: "sio_init c \<Longrightarrow> gate_inv d c"
  by (auto simp: sio_init_def gate_inv_def gate_ok_def new_namespace_def)

interpretation sio_gate: invariant_system sio_init "sio_step d unm" "gate_inv d"
  by unfold_locales (auto intro: sio_init_gate sio_step_gate)

text \<open>
  C19: Until the server's CONNECT for some namespace has arrived, every packet the client has handed
  to the Engine.IO client is a CONNECT packet (its first byte is \<^verbatim>\<open>0\<close>), in whatever order the
  application registers, emits and connects.
\<close>

theorem only_connect_before_connected:
  assumes "uses_default d" and "reachable sio_init (sio_step d unm) c"
    and "\<forall>n ns. c_namespaces c n = Some ns \<longrightarrow> \<not> ns_hadConnected ns" and "bs \<in> set (c_sent c)"
  shows "\<exists>rest. bs = 0x30 # rest"
proof -
  have "gate_inv d c" by (rule sio_gate.reachable_inv [OF assms(2)])
  with assms(3,4) have "connect_packet d bs" by (auto simp: gate_inv_def any_connected_def list_all_iff)
  then obtain m where "msg_Type m = PacketConnect" "sio_Serialize (Some m) = Inr bs"
    using assms(1) by (auto simp: connect_packet_def uses_default_def default_parser_iface_def)
  then show ?thesis
    by (auto simp: sio_Serialize_def Let_def split: option.splits sum.splits if_splits)
qed

definition demo_connecting :: sio_Client where
  "demo_connecting = connectSocketIO demo_deps demo_client"

lemma demo_connecting_reachable: "reachable sio_init (sio_step demo_deps demo_unm) demo_connecting"
  unfolding demo_connecting_def
  by (rule reachable_step, rule reachable_init, rule demo_client_init, rule s_engine_connect)

lemma demo_connecting_state:
  "c_namespaces demo_connecting = [''/'' \<mapsto> new_namespace ''/'']" "c_ctxErr demo_connecting = None"
  by (simp_all add: demo_connecting_def connectSocketIO_def sio_sendPacket_def demo_client_def demo_deps_def
      split: sum.splits)

theorem only_connect_before_connected_witness:
  "c_sent demo_connecting = [bytes_of_string ''0''] \<and> (\<exists>rest. bytes_of_string ''0'' = 0x30 # rest)"
proof
  show sent: "c_sent demo_connecting = [bytes_of_string ''0'']" by code_simp
  show "\<exists>rest. bytes_of_string ''0'' = 0x30 # rest"
    by (rule only_connect_before_connected [OF _ demo_connecting_reachable])
      (simp_all only: sent, simp_all add: demo_connecting_state uses_default_def demo_deps_def new_namespace_def)
qed

text \<open>
  C20: An emit on a namespace whose CONNECT has not arrived sends nothing and changes nothing: it
  waits, and returns the context's error when the context ends first. Once the CONNECT has arrived
  the emit never waits.
\<close>

theorem emit_waits_for_connect:
  assumes "reachable sio_init (sio_step d unm) c" and "c_namespaces c n = Some ns"
  shows "(\<not> ns_hadConnected ns \<longrightarrow> ns_Emit d pick ns event args c =
        Ret (c, case c_ctxErr c of None \<Rightarrow> EmitBlocked | Some e \<Rightarrow> EmitReturned (Some e))) \<and>
    (ns_hadConnected ns \<longrightarrow> (\<nexists>c'. ns_Emit d pick ns event args c = Ret (c', EmitBlocked)))"
proof -
  have "gate_inv d c" by (rule sio_gate.reachable_inv [OF assms(1)])
  with assms(2) have g: "ns_waitConnected ns = Some (ns_hadConnected ns)" by (simp add: gate_inv_def gate_ok_def)
  have sent: "emit_send d ns ev opts c \<noteq> Ret (c', EmitBlocked)" for ev opts c'
    by (auto simp: emit_send_def Let_def split: go.splits prod.splits)
  show ?thesis
    using g sent by (auto simp: ns_Emit_def emit_gate_def split: option.splits if_splits sum.splits)
qed

theorem emit_waits_for_connect_witness:
  "ns_Emit demo_deps False (new_namespace ''/'') (EvName ''e'') [ArgVal (GInt 1)] demo_connecting =
     Ret (demo_connecting, EmitBlocked)"
  using emit_waits_for_connect [OF demo_connecting_reachable, of "''/''" "new_namespace ''/''" False
      "EvName ''e''" "[ArgVal (GInt 1)]"]
  by (simp add: demo_connecting_state new_namespace_def)

section \<open>Handlers\<close>

text \<open>Handlers are kept per namespace and event, in the order of registration.\<close>

lemma client_On_handlers:
  assumes "client_On d event cb c = Ret c'" and "c_namespaces c (c_defaultNs c) = Some ns"
  shows "\<exists>w ns'. p_WrapCallback (d_parser d) cb = Ret w \<and> c_namespaces c' = (c_namespaces c)(c_defaultNs c \<mapsto> ns') \<and>
    ns_anyHandlers ns' = ns_anyHandlers ns \<and> c_defaultNs c' = c_defaultNs c \<and>
    (\<forall>e. handlers_of ns' e = (if e = event then handlers_of ns e @ [w] else handlers_of ns e))"
  using assms
  by (auto simp: client_On_def ns_On_def update_namespace_def handlers_of_def split: go.splits)

lemma register_all_handlers:
  assumes "uses_default d" and "register_all d event (map (\<lambda>f. CbFunc f ts) fs) c = Ret c'"
    and "c_namespaces c (c_defaultNs c) = Some ns"
  shows "\<exists>ns'. c_namespaces c' (c_defaultNs c) = Some ns' \<and>
    handlers_of ns' event = handlers_of ns event @ map (\<lambda>f. WReflect f ts) fs"
  using assms(2,3)
proof (induction fs arbitrary: c ns)
  case (Cons f fs)
  obtain c1 where on: "client_On d event (CbFunc f ts) c = Ret c1"
    and rest: "register_all d event (map (\<lambda>f. CbFunc f ts) fs) c1 = Ret c'"
    using Cons.prems by (auto split: go.splits)
  have w: "p_WrapCallback (d_parser d) (CbFunc f ts) = Ret (WReflect f ts)"
    using assms(1) by (simp add: uses_default_def default_parser_iface_def WrapCallback_def)
  obtain ns1 where ns1: "c_namespaces c1 = (c_namespaces c)(c_defaultNs c \<mapsto> ns1)" "c_defaultNs c1 = c_defaultNs c"
    "handlers_of ns1 event = handlers_of ns event @ [WReflect f ts]"
    using client_On_handlers [OF on Cons.prems(2)] w by auto
  with Cons.IH [OF rest, of ns1] show ?case by simp
qed simp

lemma handleConnect_tasks:
  "c_tasks (handleConnect ns payload c) = c_tasks c @ map (\<lambda>h. THandler h [payload]) (handlers_of ns ''connect'')"
  by (auto simp: handleConnect_def handlers_of_def Let_def safeGo_def update_namespace_def split: option.splits)

text \<open>
  C23: The callbacks given to \<^verbatim>\<open>Connect\<close> are registered for \<^verbatim>\<open>connect\<close> as functions of one
  argument, so with the default parser they are never called: the CONNECT packet starts a goroutine
  for each of them, but the parser leaves the payload of the packet \<^verbatim>\<open>nil\<close>, and a wrapped callback
  is called only with raw JSON.
\<close>

theorem connect_callbacks_never_called:
  assumes "uses_default d" and "c_namespaces c (c_defaultNs c) = Some ns" and "sio_Connect d ctx fs c = Ret (c1, e)"
    and "sio_Parse default_parser data = Ret (Some m, None)" and "msg_Type m = PacketConnect" and "msg_NS m = c_defaultNs c"
  shows "\<exists>c2. onMessage d data c1 = Ret c2 \<and>
    c_tasks c2 = c_tasks c1 @ map (\<lambda>h. THandler h [GNil]) (handlers_of ns ''connect'') @
      map (\<lambda>f. THandler (WReflect f [''interface {}'']) [GNil]) fs \<and>
    (\<forall>f. run_wrapped unm (WReflect f [''interface {}'']) [GNil] = NotCalled ''Error unmarshaling argument'')"
proof -
  obtain ns1 where ns1: "c_namespaces c1 (c_defaultNs c) = Some ns1"
    "handlers_of ns1 ''connect'' = handlers_of ns ''connect'' @ map (\<lambda>f. WReflect f [''interface {}'']) fs"
    using assms(2,3) register_all_handlers [OF assms(1), of "''connect''" "[''interface {}'']" fs "c\<lparr>c_ctxErr := ctx\<rparr>" c1 ns]
    by (auto simp: sio_Connect_def split: go.splits)
  have pay: "msg_Payload m = GNil" using sio_Parse_ok [OF assms(4)] by (simp add: parsed_ok_def)
  have P: "p_Parse (d_parser d) = sio_Parse default_parser"
    using assms(1) by (simp add: uses_default_def default_parser_iface_def)
  have "onMessage d data c1 =
      Ret (handleConnect ns1 GNil (sio_log LDebug ''socketio receive %s'' [sio_payload c1 data] c1))"
    using assms(4-6) ns1(1) pay P by (simp add: onMessage_def Let_def dispatch_def)
  then show ?thesis by (simp add: handleConnect_tasks ns1(2))
qed

definition demo_connected :: sio_Client where
  "demo_connected = (case sio_Connect demo_deps None [4] demo_client of Ret (c, _) \<Rightarrow> c | Panic _ \<Rightarrow> demo_client)"

theorem connect_callbacks_never_called_witness:
  "\<exists>c2. onMessage demo_deps (bytes_of_string ''0'') demo_connected = Ret c2 \<and>
     c_tasks c2 = [THandler (WReflect 4 [''interface {}'']) [GNil]] \<and>
     run_wrapped demo_unm (WReflect 4 [''interface {}'']) [GNil] = NotCalled ''Error unmarshaling argument''"
proof -
  have "(case sio_Connect demo_deps None [4] demo_client of Ret (_, e) \<Rightarrow> e = None | Panic _ \<Rightarrow> False)" by code_simp
  then have r: "sio_Connect demo_deps None [4] demo_client = Ret (demo_connected, None)"
    by (auto simp: demo_connected_def split: go.splits)
  have t: "c_tasks demo_connected = []" by code_simp
  have d: "uses_default demo_deps" by (simp add: uses_default_def demo_deps_def)
  have p: "sio_Parse default_parser (bytes_of_string ''0'') = Ret (Some (new_message PacketConnect ''/''), None)" by code_simp
  have n: "c_namespaces demo_client (c_defaultNs demo_client) = Some (new_namespace ''/'')"
    by (simp add: demo_client_def)
  show ?thesis
    using connect_callbacks_never_called [OF d n r p, of demo_unm]
    by (auto simp: t handlers_of_def new_namespace_def new_message_def demo_client_def)
qed

end
