(* ===== verification/EngineIO_Parser.thy ===== *)
theory EngineIO_Parser
  imports Prelude
begin

text \<open>
  The Engine.IO v4 packet layer: \<^verbatim>\<open>engine.io/v4/defs.go\<close> (packet types, messages, handshake
  data) and \<^verbatim>\<open>engine.io/v4/parser/parser.go\<close> (\<^verbatim>\<open>EngineIOV4Parser\<close> with its constructor,
  \<^verbatim>\<open>Parse\<close> and \<^verbatim>\<open>Serialize\<close>). A packet type is a Go \<^verbatim>\<open>byte\<close>: any of 256 values, of which
  seven are named. The parser and the serializer are inverse to each other on named types
  and data within the size limit, and the parser accepts nothing else.
\<close>

section \<open>Packets and messages\<close>

type_synonym EngineIOPacket = byte

definition PacketOpen :: EngineIOPacket where [simp]: "PacketOpen = 0x00"
definition PacketClose :: EngineIOPacket where [simp]: "PacketClose = 0x01"
definition PacketPing :: EngineIOPacket where [simp]: "PacketPing = 0x02"
definition PacketPong :: EngineIOPacket where [simp]: "PacketPong = 0x03"
definition PacketMessage :: EngineIOPacket where [simp]: "PacketMessage = 0x04"
definition PacketUpgrade :: EngineIOPacket where [simp]: "PacketUpgrade = 0x05"
definition PacketNoop :: EngineIOPacket where [simp]: "PacketNoop = 0x06"

type_synonym EngineIOTransport = string

definition TransportPolling :: EngineIOTransport where "TransportPolling = ''polling''"
definition TransportWebsocket :: EngineIOTransport where "TransportWebsocket = ''websocket''"

record eio_Message =
  eio_Force :: "bool option"
  eio_Type :: EngineIOPacket
  eio_Data :: bytes

record HandshakeResponse =
  hs_Sid :: string
  hs_Upgrades :: "string list"
  hs_PingInterval :: int
  hs_PingTimeout :: int

section \<open>The parser\<close>

definition defaultMaxSerializeSize :: int64 where
  "defaultMaxSerializeSize = 64 * 1024 * 1024"

record EngineIOV4Parser =
  maxSerializeSize :: int64

type_synonym eio_ParserOption = "EngineIOV4Parser \<Rightarrow> go_error + EngineIOV4Parser"

definition zero_EngineIOV4Parser :: EngineIOV4Parser where
  "zero_EngineIOV4Parser = \<lparr>maxSerializeSize = 0\<rparr>"

definition NewEngineIOV4Parser :: "eio_ParserOption list \<Rightarrow> go_error + EngineIOV4Parser" where
  "NewEngineIOV4Parser options =
     apply_options options \<lparr>maxSerializeSize = defaultMaxSerializeSize\<rparr>"

definition WithMaxSerializeSize :: "int64 \<Rightarrow> eio_ParserOption" where
  "WithMaxSerializeSize sz p =
     (if sint sz \<le> 0 then Inl (ErrorNew ''maxSerializeSize must be positive'')
      else Inr (p\<lparr>maxSerializeSize := sz\<rparr>))"

definition eio_Parse :: "EngineIOV4Parser \<Rightarrow> bytes \<Rightarrow> go_error + eio_Message" where
  "eio_Parse p data =
     (case data of
        [] \<Rightarrow> Inl (ErrorNew ''empty message'')
      | b # rest \<Rightarrow>
          (let packetType = b - 0x30
           in if packetType > PacketNoop
              then Inl (ErrorFmt ''unknown engine.io packet type: 0x%02x'' [uint b])
              else Inr \<lparr>eio_Force = None, eio_Type = packetType, eio_Data = rest\<rparr>))"

definition eio_limit :: "EngineIOV4Parser \<Rightarrow> int64" where
  "eio_limit p = (if sint (maxSerializeSize p) \<le> 0 then defaultMaxSerializeSize else maxSerializeSize p)"

definition eio_Serialize :: "EngineIOV4Parser \<Rightarrow> eio_Message \<Rightarrow> go_error + bytes" where
  "eio_Serialize p msg =
     (if int (length (eio_Data msg)) > sint (eio_limit p)
      then Inl (ErrorNew ''message data too large'')
      else Inr ((eio_Type msg + 0x30) # eio_Data msg))"

section \<open>Correctness\<close>

text \<open>A message the parser can produce: a named packet type and no \<^verbatim>\<open>Force\<close> flag.\<close>

definition eio_wf :: "eio_Message \<Rightarrow> bool" where
  "eio_wf m \<longleftrightarrow> eio_Type m \<le> PacketNoop \<and> eio_Force m = None"

lemma eio_Parse_Cons:
  "eio_Parse p (b # rest) =
     (if b - 0x30 > PacketNoop then Inl (ErrorFmt ''unknown engine.io packet type: 0x%02x'' [uint b])
      else Inr \<lparr>eio_Force = None, eio_Type = b - 0x30, eio_Data = rest\<rparr>)"
  by (simp add: eio_Parse_def)

lemma eio_roundtrip: "eio_wf m \<Longrightarrow> eio_Serialize p m = Inr bs \<Longrightarrow> eio_Parse q bs = Inr m"
  by (cases m) (auto simp: eio_Serialize_def eio_Parse_Cons eio_wf_def split: if_splits)

interpretation eio_codec: packet_codec "eio_Serialize p" "eio_Parse q" eio_wf
  by unfold_locales (rule eio_roundtrip)

text \<open>The wrap-around in \<^verbatim>\<open>data[0] - 0x30\<close> rejects the bytes below \<^verbatim>\<open>'0'\<close> as well.\<close>

lemma byte_minus_0x30_le6: "(b :: byte) - 0x30 \<le> 6 \<longleftrightarrow> 0x30 \<le> b \<and> b \<le> 0x36"
proof -
  have eq: "unat (b - 0x30) = (if 0x30 \<le> unat b then unat b - 0x30 else unat b + 256 - 0x30)"
    using unat_byte_less [of b] by (simp add: unat_sub_if_size word_le_nat_alt word_size)
  then show ?thesis
    using unat_byte_less [of b] by (auto simp: word_le_nat_alt split: if_splits)
qed

lemma eio_limit_positive: "0 < sint (eio_limit p)"
  by (simp add: eio_limit_def defaultMaxSerializeSize_def)

text \<open>
  C38: every message with a named packet type that serializes parses back to the same message,
  whatever limits the two parsers carry.
\<close>

theorem eio_parse_of_serialize:
  assumes "eio_wf m" and "eio_Serialize p m = Inr bs"
  shows "eio_Parse q bs = Inr m"
  by (rule eio_codec.parse_serialize [OF assms])

theorem eio_parse_of_serialize_witness:
  "eio_Parse zero_EngineIOV4Parser (0x34 # bytes_of_string ''hi'') =
     Inr \<lparr>eio_Force = None, eio_Type = PacketMessage, eio_Data = bytes_of_string ''hi''\<rparr>"
  by (rule eio_parse_of_serialize [where p = zero_EngineIOV4Parser])
    (simp_all add: eio_wf_def eio_Serialize_def eio_limit_def defaultMaxSerializeSize_def
      zero_EngineIOV4Parser_def)

lemma eio_Parse_Inr_iff:
  "eio_Parse p data = Inr m \<longleftrightarrow> eio_wf m \<and> data = (eio_Type m + 0x30) # eio_Data m"
  by (cases data; cases m)
    (auto simp: eio_Parse_Cons eio_Parse_def [of p "[]"] eio_wf_def not_less)

text \<open>
  C39: the parser accepts exactly the non-empty packets whose first byte is an ASCII digit
  between \<^verbatim>\<open>'0'\<close> and \<^verbatim>\<open>'6'\<close>; every other non-empty packet is rejected with an error that carries
  the offending byte, and the empty packet with its own error.
\<close>

theorem eio_parse_accepts_exactly:
  "eio_Parse p data =
     (case data of
        [] \<Rightarrow> Inl (ErrorNew ''empty message'')
      | b # rest \<Rightarrow>
          if 48 \<le> uint b \<and> uint b \<le> 54
          then Inr \<lparr>eio_Force = None, eio_Type = word_of_int (uint b - 48), eio_Data = rest\<rparr>
          else Inl (ErrorFmt ''unknown engine.io packet type: 0x%02x'' [uint b]))"
proof (cases data)
  case (Cons b rest)
  have "b - 0x30 > PacketNoop \<longleftrightarrow> \<not> (48 \<le> uint b \<and> uint b \<le> 54)"
    using byte_minus_0x30_le6 [of b] by (simp add: word_le_def flip: linorder_not_le)
  then show ?thesis using Cons by (simp add: eio_Parse_Cons)
qed (simp add: eio_Parse_def)

text \<open>
  Parsing loses nothing: a parsed packet within the size limit serializes to the very same
  bytes.
\<close>

lemma eio_serialize_of_parse:
  assumes "eio_Parse p data = Inr m" and "int (length data) \<le> sint (eio_limit q) + 1"
  shows "eio_Serialize q m = Inr data"
  using assms by (auto simp: eio_Parse_Inr_iff eio_Serialize_def)

lemma eio_serialize_of_parse_example:
  "eio_Serialize zero_EngineIOV4Parser
     \<lparr>eio_Force = None, eio_Type = PacketPong, eio_Data = bytes_of_string ''probe''\<rparr>
     = Inr (bytes_of_string ''3probe'')"
  by (rule eio_serialize_of_parse [where p = zero_EngineIOV4Parser])
    (simp_all add: eio_Parse_Inr_iff eio_wf_def eio_limit_def defaultMaxSerializeSize_def
      zero_EngineIOV4Parser_def)

text \<open>
  C40: a parser built by the constructor from any list of size options either fails because one
  of them is not positive, or carries the last size given (64 MiB when there is none), and its
  \<^verbatim>\<open>Serialize\<close> rejects exactly the messages whose data exceed that size.
\<close>

theorem eio_constructor_limit:
  "NewEngineIOV4Parser (map WithMaxSerializeSize sizes) =
     (if \<exists>sz \<in> set sizes. sint sz \<le> 0
      then Inl (ErrorNew ''maxSerializeSize must be positive'')
      else Inr \<lparr>maxSerializeSize = last (defaultMaxSerializeSize # sizes)\<rparr>)
   \<and> (NewEngineIOV4Parser (map WithMaxSerializeSize sizes) = Inr p \<longrightarrow>
        ((\<exists>e. eio_Serialize p msg = Inl e) \<longleftrightarrow>
           sint (last (defaultMaxSerializeSize # sizes)) < int (length (eio_Data msg))))"
proof -
  have run: "apply_options (map WithMaxSerializeSize ss) \<lparr>maxSerializeSize = d\<rparr> =
     (if \<exists>sz \<in> set ss. sint sz \<le> 0
      then Inl (ErrorNew ''maxSerializeSize must be positive'')
      else Inr \<lparr>maxSerializeSize = last (d # ss)\<rparr>)" for ss d
    by (induction ss arbitrary: d) (auto simp: WithMaxSerializeSize_def)
  have pos: "0 < sint (last (defaultMaxSerializeSize # sizes))"
    if "\<not> (\<exists>sz \<in> set sizes. sint sz \<le> 0)"
    using that by (cases sizes rule: rev_cases) (auto simp: defaultMaxSerializeSize_def)
  show ?thesis
    using pos
    by (auto simp: NewEngineIOV4Parser_def run eio_Serialize_def eio_limit_def split: if_splits)
qed

theorem eio_constructor_limit_witness:
  "(\<exists>e. eio_Serialize \<lparr>maxSerializeSize = 2\<rparr>
      \<lparr>eio_Force = None, eio_Type = PacketMessage, eio_Data = [1, 2, 3]\<rparr> = Inl e)"
  using eio_constructor_limit [of "[5, 2]" "\<lparr>maxSerializeSize = 2\<rparr>"
      "\<lparr>eio_Force = None, eio_Type = PacketMessage, eio_Data = [1, 2, 3]\<rparr>"]
  by simp

text \<open>
  The zero value \<^verbatim>\<open>&EngineIOV4Parser{}\<close>, which the client uses by default, behaves exactly
  as the parser the constructor builds with no options.
\<close>

lemma eio_zero_value_is_default:
  "NewEngineIOV4Parser [] = Inr p \<Longrightarrow>
     eio_Serialize zero_EngineIOV4Parser = eio_Serialize p \<and>
     eio_Parse zero_EngineIOV4Parser = eio_Parse p"
  by (auto simp: NewEngineIOV4Parser_def eio_Serialize_def eio_limit_def fun_eq_iff
      zero_EngineIOV4Parser_def defaultMaxSerializeSize_def eio_Parse_def)

lemma eio_zero_value_is_default_example:
  "eio_Serialize zero_EngineIOV4Parser = eio_Serialize \<lparr>maxSerializeSize = 64 * 1024 * 1024\<rparr>"
  by (rule eio_zero_value_is_default [THEN conjunct1])
    (simp add: NewEngineIOV4Parser_def defaultMaxSerializeSize_def)

end
