(* ===== verification/Handshake_JSON.thy ===== *)
theory Handshake_JSON
  imports GoJSON EngineIO_Parser
begin

text \<open>
  \<^verbatim>\<open>json.Unmarshal\<close> into \<^verbatim>\<open>engineio_v4.HandshakeResponse\<close>, as \<^verbatim>\<open>handleHandshake\<close> calls it: the text must be
  one valid value; the members of an object are stored in order into the fields whose tags they
  match, ASCII case and the long s ignored; \<^verbatim>\<open>null\<close> stores nothing into a string or a number and an
  empty slice into a slice; a value of another kind, or a number that is no \<^verbatim>\<open>int\<close>, is an error. Error
  texts are not told apart.
\<close>

section \<open>Arrays and objects\<close>

text \<open>
  The elements of an array and the members of an object, after the opening bracket, of a text that
  the scanner has accepted; the flag says whether no comma is due.
\<close>

function json_items :: "bool \<Rightarrow> bytes \<Rightarrow> bytes list option" where
  "json_items start bs =
     (case skip_space bs of
        [] \<Rightarrow> None
      | c # cs \<Rightarrow>
          if c = 0x5D then Some []
          else
            (case read_value (if start then c # cs else cs) of
               None \<Rightarrow> None
             | Some (v, rest) \<Rightarrow> map_option (Cons v) (json_items False rest)))"
  by pat_completeness auto

function json_members :: "bool \<Rightarrow> bytes \<Rightarrow> (bytes \<times> bytes) list option" where
  "json_members start bs =
     (case skip_space bs of
        [] \<Rightarrow> None
      | c # cs \<Rightarrow>
          if c = 0x7D then Some []
          else
            (case read_value (if start then c # cs else cs) of
               None \<Rightarrow> None
             | Some (k, rest) \<Rightarrow>
                 (case skip_space rest of
                    [] \<Rightarrow> None
                  | _ # rest' \<Rightarrow>
                      (case read_value rest' of
                         None \<Rightarrow> None
                       | Some (v, rest'') \<Rightarrow> map_option (Cons (k, v)) (json_members False rest'')))))"
  by pat_completeness auto

lemma skip_space_shorter: "skip_space bs = c # cs \<Longrightarrow> Suc (length cs) \<le> length bs"
  by (metis skip_space_def length_dropWhile_le length_Cons)

lemma read_next_shorter:
  "skip_space bs = c # cs \<Longrightarrow> read_value (if start then c # cs else cs) = Some (v, rest) \<Longrightarrow> length rest < length bs"
  using skip_space_shorter [of bs c cs] read_value_shorter [of "if start then c # cs else cs" v rest]
  by (auto split: if_splits)

termination json_items
  by (relation "measure (\<lambda>(start, bs). length bs)") (auto dest: read_next_shorter)

termination json_members
proof (relation "measure (\<lambda>(start, bs). length bs)", simp)
  fix start bs c cs y k rest d rest' z v rest''
  assume a: "skip_space bs = c # cs" "read_value (if start then c # cs else cs) = Some y" "(k, rest) = y"
    and b: "skip_space rest = d # rest'" "read_value rest' = Some z" "(v, rest'') = z"
  have "length rest < length bs" using a read_next_shorter by auto
  moreover have "Suc (length rest') \<le> length rest" by (rule skip_space_shorter [OF b(1)])
  moreover have "length rest'' < length rest'" using b(2,3) read_value_shorter by auto
  ultimately show "((False, rest''), start, bs) \<in> measure (\<lambda>(start, bs). length bs)" by simp
qed

declare json_items.simps [simp del] json_members.simps [simp del]

section \<open>Fields\<close>

text \<open>
  A member name as \<^verbatim>\<open>encoding/json\<close> folds it. Of the runes outside ASCII only the long s (U+017F) folds
  to a letter of a field name.
\<close>

fun fold_name :: "bytes \<Rightarrow> bytes" where
  "fold_name [] = []"
| "fold_name (b # bs) =
     (if b = 0xC5 \<and> bs \<noteq> [] \<and> hd bs = 0xBF then 0x73 # fold_name (tl bs)
      else (if 0x41 \<le> b \<and> b \<le> 0x5A then b + 0x20 else b) # fold_name bs)"

datatype hs_field = FSid | FUpgrades | FPingInterval | FPingTimeout

definition field_of :: "bytes \<Rightarrow> hs_field option" where
  "field_of key =
     (let k = string_of_bytes (fold_name key) in
      if k = ''sid'' then Some FSid
      else if k = ''upgrades'' then Some FUpgrades
      else if k = ''pinginterval'' then Some FPingInterval
      else if k = ''pingtimeout'' then Some FPingTimeout
      else None)"

text \<open>\<^verbatim>\<open>strconv.ParseInt(s, 10, 64)\<close> on the text of a JSON number.\<close>

definition digits_value :: "bytes \<Rightarrow> int" where
  "digits_value bs = foldl (\<lambda>acc b. acc * 10 + (uint b - 48)) 0 bs"

definition parse_int :: "bytes \<Rightarrow> int option" where
  "parse_int v =
     (let neg = (v \<noteq> [] \<and> hd v = 0x2D); ds = (if neg then tl v else v) in
      if ds = [] \<or> \<not> list_all is_digit_byte ds then None
      else
        let n = (if neg then - digits_value ds else digits_value ds) in
        if - 9223372036854775808 \<le> n \<and> n \<le> 9223372036854775807 then Some n else None)"

definition is_null :: "bytes \<Rightarrow> bool" where
  "is_null v \<longleftrightarrow> v \<noteq> [] \<and> hd v = 0x6E"

definition decode_string :: "bytes \<Rightarrow> string \<Rightarrow> string option" where
  "decode_string v old = (if is_null v then Some old else map_option string_of_bytes (unquote v))"

definition decode_int :: "bytes \<Rightarrow> int \<Rightarrow> int option" where
  "decode_int v old = (if is_null v then Some old else parse_int v)"

text \<open>
  A slice is decoded in place: a \<^verbatim>\<open>null\<close> element keeps what an earlier array has left in the backing
  array at its index. The state of the decoder has that array and the length of the slice.
\<close>

record hs_decoder =
  dec_sid :: string
  dec_backing :: "string list"
  dec_len :: nat
  dec_pingInterval :: int
  dec_pingTimeout :: int

fun decode_elements :: "bytes list \<Rightarrow> string list \<Rightarrow> string list option" where
  "decode_elements [] backing = Some backing"
| "decode_elements (v # vs) backing =
     (case decode_string v (case backing of [] \<Rightarrow> [] | old # _ \<Rightarrow> old) of
        None \<Rightarrow> None
      | Some s \<Rightarrow> map_option (Cons s) (decode_elements vs (tl backing)))"

definition decode_slice :: "bytes \<Rightarrow> hs_decoder \<Rightarrow> hs_decoder option" where
  "decode_slice v h =
     (if is_null v then Some (h\<lparr>dec_backing := [], dec_len := 0\<rparr>)
      else if v = [] \<or> hd v \<noteq> 0x5B then None
      else
        (case json_items True (tl v) of
           None \<Rightarrow> None
         | Some [] \<Rightarrow> Some (h\<lparr>dec_backing := [], dec_len := 0\<rparr>)
         | Some items \<Rightarrow>
             map_option (\<lambda>b. h\<lparr>dec_backing := b, dec_len := length items\<rparr>) (decode_elements items (dec_backing h))))"

definition store_member :: "bytes \<times> bytes \<Rightarrow> hs_decoder \<Rightarrow> hs_decoder option" where
  "store_member kv h =
     (case kv of (k, v) \<Rightarrow>
       case unquote k of
         None \<Rightarrow> None
       | Some key \<Rightarrow>
           (case field_of key of
              None \<Rightarrow> Some h
            | Some FSid \<Rightarrow> map_option (\<lambda>s. h\<lparr>dec_sid := s\<rparr>) (decode_string v (dec_sid h))
            | Some FUpgrades \<Rightarrow> decode_slice v h
            | Some FPingInterval \<Rightarrow> map_option (\<lambda>i. h\<lparr>dec_pingInterval := i\<rparr>) (decode_int v (dec_pingInterval h))
            | Some FPingTimeout \<Rightarrow> map_option (\<lambda>i. h\<lparr>dec_pingTimeout := i\<rparr>) (decode_int v (dec_pingTimeout h))))"

fun store_members :: "(bytes \<times> bytes) list \<Rightarrow> hs_decoder \<Rightarrow> hs_decoder option" where
  "store_members [] h = Some h"
| "store_members (kv # kvs) h = Option.bind (store_member kv h) (store_members kvs)"

definition decoded :: "hs_decoder \<Rightarrow> HandshakeResponse" where
  "decoded h = \<lparr>hs_Sid = dec_sid h, hs_Upgrades = take (dec_len h) (dec_backing h), hs_PingInterval = dec_pingInterval h,
     hs_PingTimeout = dec_pingTimeout h\<rparr>"

definition new_decoder :: hs_decoder where
  "new_decoder = \<lparr>dec_sid = [], dec_backing = [], dec_len = 0, dec_pingInterval = 0, dec_pingTimeout = 0\<rparr>"

definition unmarshal_error :: go_error where
  "unmarshal_error = ErrorNew ''json: cannot unmarshal handshake''"

definition unmarshal_handshake :: "bytes \<Rightarrow> go_error + HandshakeResponse" where
  "unmarshal_handshake data =
     (case read_value data of
        None \<Rightarrow> Inl unmarshal_error
      | Some (v, rest) \<Rightarrow>
          if skip_space rest \<noteq> [] then Inl unmarshal_error
          else if is_null v then Inr (decoded new_decoder)
          else if v = [] \<or> hd v \<noteq> 0x7B then Inl unmarshal_error
          else
            (case Option.bind (json_members True (tl v)) (\<lambda>kvs. store_members kvs new_decoder) of
               None \<Rightarrow> Inl unmarshal_error
             | Some h \<Rightarrow> Inr (decoded h)))"

section \<open>What a server writes\<close>

abbreviation member :: "bytes \<times> bytes \<Rightarrow> bytes" where
  "member kv \<equiv> (case kv of (k, v) \<Rightarrow> quote k @ 0x3A # v)"

abbreviation json_object :: "(bytes \<times> bytes) list \<Rightarrow> bytes" where
  "json_object kvs \<equiv> 0x7B # join_comma (map member kvs) @ [0x7D]"

abbreviation json_array :: "bytes list \<Rightarrow> bytes" where
  "json_array vs \<equiv> 0x5B # join_comma vs @ [0x5D]"

lemma quote_Cons: obtains cs where "quote k = 0x22 # cs"
  by (simp add: quote_def)

lemma delimiter_punct [simp]: "delimiter 0x2C" "delimiter 0x5D" "delimiter 0x7D" "delimiter 0x3A"
  by (simp_all add: delimiter_def)

lemma not_space_marks [simp]: "\<not> is_space 0x22" "\<not> is_space 0x3A" "\<not> is_space 0x7D" "\<not> is_space 0x7B"
  by (simp_all add: is_space_def)

text \<open>One member and what follows it.\<close>

lemma read_member:
  assumes "json_text maxNestingDepth v" and "rest = [] \<or> delimiter (hd rest)"
  shows "read_value (quote k @ 0x3A # v @ rest) = Some (quote k, 0x3A # v @ rest)" "read_value (v @ rest) = Some (v, rest)"
  using read_value_json_text [OF json_text_quote [of 0 k], of "0x3A # v @ rest"] read_value_json_text [OF assms(1) _ assms(2)]
  by simp_all

lemma json_members_step:
  assumes "json_text maxNestingDepth v" and "rest = [] \<or> delimiter (hd rest)"
  shows "json_members True (quote k @ 0x3A # v @ rest) = map_option (Cons (quote k, v)) (json_members False rest)"
    and "json_members False (0x2C # quote k @ 0x3A # v @ rest) = map_option (Cons (quote k, v)) (json_members False rest)"
proof -
  obtain cs where q: "quote k = 0x22 # cs" by (rule quote_Cons)
  then show "json_members True (quote k @ 0x3A # v @ rest) = map_option (Cons (quote k, v)) (json_members False rest)"
    using read_member(1) [OF assms, of k] read_member(2) [OF assms] by (subst json_members.simps) simp
  show "json_members False (0x2C # quote k @ 0x3A # v @ rest) = map_option (Cons (quote k, v)) (json_members False rest)"
    using read_member(1) [OF assms, of k] read_member(2) [OF assms] by (subst json_members.simps) simp
qed

lemma json_members_tail:
  assumes "\<forall>(k, v) \<in> set kvs. json_text maxNestingDepth v"
  shows "json_members False (concat (map (\<lambda>kv. 0x2C # member kv) kvs) @ [0x7D]) = Some (map (map_prod quote id) kvs)"
  using assms
proof (induction kvs)
  case Nil
  show ?case by (subst json_members.simps) simp
next
  case (Cons kv kvs)
  obtain k v where kv: "kv = (k, v)" by (cases kv)
  have "concat (map (\<lambda>kv. 0x2C # member kv) kvs) @ [0x7D] = [] \<or> delimiter (hd (concat (map (\<lambda>kv. 0x2C # member kv) kvs) @ [0x7D]))"
    by (cases kvs) auto
  from json_members_step(2) [OF _ this, of v k] Cons kv show ?case by simp
qed

lemma json_members_object:
  assumes "\<forall>(k, v) \<in> set kvs. json_text maxNestingDepth v"
  shows "json_members True (join_comma (map member kvs) @ [0x7D]) = Some (map (map_prod quote id) kvs)"
proof (cases kvs)
  case Nil
  then show ?thesis by (subst json_members.simps) simp
next
  case (Cons kv kvs')
  obtain k v where kv: "kv = (k, v)" by (cases kv)
  let ?tail = "concat (map (\<lambda>kv. 0x2C # member kv) kvs') @ [0x7D]"
  have d: "?tail = [] \<or> delimiter (hd ?tail)" by (cases kvs') auto
  have "join_comma (map member kvs) @ [0x7D] = quote k @ 0x3A # v @ ?tail"
    using Cons kv by (simp add: join_comma_Cons comp_def)
  then show ?thesis
    using json_members_step(1) [OF _ d, of v k] json_members_tail [of kvs'] assms Cons kv by simp
qed

lemma json_items_step:
  assumes "json_text maxNestingDepth v" and "rest = [] \<or> delimiter (hd rest)"
  shows "json_items True (v @ rest) = map_option (Cons v) (json_items False rest)"
    and "json_items False (0x2C # v @ rest) = map_option (Cons v) (json_items False rest)"
proof -
  obtain c cs where v: "v = c # cs" "\<not> is_space c" "c \<noteq> 0x5D" "c \<noteq> 0x7D"
    by (rule json_text_Cons [OF assms(1) order.refl])
  then show "json_items True (v @ rest) = map_option (Cons v) (json_items False rest)"
    using read_member(2) [OF assms] by (subst json_items.simps) simp
  show "json_items False (0x2C # v @ rest) = map_option (Cons v) (json_items False rest)"
    using read_member(2) [OF assms] by (subst json_items.simps) simp
qed

lemma json_items_tail:
  assumes "\<forall>v \<in> set vs. json_text maxNestingDepth v"
  shows "json_items False (concat (map ((#) 0x2C) vs) @ [0x5D]) = Some vs"
  using assms
proof (induction vs)
  case Nil
  show ?case by (subst json_items.simps) simp
next
  case (Cons v vs)
  then show ?case using json_items_step(2) [OF _ hd_items [of vs "[]"], of v] by simp
qed

lemma json_items_array:
  assumes "\<forall>v \<in> set vs. json_text maxNestingDepth v"
  shows "json_items True (join_comma vs @ [0x5D]) = Some vs"
proof (cases vs)
  case Nil
  then show ?thesis by (subst json_items.simps) simp
next
  case (Cons v vs')
  then show ?thesis
    using assms json_items_step(1) [OF _ hd_items [of vs' "[]"], of v] json_items_tail [of vs'] by (simp add: join_comma_Cons)
qed

lemma unmarshal_object:
  assumes "\<forall>(k, v) \<in> set kvs. json_text (maxNestingDepth - 1) v"
  shows "unmarshal_handshake (json_object kvs) =
    (case store_members (map (map_prod quote id) kvs) new_decoder of None \<Rightarrow> Inl unmarshal_error | Some h \<Rightarrow> Inr (decoded h))"
proof -
  have one: "Suc (maxNestingDepth - 1) = maxNestingDepth" by (simp add: maxNestingDepth_def)
  have "json_text maxNestingDepth (json_object kvs)" using json_text_object [OF assms] unfolding one .
  from read_value_json_text [OF this order.refl, of "[]"]
  have "read_value (json_object kvs) = Some (json_object kvs, [])" by simp
  moreover have "\<forall>(k, v) \<in> set kvs. json_text maxNestingDepth v"
    using assms by (auto intro: json_text_mono)
  ultimately show ?thesis
    using json_members_object [of kvs] by (simp add: unmarshal_handshake_def is_null_def skip_space_def)
qed

section \<open>Round trip\<close>

lemma decode_string_quote [simp]: "valid_utf8 bs \<Longrightarrow> decode_string (quote bs) old = Some (string_of_bytes bs)"
  by (simp add: decode_string_def is_null_def unquote_quote) (simp add: quote_def)

lemma itoa_nat_hd_digit: "is_digit_byte (hd (itoa_nat n))"
  using itoa_nat_digits [of n] hd_in_set [of "itoa_nat n"] by auto

lemma is_digit_byte_not: "\<not> is_digit_byte 0x2D" "\<not> is_digit_byte 0x6E"
  by (simp_all add: is_digit_byte_def)

lemma itoa_nat_hd_not: "hd (itoa_nat n) \<noteq> 0x2D" "hd (itoa_nat n) \<noteq> 0x6E"
  using itoa_nat_hd_digit [of n] is_digit_byte_not by metis+

lemma digits_value_atoi: "\<forall>b \<in> set bs. is_digit_byte b \<Longrightarrow> digits_value bs = int (atoi_digits bs)"
proof (induction bs rule: rev_induct)
  case (snoc b bs)
  then have "uint b - 48 = int (digit_val b)"
    by (simp add: is_digit_byte_def digit_val_def word_le_nat_alt)
  with snoc show ?case by (simp add: digits_value_def atoi_digits_def)
qed (simp add: digits_value_def)

lemma digits_value_itoa: "digits_value (itoa_nat n) = int n"
  using digits_value_atoi [OF itoa_nat_digits [of n]] by simp

lemma parse_int_Itoa: "- (2 ^ 63) \<le> i \<Longrightarrow> i < 2 ^ 63 \<Longrightarrow> parse_int (Itoa i) = Some i"
  using itoa_nat_digits itoa_nat_hd_not
  by (auto simp: parse_int_def Itoa_def Let_def list_all_iff digits_value_itoa)

lemma decode_int_Itoa [simp]: "- (2 ^ 63) \<le> i \<Longrightarrow> i < 2 ^ 63 \<Longrightarrow> decode_int (Itoa i) old = Some i"
  using itoa_nat_hd_not by (simp add: decode_int_def parse_int_Itoa is_null_def) (simp add: Itoa_def)

lemma decode_elements_quote:
  "\<forall>s \<in> set ss. valid_utf8 (bytes_of_string s) \<Longrightarrow> length backing \<le> length ss \<Longrightarrow>
     decode_elements (map (\<lambda>s. quote (bytes_of_string s)) ss) backing = Some ss"
proof (induction ss arbitrary: backing)
  case (Cons s ss)
  then show ?case by (cases backing) auto
qed simp

lemma decode_slice_array:
  assumes "\<forall>s \<in> set ss. valid_utf8 (bytes_of_string s)" and "dec_backing h = []"
  shows "decode_slice (json_array (map (\<lambda>s. quote (bytes_of_string s)) ss)) h = Some (h\<lparr>dec_backing := ss, dec_len := length ss\<rparr>)"
proof -
  have "json_items True (join_comma (map (\<lambda>s. quote (bytes_of_string s)) ss) @ [0x5D]) = Some (map (\<lambda>s. quote (bytes_of_string s)) ss)"
    by (rule json_items_array) (simp add: json_text_quote)
  then show ?thesis
    using decode_elements_quote [OF assms(1), of "[]"] assms(2)
    by (cases ss) (simp_all add: decode_slice_def is_null_def)
qed

lemma store_members_append: "store_members (xs @ ys) h = Option.bind (store_members xs h) (store_members ys)"
  by (induction xs arbitrary: h) (simp_all, metis bind_assoc)

lemma store_members_ignored:
  "\<forall>(k, v) \<in> set kvs. valid_utf8 k \<and> field_of k = None \<Longrightarrow> store_members (map (map_prod quote id) kvs) h = Some h"
  by (induction kvs) (auto simp: store_member_def unquote_quote)

text \<open>The open packet of a server: the four members of the protocol, and any others.\<close>

definition handshake_members :: "HandshakeResponse \<Rightarrow> (bytes \<times> bytes) list" where
  "handshake_members hs =
     [(bytes_of_string ''sid'', quote (bytes_of_string (hs_Sid hs))),
      (bytes_of_string ''upgrades'', json_array (map (\<lambda>s. quote (bytes_of_string s)) (hs_Upgrades hs))),
      (bytes_of_string ''pingInterval'', Itoa (hs_PingInterval hs)), (bytes_of_string ''pingTimeout'', Itoa (hs_PingTimeout hs))]"

definition wf_handshake :: "HandshakeResponse \<Rightarrow> bool" where
  "wf_handshake hs \<longleftrightarrow>
     valid_utf8 (bytes_of_string (hs_Sid hs)) \<and> list_all (\<lambda>s. valid_utf8 (bytes_of_string s)) (hs_Upgrades hs) \<and>
     - (2 ^ 63) \<le> hs_PingInterval hs \<and> hs_PingInterval hs < 2 ^ 63 \<and> - (2 ^ 63) \<le> hs_PingTimeout hs \<and> hs_PingTimeout hs < 2 ^ 63"

definition foreign_member :: "bytes \<times> bytes \<Rightarrow> bool" where
  "foreign_member kv \<longleftrightarrow> (case kv of (k, v) \<Rightarrow> valid_utf8 k \<and> field_of k = None \<and> json_text (maxNestingDepth - 1) v)"

lemma store_handshake:
  assumes "wf_handshake hs"
  shows "store_members (map (map_prod quote id) (handshake_members hs)) new_decoder = Some \<lparr>dec_sid = hs_Sid hs,
    dec_backing = hs_Upgrades hs, dec_len = length (hs_Upgrades hs), dec_pingInterval = hs_PingInterval hs, dec_pingTimeout = hs_PingTimeout hs\<rparr>"
proof -
  have keys: "unquote (quote (bytes_of_string ''sid'')) = Some (bytes_of_string ''sid'')"
    "unquote (quote (bytes_of_string ''upgrades'')) = Some (bytes_of_string ''upgrades'')"
    "unquote (quote (bytes_of_string ''pingInterval'')) = Some (bytes_of_string ''pingInterval'')"
    "unquote (quote (bytes_of_string ''pingTimeout'')) = Some (bytes_of_string ''pingTimeout'')" by code_simp+
  have fields: "field_of (bytes_of_string ''sid'') = Some FSid" "field_of (bytes_of_string ''upgrades'') = Some FUpgrades"
    "field_of (bytes_of_string ''pingInterval'') = Some FPingInterval" "field_of (bytes_of_string ''pingTimeout'') = Some FPingTimeout"
    by code_simp+
  note up = decode_slice_array [of "hs_Upgrades hs" "new_decoder\<lparr>dec_sid := hs_Sid hs\<rparr>"]
  show ?thesis
    using assms up
    by (simp add: handshake_members_def store_member_def keys fields wf_handshake_def list_all_iff new_decoder_def
        del: bytes_of_string_simps)
qed

lemma unmarshal_members:
  assumes "wf_handshake hs" and "list_all foreign_member extra"
  shows "unmarshal_handshake (json_object (handshake_members hs @ extra)) = Inr hs"
proof -
  have "json_text (maxNestingDepth - 1) (json_array (map (\<lambda>s. quote (bytes_of_string s)) (hs_Upgrades hs)))"
    using json_text_array [of "map (\<lambda>s. quote (bytes_of_string s)) (hs_Upgrades hs)" 0]
    by (auto simp: json_text_quote maxNestingDepth_def intro: json_text_mono)
  then have "\<forall>(k, v) \<in> set (handshake_members hs @ extra). json_text (maxNestingDepth - 1) v"
    using assms(2) by (auto simp: handshake_members_def foreign_member_def list_all_iff json_text_quote json_text_Itoa)
  moreover have "store_members (map (map_prod quote id) extra) h = Some h" for h
    using assms(2) by (intro store_members_ignored) (auto simp: foreign_member_def list_all_iff)
  ultimately show ?thesis
    using store_handshake [OF assms(1)] unmarshal_object [of "handshake_members hs @ extra"]
    by (simp add: store_members_append decoded_def)
qed

text \<open>
  C34: A handshake survives the wire: for every session id and list of upgrades in valid UTF-8 and every pair of
  intervals in the range of \<^verbatim>\<open>int\<close>, \<^verbatim>\<open>json.Unmarshal\<close> of the object a server writes for them gives them
  back, whatever members with other names follow (servers also send \<^verbatim>\<open>maxPayload\<close>).
\<close>

theorem handshake_roundtrip:
  assumes "wf_handshake hs" and "list_all foreign_member extra"
  shows "unmarshal_handshake (json_object (handshake_members hs @ extra)) = Inr hs"
  by (rule unmarshal_members [OF assms])

theorem handshake_roundtrip_witness:
  "unmarshal_handshake (json_object (handshake_members \<lparr>hs_Sid = ''s1'', hs_Upgrades = [''websocket''], hs_PingInterval = 25000,
     hs_PingTimeout = 20000\<rparr> @ [(bytes_of_string ''maxPayload'', Itoa 1000000)])) =
   Inr \<lparr>hs_Sid = ''s1'', hs_Upgrades = [''websocket''], hs_PingInterval = 25000, hs_PingTimeout = 20000\<rparr>"
proof (rule handshake_roundtrip)
  have "field_of (bytes_of_string ''maxPayload'') = None" "valid_utf8 (bytes_of_string ''maxPayload'')" by code_simp+
  then show "list_all foreign_member [(bytes_of_string ''maxPayload'', Itoa 1000000)]"
    by (simp add: foreign_member_def json_text_Itoa)
qed (simp add: wf_handshake_def)

text \<open>What is refused, and what a member of the wrong kind or a repeated one does.\<close>

lemma unmarshal_handshake_examples:
  "unmarshal_handshake [] = Inl unmarshal_error"
  "unmarshal_handshake (bytes_of_string ''[]'') = Inl unmarshal_error"
  "unmarshal_handshake (bytes_of_string ''{'' @ quote (bytes_of_string ''sid'') @ bytes_of_string '':1}'') = Inl unmarshal_error"
  "unmarshal_handshake (bytes_of_string ''{'' @ quote (bytes_of_string ''pingTimeout'') @ bytes_of_string '':1.5}'') = Inl unmarshal_error"
  "map_sum id hs_Sid (unmarshal_handshake (bytes_of_string ''{'' @ quote (bytes_of_string ''SID'') @ [0x3A] @ quote (bytes_of_string ''a'') @ bytes_of_string '', '' @
     quote (bytes_of_string ''sid'') @ bytes_of_string '':null }'')) = Inr ''a''"
  by code_simp+

end
