(* ===== verification/EngineIO_Client.thy ===== *)
theory EngineIO_Client
  imports Handshake_JSON Logging
begin

text \<open>
  The Engine.IO client: \<^verbatim>\<open>engine.io/v4/client/client.go\<close>. The struct is a record; the two gates
  \<^verbatim>\<open>waitHandshake\<close> and \<^verbatim>\<open>waitUpgrade\<close> are channel identities (a \<^verbatim>\<open>Send\<close> keeps the identity it has
  read while the client makes a new channel), so the record also has the set of closed channels.
  Transports and the parser are interfaces (\<^verbatim>\<open>dep.go\<close>) and arguments of the model: a transport is a
  reference, every call on it is appended to the trace \<open>ec_calls\<close>, and its answer may depend on the
  whole trace before it.
\<close>

section \<open>State\<close>

text \<open>An operation returns, panics, or waits forever on a channel.\<close>

datatype 'a run = Done 'a | Crash string | Stuck

fun run_bind :: "'a run \<Rightarrow> ('a \<Rightarrow> 'b run) \<Rightarrow> 'b run" where
  "run_bind (Done x) f = f x"
| "run_bind (Crash r) f = Crash r"
| "run_bind Stuck f = Stuck"

lemma run_bind_Done [simp]: "run_bind m f = Done y \<longleftrightarrow> (\<exists>x. m = Done x \<and> f x = Done y)"
  by (cases m) auto

lemma run_bind_Crash: "run_bind m f = Crash r \<longleftrightarrow> m = Crash r \<or> (\<exists>x. m = Done x \<and> f x = Crash r)"
  by (cases m) auto

abbreviation nil_deref :: string where
  "nil_deref \<equiv> ''invalid memory address or nil pointer dereference''"

text \<open>The calls of the \<^verbatim>\<open>Transport\<close> interface.\<close>

datatype tcall =
    TRun nat string
  | TRequestHandshake nat
  | TSetHandshake nat HandshakeResponse
  | TStop nat
  | TSendMessage nat bytes

text \<open>A \<^verbatim>\<open>chan error\<close> of capacity 1: what it holds, and whether it is closed.\<close>

record errchan =
  ch_buf :: "go_error option list"
  ch_closed :: bool

definition new_errchan :: errchan where
  "new_errchan = \<lparr>ch_buf = [], ch_closed = False\<rparr>"

text \<open>The handler calls the client has made: inline from the message loop, or in a goroutine.\<close>

datatype hcall = OnMessage nat bytes | OnClose nat | OnConnect nat

datatype loop_state = LoopIdle | LoopRunning | LoopExited

record eio_Client =
  ec_ctxErr :: "go_error option"
  ec_transport :: "nat option"
  ec_supportedTransports :: "(EngineIOTransport \<times> nat) list"
  ec_sid :: string
  ec_pingInterval :: "int64 option" \<comment> \<open>the period of the ticker\<close>
  ec_tickerStopped :: bool
  ec_pingTimeout :: int64
  ec_messageHandler :: "nat option"
  ec_closeHandler :: "nat option"
  ec_afterConnect :: "nat option"
  ec_waitUpgrade :: "nat option"
  ec_hadUpgrade :: bool
  ec_waitHandshake :: "nat option"
  ec_hadHandshake :: bool
  ec_transportClosed :: "errchan option"
  ec_messages :: "(bytes list \<times> bool) option" \<comment> \<open>the buffer, and whether it is closed\<close>
  ec_loop :: loop_state \<comment> \<open>\<^verbatim>\<open>messagesDone\<close> is closed when the loop exits\<close>
  ec_redactPayload :: bool
  ec_closedGates :: "nat list"
  ec_nextGate :: nat
  ec_calls :: "tcall list"
  ec_handled :: "hcall list"
  ec_log :: "log_line list"

record eio_Deps =
  ed_Parse :: "bytes \<Rightarrow> go_error + eio_Message"
  ed_Serialize :: "eio_Message \<Rightarrow> go_error + bytes"
  ed_Transport :: "nat \<Rightarrow> EngineIOTransport"
  ed_answer :: "tcall list \<Rightarrow> tcall \<Rightarrow> go_error option"
  ed_reports :: "tcall list \<Rightarrow> bool" \<comment> \<open>after a \<^verbatim>\<open>Stop\<close>: the transport reports on \<^verbatim>\<open>onClose\<close>\<close>

definition eio_log :: "log_level \<Rightarrow> string \<Rightarrow> string list \<Rightarrow> eio_Client \<Rightarrow> eio_Client" where
  "eio_log lv fmt args c = c\<lparr>ec_log := ec_log c @ [(lv, fmt, args)]\<rparr>"

definition eio_payload :: "eio_Client \<Rightarrow> bytes \<Rightarrow> string" where
  "eio_payload c data = render_payload (ec_redactPayload c) data"

section \<open>Channels and transports\<close>

definition call_transport :: "eio_Deps \<Rightarrow> tcall \<Rightarrow> eio_Client \<Rightarrow> eio_Client \<times> go_error option" where
  "call_transport d tc c = (c\<lparr>ec_calls := ec_calls c @ [tc]\<rparr>, ed_answer d (ec_calls c) tc)"

text \<open>
  \<^verbatim>\<open>Stop\<close>: a transport that accepts it reports the end of its loop on the \<^verbatim>\<open>onClose\<close> channel it was
  run with.
\<close>

definition stop_transport :: "eio_Deps \<Rightarrow> nat \<Rightarrow> eio_Client \<Rightarrow> eio_Client \<times> go_error option" where
  "stop_transport d t c =
     (case call_transport d (TStop t) c of
        (c', Some e) \<Rightarrow> (c', Some e)
      | (c', None) \<Rightarrow>
          (case ec_transportClosed c' of
             None \<Rightarrow> (c', None)
           | Some ch \<Rightarrow>
               if ed_reports d (ec_calls c') \<and> ch_buf ch = [] \<and> \<not> ch_closed ch
               then (c'\<lparr>ec_transportClosed := Some (ch\<lparr>ch_buf := [None]\<rparr>)\<rparr>, None)
               else (c', None)))"

text \<open>\<^verbatim>\<open><-c.transportClosed\<close>\<close>

definition recv_transportClosed :: "eio_Client \<Rightarrow> eio_Client run" where
  "recv_transportClosed c =
     (case ec_transportClosed c of
        None \<Rightarrow> Stuck
      | Some ch \<Rightarrow>
          (case ch_buf ch of
             _ # rest \<Rightarrow> Done (c\<lparr>ec_transportClosed := Some (ch\<lparr>ch_buf := rest\<rparr>)\<rparr>)
           | [] \<Rightarrow> if ch_closed ch then Done c else Stuck))"

definition close_transportClosed :: "eio_Client \<Rightarrow> eio_Client" where
  "close_transportClosed c =
     c\<lparr>ec_transportClosed := map_option (\<lambda>ch. ch\<lparr>ch_closed := True\<rparr>) (ec_transportClosed c)\<rparr>"

definition close_gate :: "nat option \<Rightarrow> eio_Client \<Rightarrow> eio_Client run" where
  "close_gate gate c =
     (case gate of
        None \<Rightarrow> Crash ''close of nil channel''
      | Some g \<Rightarrow>
          if g \<in> set (ec_closedGates c) then Crash ''close of closed channel''
          else Done (c\<lparr>ec_closedGates := g # ec_closedGates c\<rparr>))"

text \<open>\<^verbatim>\<open>c.hadHandshake.Do(func() { close(c.waitHandshake) })\<close>, and the same for the upgrade.\<close>

definition open_handshake_gate :: "eio_Client \<Rightarrow> eio_Client run" where
  "open_handshake_gate c =
     (if ec_hadHandshake c then Done c
      else close_gate (ec_waitHandshake c) (c\<lparr>ec_hadHandshake := True\<rparr>))"

definition open_upgrade_gate :: "eio_Client \<Rightarrow> eio_Client run" where
  "open_upgrade_gate c =
     (if ec_hadUpgrade c then Done c
      else close_gate (ec_waitUpgrade c) (c\<lparr>ec_hadUpgrade := True\<rparr>))"

definition new_upgrade_gate :: "eio_Client \<Rightarrow> eio_Client" where
  "new_upgrade_gate c =
     c\<lparr>ec_hadUpgrade := False, ec_waitUpgrade := Some (ec_nextGate c), ec_nextGate := Suc (ec_nextGate c)\<rparr>"

definition new_handshake_gate :: "eio_Client \<Rightarrow> eio_Client" where
  "new_handshake_gate c =
     c\<lparr>ec_hadHandshake := False, ec_waitHandshake := Some (ec_nextGate c), ec_nextGate := Suc (ec_nextGate c)\<rparr>"

section \<open>Packets\<close>

text \<open>\<^verbatim>\<open>c.transport\<close> is an interface: a method call on \<^verbatim>\<open>nil\<close> (after \<^verbatim>\<open>Close\<close>) panics.\<close>

definition eio_sendPacket ::
  "eio_Deps \<Rightarrow> eio_Message option \<Rightarrow> eio_Client \<Rightarrow> (eio_Client \<times> go_error option) run" where
  "eio_sendPacket d packet c =
     (case packet of
        None \<Rightarrow> Done (c, Some (ErrorNew ''no packet provided''))
      | Some p \<Rightarrow>
          (case ed_Serialize d p of
             Inl e \<Rightarrow> Done (c, Some e)
           | Inr msg \<Rightarrow>
               (case ec_transport c of
                  None \<Rightarrow> Crash nil_deref
                | Some t \<Rightarrow> Done (call_transport d (TSendMessage t msg) c))))"

definition packet_of :: "EngineIOPacket \<Rightarrow> bytes \<Rightarrow> eio_Message" where
  "packet_of ty data = \<lparr>eio_Force = None, eio_Type = ty, eio_Data = data\<rparr>"

definition failUpgrade :: "go_error \<Rightarrow> eio_Client \<Rightarrow> (eio_Client \<times> go_error option) run" where
  "failUpgrade e c = run_bind (open_upgrade_gate c) (\<lambda>c'. Done (c', Some e))"

definition transportUpgrade :: "eio_Deps \<Rightarrow> nat \<Rightarrow> eio_Client \<Rightarrow> (eio_Client \<times> go_error option) run" where
  "transportUpgrade d transport c0 =
     (let c = new_upgrade_gate c0 in
      case ec_transport c of
        None \<Rightarrow> Crash nil_deref
      | Some old \<Rightarrow>
          (case stop_transport d old c of
             (c, Some e) \<Rightarrow> failUpgrade e (eio_log LError ''stop transport: %s'' [] c)
           | (c, None) \<Rightarrow>
               run_bind (recv_transportClosed c) (\<lambda>c.
                 let c = c\<lparr>ec_transport := Some transport, ec_transportClosed := Some new_errchan\<rparr> in
                 case call_transport d (TRun transport (ec_sid c)) c of
                   (c, Some e) \<Rightarrow> failUpgrade e (eio_log LError ''run transport: %s'' [] (close_transportClosed c))
                 | (c, None) \<Rightarrow>
                     run_bind (eio_sendPacket d (Some (packet_of PacketPing (bytes_of_string ''probe''))) c)
                       (\<lambda>(c, err). case err of
                          None \<Rightarrow> Done (c, None)
                        | Some e \<Rightarrow> failUpgrade e c))))"

text \<open>\<^verbatim>\<open>time.Duration(n) * time.Millisecond\<close> on \<^verbatim>\<open>int64\<close>; a ticker refuses a period that is not positive.\<close>

definition milliseconds :: "int \<Rightarrow> int64" where
  "milliseconds n = word_of_int n * 1000000"

definition set_pingInterval :: "int \<Rightarrow> eio_Client \<Rightarrow> eio_Client run" where
  "set_pingInterval n c =
     (if n = 0 then Done c
      else if sint (milliseconds n) \<le> 0 then Crash ''non-positive interval for ticker''
      else Done (c\<lparr>ec_pingInterval := Some (milliseconds n), ec_tickerStopped := False\<rparr>))"

definition set_pingTimeout :: "int \<Rightarrow> eio_Client \<Rightarrow> eio_Client" where
  "set_pingTimeout n c = (if n = 0 then c else c\<lparr>ec_pingTimeout := milliseconds n\<rparr>)"

definition announce_handshake :: "HandshakeResponse \<Rightarrow> eio_Client \<Rightarrow> eio_Client" where
  "announce_handshake hs c =
     c\<lparr>ec_calls := ec_calls c @ map (\<lambda>(_, t). TSetHandshake t hs) (ec_supportedTransports c), ec_sid := hs_Sid hs\<rparr>"

text \<open>The loop over the offered upgrades; it stops at the current transport or after one attempt.\<close>

fun upgrade_loop :: "eio_Deps \<Rightarrow> string list \<Rightarrow> eio_Client \<Rightarrow> (eio_Client \<times> go_error option) run" where
  "upgrade_loop d [] c = Done (c, None)"
| "upgrade_loop d (name # names) c =
     (case ec_transport c of
        None \<Rightarrow> Crash nil_deref
      | Some t \<Rightarrow>
          if ed_Transport d t = name then Done (c, None)
          else (case map_of (ec_supportedTransports c) name of
                  Some newTransport \<Rightarrow> transportUpgrade d newTransport c
                | None \<Rightarrow> upgrade_loop d names (eio_log LWarn ''unsupported upgrade: %s'' [name] c)))"

definition run_afterConnect :: "eio_Client \<Rightarrow> eio_Client" where
  "run_afterConnect c =
     (case ec_afterConnect c of None \<Rightarrow> c | Some h \<Rightarrow> c\<lparr>ec_handled := ec_handled c @ [OnConnect h]\<rparr>)"

definition handleHandshake :: "eio_Deps \<Rightarrow> bytes \<Rightarrow> eio_Client \<Rightarrow> (eio_Client \<times> go_error option) run" where
  "handleHandshake d data c0 =
     (let c = eio_log LDebug ''apply handshake: %s'' [eio_payload c0 data] c0 in
      case unmarshal_handshake data of
        Inl e \<Rightarrow> Done (c, Some e)
      | Inr hs \<Rightarrow>
          if hs_Sid hs = [] then Done (c, Some (ErrorFmt ''handshake error: no sid'' []))
          else
            run_bind (set_pingInterval (hs_PingInterval hs) (announce_handshake hs c)) (\<lambda>c.
            run_bind (upgrade_loop d (hs_Upgrades hs) (set_pingTimeout (hs_PingTimeout hs) c)) (\<lambda>(c, err).
            run_bind (open_handshake_gate c) (\<lambda>c.
            case err of
              Some e \<Rightarrow> Done (c, Some e)
            | None \<Rightarrow> Done (run_afterConnect c, None)))))"

definition handlePong :: "eio_Deps \<Rightarrow> bytes \<Rightarrow> eio_Client \<Rightarrow> (eio_Client \<times> go_error option) run" where
  "handlePong d data c =
     (if data = bytes_of_string ''probe'' then
        run_bind (eio_sendPacket d (Some (packet_of PacketUpgrade [])) c) (\<lambda>(c, err).
        run_bind (open_upgrade_gate c) (\<lambda>c.
        case err of
          Some e \<Rightarrow> Done (eio_log LError ''send upgrade error: %s'' [] c, Some e)
        | None \<Rightarrow> Done (eio_log LDebug ''Protocol upgraded'' [] c, None)))
      else Done (c, None))"

definition handlePacket :: "eio_Deps \<Rightarrow> bytes \<Rightarrow> eio_Client \<Rightarrow> (eio_Client \<times> go_error option) run" where
  "handlePacket d packetData c0 =
     (let c = eio_log LDebug ''handle packet: %s'' [eio_payload c0 packetData] c0 in
      case ed_Parse d packetData of
        Inl e \<Rightarrow> Done (eio_log LError ''Can't parse packet: %s %v'' [string_of_bytes packetData] c, Some e)
      | Inr packet \<Rightarrow>
          let c = eio_log LDebug ''handle: %d %s'' [eio_payload c (eio_Data packet)] c in
          if eio_Type packet = PacketOpen then
            run_bind (handleHandshake d (eio_Data packet) c) (\<lambda>(c, err).
            case err of
              Some e \<Rightarrow> Done (eio_log LError ''handle handshake error: %s'' [] c, Some e)
            | None \<Rightarrow> Done (c, None))
          else if eio_Type packet = PacketClose then
            (case ec_closeHandler c of
               None \<Rightarrow> Done (c, None)
             | Some h \<Rightarrow> Done (c\<lparr>ec_handled := ec_handled c @ [OnClose h]\<rparr>, None))
          else if eio_Type packet = PacketPing then
            run_bind (eio_sendPacket d (Some (packet_of PacketPong [])) c) (\<lambda>(c, err).
            case err of
              Some e \<Rightarrow> Done (eio_log LError ''send ping error: %s'' [] c, Some e)
            | None \<Rightarrow> Done (c, None))
          else if eio_Type packet = PacketPong then handlePong d (eio_Data packet) c
          else if eio_Type packet = PacketMessage then
            (case ec_messageHandler c of
               None \<Rightarrow> Done (c, None)
             | Some h \<Rightarrow> Done (c\<lparr>ec_handled := ec_handled c @ [OnMessage h (eio_Data packet)]\<rparr>, None))
          else Done (c, None))"

section \<open>Connecting, receiving, closing\<close>

text \<open>\<^verbatim>\<open>Connect\<close> up to its last wait: in the error case it then waits for the message loop to exit.\<close>

definition close_messages :: "eio_Client \<Rightarrow> eio_Client run" where
  "close_messages c =
     (case ec_messages c of
        None \<Rightarrow> Crash ''close of nil channel''
      | Some (_, True) \<Rightarrow> Crash ''close of closed channel''
      | Some (buf, False) \<Rightarrow> Done (c\<lparr>ec_messages := Some (buf, True)\<rparr>))"

definition eio_Connect :: "eio_Deps \<Rightarrow> go_error option \<Rightarrow> eio_Client \<Rightarrow> (eio_Client \<times> go_error option) run" where
  "eio_Connect d ctxErr c0 =
     (let c = c0\<lparr>ec_ctxErr := ctxErr, ec_messages := Some ([], False), ec_transportClosed := Some new_errchan\<rparr> in
      case ec_transport c of
        None \<Rightarrow> Crash nil_deref
      | Some t \<Rightarrow>
          (case call_transport d (TRun t (ec_sid c)) c of
             (c, Some e) \<Rightarrow> Done (close_transportClosed c, Some e)
           | (c, None) \<Rightarrow>
               (case call_transport d (TRequestHandshake t) (new_handshake_gate (c\<lparr>ec_loop := LoopRunning\<rparr>)) of
                  (c, None) \<Rightarrow> Done (c, None)
                | (c, Some e) \<Rightarrow>
                    run_bind (recv_transportClosed (fst (stop_transport d t c))) (\<lambda>c.
                    run_bind (close_messages c) (\<lambda>c. Done (c, Some e))))))"

text \<open>One turn of \<^verbatim>\<open>messageLoop\<close>: a message, the closed channel, or the end of the context.\<close>

definition loop_message :: "eio_Deps \<Rightarrow> eio_Client \<Rightarrow> eio_Client run" where
  "loop_message d c =
     (case ec_messages c of
        Some (message # rest, closed) \<Rightarrow>
          run_bind (handlePacket d message (c\<lparr>ec_messages := Some (rest, closed)\<rparr>)) (\<lambda>(c, err).
          case err of
            None \<Rightarrow> Done c
          | Some e \<Rightarrow> Done (eio_log LError ''handle packet error: %s'' [] c))
      | Some ([], True) \<Rightarrow> Done (c\<lparr>ec_loop := LoopExited\<rparr>)
      | Some ([], False) \<Rightarrow> Stuck
      | None \<Rightarrow> Done (eio_log LError ''messages channel is nil, can't read transport messages'' []
                        (c\<lparr>ec_loop := LoopExited\<rparr>)))"

definition loop_ctxDone :: "eio_Client \<Rightarrow> eio_Client" where
  "loop_ctxDone c =
     eio_log LWarn ''context done, engine.io client stopped processing messages'' [] (c\<lparr>ec_loop := LoopExited\<rparr>)"

definition eio_On :: "string \<Rightarrow> nat \<Rightarrow> eio_Client \<Rightarrow> eio_Client" where
  "eio_On event handler c =
     (if event = ''connect'' then c\<lparr>ec_afterConnect := Some handler\<rparr>
      else if event = ''message'' then c\<lparr>ec_messageHandler := Some handler\<rparr>
      else if event = ''close'' then c\<lparr>ec_closeHandler := Some handler\<rparr>
      else c)"

text \<open>
  \<^verbatim>\<open>Close\<close> in two parts: the part under the lock with the ticker, and the teardown of the transport
  up to the wait for the message loop. The first returns the transport to tear down.
\<close>

definition close_begin :: "eio_Client \<Rightarrow> eio_Client \<times> nat option" where
  "close_begin c =
     (c\<lparr>ec_transport := None, ec_tickerStopped := ec_tickerStopped c \<or> ec_pingInterval c \<noteq> None\<rparr>, ec_transport c)"

definition close_transport :: "eio_Deps \<Rightarrow> nat \<Rightarrow> eio_Client \<Rightarrow> (eio_Client \<times> go_error option) run" where
  "close_transport d t c =
     (case stop_transport d t c of
        (c, Some e) \<Rightarrow> Done (c, Some e)
      | (c, None) \<Rightarrow>
          run_bind (if ec_transportClosed c = None then Done c else recv_transportClosed c) (\<lambda>c.
          run_bind (if ec_messages c = None then Done c else close_messages c) (\<lambda>c. Done (c, None))))"

definition eio_Close :: "eio_Deps \<Rightarrow> eio_Client \<Rightarrow> (eio_Client \<times> go_error option) run" where
  "eio_Close d c =
     (case close_begin c of
        (c, None) \<Rightarrow> Done (c, None)
      | (c, Some t) \<Rightarrow> close_transport d t c)"

section \<open>Sending\<close>

text \<open>
  \<^verbatim>\<open>Send\<close> is a goroutine of the application with three points where others may run: it takes a
  snapshot of both gates, waits for each of them in turn, then reads the transport and writes.
\<close>

definition gate_open :: "eio_Client \<Rightarrow> nat option \<Rightarrow> bool" where
  "gate_open c g = (case g of None \<Rightarrow> True | Some i \<Rightarrow> i \<in> set (ec_closedGates c))"

definition send_finish :: "eio_Deps \<Rightarrow> bytes \<Rightarrow> eio_Client \<Rightarrow> eio_Client \<times> go_error option" where
  "send_finish d message c =
     (case ec_transport c of
        None \<Rightarrow> (c, Some (ErrorNew ''client is closed''))
      | Some t \<Rightarrow>
          (case ed_Serialize d (packet_of PacketMessage message) of
             Inl e \<Rightarrow> (c, Some e)
           | Inr msg \<Rightarrow> call_transport d (TSendMessage t msg) c))"

end
