(* ===== verification/EngineIO_Gates.thy ===== *)
theory EngineIO_Gates
  imports EngineIO_Client
begin

text \<open>
  The Engine.IO client under concurrency: the application's goroutines (\<^verbatim>\<open>Connect\<close>, \<^verbatim>\<open>Send\<close>, \<^verbatim>\<open>On\<close>,
  \<^verbatim>\<open>Close\<close>), the message loop and the arrival of packets interleave in any order; a packet is handled
  in one step. The invariant ties each gate to its \<^verbatim>\<open>sync.Once\<close>.
\<close>

section \<open>Steps\<close>

text \<open>A \<^verbatim>\<open>Send\<close> in flight, with the gates it has read.\<close>

record send =
  s_message :: bytes
  s_wh :: "nat option"
  s_wu :: "nat option"

record eio_world =
  w_client :: eio_Client
  w_sends :: "send list"
  w_closing :: "nat option" \<comment> \<open>the transport a \<^verbatim>\<open>Close\<close> has taken and not yet torn down\<close>
  w_results :: "(send \<times> go_error option) list"

definition send_begin :: "bytes \<Rightarrow> eio_Client \<Rightarrow> send" where
  "send_begin message c = \<lparr>s_message = message, s_wh = ec_waitHandshake c, s_wu = ec_waitUpgrade c\<rparr>"

definition arrive :: "bytes \<Rightarrow> eio_Client \<Rightarrow> eio_Client option" where
  "arrive packet c =
     (case ec_messages c of
        Some (buf, False) \<Rightarrow> if length buf < 100 then Some (c\<lparr>ec_messages := Some (buf @ [packet], False)\<rparr>) else None
      | _ \<Rightarrow> None)"

inductive eio_step :: "eio_Deps \<Rightarrow> eio_world \<Rightarrow> eio_world \<Rightarrow> bool" for d :: eio_Deps where
  e_connect: "ec_loop (w_client w) = LoopIdle \<Longrightarrow> eio_Connect d ctx (w_client w) = Done (c', e) \<Longrightarrow>
     eio_step d w (w\<lparr>w_client := c'\<rparr>)"
| e_arrive: "arrive packet (w_client w) = Some c' \<Longrightarrow> eio_step d w (w\<lparr>w_client := c'\<rparr>)"
| e_loop: "ec_loop (w_client w) = LoopRunning \<Longrightarrow> loop_message d (w_client w) = Done c' \<Longrightarrow>
     eio_step d w (w\<lparr>w_client := c'\<rparr>)"
| e_ctx: "ec_loop (w_client w) = LoopRunning \<Longrightarrow> ec_ctxErr (w_client w) \<noteq> None \<Longrightarrow>
     eio_step d w (w\<lparr>w_client := loop_ctxDone (w_client w)\<rparr>)"
| e_cancel: "eio_step d w (w\<lparr>w_client := (w_client w)\<lparr>ec_ctxErr := Some e\<rparr>\<rparr>)"
| e_on: "eio_step d w (w\<lparr>w_client := eio_On event h (w_client w)\<rparr>)"
| e_send_begin: "eio_step d w (w\<lparr>w_sends := w_sends w @ [send_begin message (w_client w)]\<rparr>)"
| e_send_finish: "w_sends w = xs @ s # ys \<Longrightarrow> gate_open (w_client w) (s_wh s) \<Longrightarrow> gate_open (w_client w) (s_wu s) \<Longrightarrow>
     send_finish d (s_message s) (w_client w) = (c', e) \<Longrightarrow>
     eio_step d w (w\<lparr>w_client := c', w_sends := xs @ ys, w_results := w_results w @ [(s, e)]\<rparr>)"
| e_close_begin: "close_begin (w_client w) = (c', t) \<Longrightarrow> w_closing w = None \<Longrightarrow>
     eio_step d w (w\<lparr>w_client := c', w_closing := t\<rparr>)"
| e_close_transport: "w_closing w = Some t \<Longrightarrow> close_transport d t (w_client w) = Done (c', e) \<Longrightarrow>
     eio_step d w (w\<lparr>w_client := c', w_closing := None\<rparr>)"

definition eio_init :: "eio_world \<Rightarrow> bool" where
  "eio_init w \<longleftrightarrow>
     w_sends w = [] \<and> w_closing w = None \<and> w_results w = [] \<and>
     ec_waitHandshake (w_client w) = None \<and> ec_waitUpgrade (w_client w) = None \<and>
     \<not> ec_hadHandshake (w_client w) \<and> \<not> ec_hadUpgrade (w_client w) \<and>
     ec_closedGates (w_client w) = [] \<and> ec_loop (w_client w) = LoopIdle \<and> ec_calls (w_client w) = []"

section \<open>The gate invariant\<close>

definition gate_once :: "eio_Client \<Rightarrow> nat option \<Rightarrow> bool \<Rightarrow> bool" where
  "gate_once c gate done \<longleftrightarrow>
     (case gate of None \<Rightarrow> \<not> done | Some g \<Rightarrow> g < ec_nextGate c \<and> (done \<longleftrightarrow> g \<in> set (ec_closedGates c)))"

definition gates_ok :: "eio_Client \<Rightarrow> bool" where
  "gates_ok c \<longleftrightarrow>
     (\<forall>g \<in> set (ec_closedGates c). g < ec_nextGate c) \<and>
     gate_once c (ec_waitHandshake c) (ec_hadHandshake c) \<and>
     gate_once c (ec_waitUpgrade c) (ec_hadUpgrade c) \<and>
     (ec_waitHandshake c = None \<or> ec_waitHandshake c \<noteq> ec_waitUpgrade c)"

text \<open>What the invariant reads.\<close>

definition gview ::
  "eio_Client \<Rightarrow> nat option \<times> bool \<times> nat option \<times> bool \<times> nat list \<times> nat" where
  "gview c = (ec_waitHandshake c, ec_hadHandshake c, ec_waitUpgrade c, ec_hadUpgrade c, ec_closedGates c, ec_nextGate c)"

lemma gates_ok_gview: "gview c' = gview c \<Longrightarrow> gates_ok c' = gates_ok c"
  by (auto simp: gates_ok_def gate_once_def gview_def split: option.splits)

lemma gates_ok_transfer: "gates_ok c \<Longrightarrow> gview c' = gview c \<Longrightarrow> gates_ok c'"
  using gates_ok_gview by blast

lemma gate_open_gview: "gview c' = gview c \<Longrightarrow> gate_open c' = gate_open c"
  by (rule ext) (auto simp: gview_def gate_open_def split: option.splits)

named_theorems gview_simps \<open>operations that leave the gates alone\<close>

lemma gview_updates [gview_simps, simp]:
  "gview (eio_log lv fmt as c) = gview c"
  "gview (c\<lparr>ec_calls := x1\<rparr>) = gview c"
  "gview (c\<lparr>ec_handled := x2\<rparr>) = gview c"
  "gview (c\<lparr>ec_messages := x3\<rparr>) = gview c"
  "gview (c\<lparr>ec_transport := x4\<rparr>) = gview c"
  "gview (c\<lparr>ec_transportClosed := x5\<rparr>) = gview c"
  "gview (c\<lparr>ec_loop := x6\<rparr>) = gview c"
  "gview (c\<lparr>ec_ctxErr := x7\<rparr>) = gview c"
  "gview (c\<lparr>ec_tickerStopped := x8\<rparr>) = gview c"
  "gview (c\<lparr>ec_sid := x9\<rparr>) = gview c"
  "gview (close_transportClosed c) = gview c"
  "gview (eio_On ev h c) = gview c"
  "gview (run_afterConnect c) = gview c"
  "gview (announce_handshake hs c) = gview c"
  "gview (set_pingTimeout n c) = gview c"
  "gview (fst (call_transport d tc c)) = gview c"
  by (simp_all add: gview_def eio_log_def close_transportClosed_def eio_On_def run_afterConnect_def
      announce_handshake_def set_pingTimeout_def call_transport_def split: option.splits)

lemma stop_transport_gview [simp]: "gview (fst (stop_transport d t c)) = gview c"
  by (simp add: stop_transport_def call_transport_def split: prod.splits option.splits)

lemma recv_gview: "recv_transportClosed c = Done c' \<Longrightarrow> gview c' = gview c"
  by (auto simp: recv_transportClosed_def split: option.splits list.splits if_splits)

lemma eio_sendPacket_gview: "eio_sendPacket d p c = Done (c', e) \<Longrightarrow> gview c' = gview c"
  by (auto simp: eio_sendPacket_def call_transport_def split: option.splits sum.splits)

lemma set_pingInterval_gview: "set_pingInterval n c = Done c' \<Longrightarrow> gview c' = gview c"
  by (auto simp: set_pingInterval_def gview_def split: if_splits)

lemma close_messages_gview: "close_messages c = Done c' \<Longrightarrow> gview c' = gview c"
  by (auto simp: close_messages_def split: option.splits prod.splits bool.splits)

subsection \<open>Opening and making gates\<close>

lemma open_handshake_gate_ok:
  assumes "gates_ok c" and "open_handshake_gate c = Done c'"
  shows "gates_ok c'" and "gate_open c' (ec_waitHandshake c')" and "ec_waitHandshake c' = ec_waitHandshake c"
    and "ec_waitUpgrade c' = ec_waitUpgrade c" and "gate_open c (ec_waitUpgrade c) \<Longrightarrow> gate_open c' (ec_waitUpgrade c')"
  using assms
  by (auto simp: open_handshake_gate_def close_gate_def gates_ok_def gate_once_def gate_open_def
      split: if_splits option.splits)

lemma open_upgrade_gate_ok:
  assumes "gates_ok c" and "open_upgrade_gate c = Done c'"
  shows "gates_ok c'" and "gate_open c' (ec_waitUpgrade c')" and "ec_waitHandshake c' = ec_waitHandshake c"
    and "ec_waitUpgrade c' = ec_waitUpgrade c"
  using assms
  by (auto simp: open_upgrade_gate_def close_gate_def gates_ok_def gate_once_def gate_open_def
      split: if_splits option.splits)

lemma open_gate_total:
  "gates_ok c \<Longrightarrow> ec_waitHandshake c \<noteq> None \<Longrightarrow> \<exists>c'. open_handshake_gate c = Done c'"
  "gates_ok c \<Longrightarrow> ec_waitUpgrade c \<noteq> None \<Longrightarrow> \<exists>c'. open_upgrade_gate c = Done c'"
  by (auto simp: open_handshake_gate_def open_upgrade_gate_def close_gate_def gates_ok_def gate_once_def)

lemma new_gate_ok: "gates_ok c \<Longrightarrow> gates_ok (new_upgrade_gate c)" "gates_ok c \<Longrightarrow> gates_ok (new_handshake_gate c)"
  by (auto simp: gates_ok_def gate_once_def new_upgrade_gate_def new_handshake_gate_def split: option.splits)

subsection \<open>The operations keep the invariant\<close>

lemma failUpgrade_ok:
  assumes "failUpgrade e c = Done (c', e')" and "gates_ok c"
  shows "gates_ok c'" and "gate_open c' (ec_waitUpgrade c')" and "ec_waitHandshake c' = ec_waitHandshake c" and "e' = Some e"
  using assms open_upgrade_gate_ok [OF assms(2)] by (auto simp: failUpgrade_def)

text \<open>What an attempt to upgrade leaves behind.\<close>

definition upgraded :: "eio_Client \<Rightarrow> eio_Client \<Rightarrow> go_error option \<Rightarrow> bool" where
  "upgraded c c' err \<longleftrightarrow> gates_ok c' \<and> ec_waitHandshake c' = ec_waitHandshake c \<and>
     (err \<noteq> None \<longrightarrow> gate_open c' (ec_waitUpgrade c'))"

lemma failUpgrade_upgraded:
  "failUpgrade e c1 = Done (c', err) \<Longrightarrow> gates_ok c1 \<Longrightarrow> ec_waitHandshake c1 = ec_waitHandshake c \<Longrightarrow> upgraded c c' err"
  using failUpgrade_ok [of e c1 c' err] by (simp add: upgraded_def)

lemma gview_ok: "gview c' = gview c \<Longrightarrow> gates_ok c \<Longrightarrow> gates_ok c' \<and> ec_waitHandshake c' = ec_waitHandshake c \<and> ec_waitUpgrade c' = ec_waitUpgrade c"
  using gates_ok_gview [of c' c] by (simp add: gview_def)

lemma transportUpgrade_ok:
  assumes "transportUpgrade d t c = Done (c', err)" and "gates_ok c"
  shows "upgraded c c' err"
proof -
  let ?c0 = "new_upgrade_gate c"
  have c0: "gates_ok ?c0" "ec_waitHandshake ?c0 = ec_waitHandshake c"
    using new_gate_ok(1) [OF assms(2)] by (simp_all add: new_upgrade_gate_def)
  have good: "gates_ok x \<and> ec_waitHandshake x = ec_waitHandshake c" if "gview x = gview ?c0" for x
    using gview_ok [OF that c0(1)] c0(2) by simp
  obtain old where old: "ec_transport ?c0 = Some old"
    using assms(1) by (auto simp: transportUpgrade_def Let_def split: option.splits)
  obtain c1 r1 where st: "stop_transport d old ?c0 = (c1, r1)" by fastforce
  with stop_transport_gview [of d old ?c0] have g1: "gview c1 = gview ?c0" by simp
  show ?thesis
  proof (cases r1)
    case (Some e)
    then have "failUpgrade e (eio_log LError ''stop transport: %s'' [] c1) = Done (c', err)"
      using assms(1) old st by (simp add: transportUpgrade_def Let_def)
    then show ?thesis using good [of "eio_log LError ''stop transport: %s'' [] c1"] g1
      by (auto intro: failUpgrade_upgraded)
  next
    case None
    then obtain c2 where rc: "recv_transportClosed c1 = Done c2"
      using assms(1) old st by (auto simp: transportUpgrade_def Let_def)
    let ?c2 = "c2\<lparr>ec_transport := Some t, ec_transportClosed := Some new_errchan\<rparr>"
    obtain c3 r3 where run: "call_transport d (TRun t (ec_sid ?c2)) ?c2 = (c3, r3)" by fastforce
    have g3: "gview c3 = gview ?c0"
      using recv_gview [OF rc] g1 run gview_updates(16) [of d "TRun t (ec_sid ?c2)" ?c2] by simp
    show ?thesis
    proof (cases r3)
      case (Some e)
      then have "failUpgrade e (eio_log LError ''run transport: %s'' [] (close_transportClosed c3)) = Done (c', err)"
        using assms(1) old st None rc run by (simp add: transportUpgrade_def Let_def)
      then show ?thesis using good [of "eio_log LError ''run transport: %s'' [] (close_transportClosed c3)"] g3
        by (auto intro: failUpgrade_upgraded)
    next
      case r3: None
      obtain c4 r4 where sp: "eio_sendPacket d (Some (packet_of PacketPing (bytes_of_string ''probe''))) c3 = Done (c4, r4)"
        and rest: "(case r4 of None \<Rightarrow> Done (c4, None) | Some e \<Rightarrow> failUpgrade e c4) = Done (c', err)"
        using assms(1) old st None rc run r3 by (auto simp: transportUpgrade_def Let_def split: prod.splits)
      have "gview c4 = gview ?c0" using eio_sendPacket_gview [OF sp] g3 by simp
      with good [of c4] have c4: "gates_ok c4" "ec_waitHandshake c4 = ec_waitHandshake c" by simp_all
      show ?thesis
      proof (cases r4)
        case None
        with rest c4 show ?thesis by (simp add: upgraded_def)
      next
        case (Some e)
        with rest c4 show ?thesis by (auto intro: failUpgrade_upgraded)
      qed
    qed
  qed
qed

lemma upgrade_loop_ok:
  "upgrade_loop d names c = Done (c', err) \<Longrightarrow> gates_ok c \<Longrightarrow> upgraded c c' err"
proof (induction d names c rule: upgrade_loop.induct)
  case (2 d name names c)
  let ?l = "eio_log LWarn ''unsupported upgrade: %s'' [name] c"
  have "gates_ok ?l" "ec_waitHandshake ?l = ec_waitHandshake c" using gview_ok [of ?l c] "2.prems"(2) by simp_all
  with 2 show ?case
    by (auto simp: upgraded_def split: option.splits if_splits dest!: transportUpgrade_ok)
qed (simp add: upgraded_def)

lemma handleHandshake_elim:
  assumes "handleHandshake d data c = Done (c', err)"
  obtains (refused) e where "err = Some e" "c' = eio_log LDebug ''apply handshake: %s'' [eio_payload c data] c"
      "\<nexists>hs. unmarshal_handshake data = Inr hs \<and> hs_Sid hs \<noteq> []"
  | (applied) hs c1 c2 c3 where "unmarshal_handshake data = Inr hs" "hs_Sid hs \<noteq> []"
      "set_pingInterval (hs_PingInterval hs) (announce_handshake hs (eio_log LDebug ''apply handshake: %s'' [eio_payload c data] c)) = Done c1"
      "upgrade_loop d (hs_Upgrades hs) (set_pingTimeout (hs_PingTimeout hs) c1) = Done (c2, err)"
      "open_handshake_gate c2 = Done c3" "c' = (if err = None then run_afterConnect c3 else c3)"
  using assms
  by (auto simp: handleHandshake_def Let_def split: sum.splits if_splits option.splits)

lemma handleHandshake_cases:
  assumes "handleHandshake d data c = Done (c', err)" and "gates_ok c"
    and "unmarshal_handshake data = Inr hs" and "hs_Sid hs \<noteq> []"
  shows "gates_ok c' \<and> ec_waitHandshake c' = ec_waitHandshake c \<and> gate_open c' (ec_waitHandshake c') \<and>
    (err \<noteq> None \<longrightarrow> gate_open c' (ec_waitUpgrade c'))"
proof -
  let ?c0 = "announce_handshake hs (eio_log LDebug ''apply handshake: %s'' [eio_payload c data] c)"
  obtain c1 c2 c3 where pi: "set_pingInterval (hs_PingInterval hs) ?c0 = Done c1"
    and ul: "upgrade_loop d (hs_Upgrades hs) (set_pingTimeout (hs_PingTimeout hs) c1) = Done (c2, err)"
    and og: "open_handshake_gate c2 = Done c3" and c': "c' = (if err = None then run_afterConnect c3 else c3)"
    using handleHandshake_elim [OF assms(1)] assms(3,4) by (metis Inr_inject)
  have "gview (set_pingTimeout (hs_PingTimeout hs) c1) = gview c" using set_pingInterval_gview [OF pi] by simp
  then have c1: "gates_ok (set_pingTimeout (hs_PingTimeout hs) c1)"
    "ec_waitHandshake (set_pingTimeout (hs_PingTimeout hs) c1) = ec_waitHandshake c"
    using gview_ok [of _ c] assms(2) by blast+
  from upgrade_loop_ok [OF ul c1(1)] c1(2) have c2: "gates_ok c2" "ec_waitHandshake c2 = ec_waitHandshake c"
    "err \<noteq> None \<longrightarrow> gate_open c2 (ec_waitUpgrade c2)" by (auto simp: upgraded_def)
  have g: "gview c' = gview c3" using c' by simp
  note c3 = open_handshake_gate_ok [OF c2(1) og]
  have eq: "ec_waitHandshake c' = ec_waitHandshake c3" "ec_waitUpgrade c' = ec_waitUpgrade c3"
    using g by (simp_all add: gview_def)
  show ?thesis
    using gates_ok_transfer [OF c3(1) g] c3(2-5) c2(2,3) unfolding eq gate_open_gview [OF g] by simp
qed

lemma handleHandshake_ok: "handleHandshake d data c = Done (c', err) \<Longrightarrow> gates_ok c \<Longrightarrow> gates_ok c'"
proof (cases "\<exists>hs. unmarshal_handshake data = Inr hs \<and> hs_Sid hs \<noteq> []")
  case False
  assume "handleHandshake d data c = Done (c', err)" "gates_ok c"
  with False gates_ok_gview [of "eio_log LDebug ''apply handshake: %s'' [eio_payload c data] c" c] show ?thesis
    by (auto simp: handleHandshake_def Let_def split: sum.splits if_splits)
qed (use handleHandshake_cases in blast)

lemma handlePong_ok:
  assumes "handlePong d data c = Done (c', err)" and "gates_ok c"
  shows "gates_ok c'"
proof (cases "data = bytes_of_string ''probe''")
  case True
  with assms(1) obtain c1 e c2 where sp: "eio_sendPacket d (Some (packet_of PacketUpgrade [])) c = Done (c1, e)"
    and og: "open_upgrade_gate c1 = Done c2" and g: "gview c' = gview c2"
    by (auto simp: handlePong_def split: option.splits)
  have "gates_ok c1" using eio_sendPacket_gview [OF sp] assms(2) gates_ok_gview by blast
  then show ?thesis using open_upgrade_gate_ok(1) [OF _ og] gates_ok_gview [OF g] by simp
qed (use assms in \<open>simp add: handlePong_def\<close>)

lemma handlePacket_ok:
  assumes "handlePacket d data c = Done (c', err)" and "gates_ok c"
  shows "gates_ok c'"
proof (cases "ed_Parse d data")
  case (Inl e)
  then have "gview c' = gview c" using assms(1) by (auto simp: handlePacket_def Let_def)
  with assms(2) show ?thesis by (rule gates_ok_transfer)
next
  case (Inr packet)
  define c1 where "c1 = (let c0 = eio_log LDebug ''handle packet: %s'' [eio_payload c data] c in
    eio_log LDebug ''handle: %d %s'' [eio_payload c0 (eio_Data packet)] c0)"
  have "gview c1 = gview c" by (simp add: c1_def Let_def)
  with assms(2) have c1: "gates_ok c1" using gates_ok_gview by blast
  have same: "gview c' = gview c1 \<Longrightarrow> ?thesis" using c1 gates_ok_gview by blast
  note hp = assms(1) [unfolded handlePacket_def Let_def, simplified Inr sum.case, folded c1_def [unfolded Let_def]]
  consider (handshake) "eio_Type packet = PacketOpen" | (ping) "eio_Type packet = PacketPing"
    | (pong) "eio_Type packet = PacketPong"
    | (other) "eio_Type packet \<noteq> PacketOpen" "eio_Type packet \<noteq> PacketPing" "eio_Type packet \<noteq> PacketPong" by blast
  then show ?thesis
  proof cases
    case handshake
    then obtain c2 e where "handleHandshake d (eio_Data packet) c1 = Done (c2, e)" "gview c' = gview c2"
      using hp by (auto split: option.splits)
    then show ?thesis using handleHandshake_ok c1 gates_ok_gview by blast
  next
    case ping
    then show ?thesis using hp same by (auto split: option.splits dest!: eio_sendPacket_gview)
  next
    case pong
    then show ?thesis using hp handlePong_ok c1 by auto
  next
    case other
    then show ?thesis using hp same by (auto split: option.splits if_splits)
  qed
qed

lemma loop_message_ok:
  assumes "loop_message d c = Done c'" and "gates_ok c"
  shows "gates_ok c'"
proof (cases "\<exists>m rest closed. ec_messages c = Some (m # rest, closed)")
  case True
  then obtain m rest closed c1 e where "handlePacket d m (c\<lparr>ec_messages := Some (rest, closed)\<rparr>) = Done (c1, e)"
    "gview c' = gview c1"
    using assms(1) by (auto simp: loop_message_def split: option.splits)
  then show ?thesis using handlePacket_ok assms(2) gates_ok_gview gview_updates(4) by metis
next
  case False
  then have "gview c' = gview c"
    using assms(1) by (auto simp: loop_message_def split: option.splits prod.splits list.splits bool.splits)
  with assms(2) show ?thesis using gates_ok_gview by blast
qed

lemma eio_Connect_ok:
  assumes "eio_Connect d ctx c = Done (c', e)" and "gates_ok c"
  shows "gates_ok c'"
proof -
  have "gview c' = gview c \<or> gview c' = gview (new_handshake_gate c)"
  proof -
    have ng: "gview (new_handshake_gate x) = gview (new_handshake_gate c)" if "gview x = gview c" for x
      using that by (simp add: gview_def new_handshake_gate_def)
    show ?thesis
      using assms(1)
      by (auto simp: eio_Connect_def Let_def call_transport_def split: option.splits
          dest!: close_messages_gview recv_gview intro!: ng)
  qed
  then show ?thesis using assms(2) new_gate_ok(2) gates_ok_gview by blast
qed

lemma send_finish_gview: "gview (fst (send_finish d m c)) = gview c"
  by (simp add: send_finish_def split: option.splits sum.splits)

lemma close_transport_gview:
  assumes "close_transport d t c = Done (c', e)"
  shows "gview c' = gview c"
proof -
  obtain c1 r where st: "stop_transport d t c = (c1, r)" by fastforce
  with stop_transport_gview [of d t c] have "gview c1 = gview c" by simp
  moreover have "gview c' = gview c1"
    using assms st
    by (auto simp: close_transport_def split: option.splits if_splits dest!: close_messages_gview recv_gview)
  ultimately show ?thesis by simp
qed

lemma arrive_gview: "arrive p c = Some c' \<Longrightarrow> gview c' = gview c"
  by (auto simp: arrive_def split: option.splits prod.splits bool.splits if_splits)

lemma close_begin_gview: "gview (fst (close_begin c)) = gview c"
  by (simp add: close_begin_def)

lemma eio_step_gview:
  "eio_step d w w' \<Longrightarrow> gates_ok (w_client w) \<Longrightarrow> gates_ok (w_client w')"
proof (induction rule: eio_step.induct)
  case (e_connect w ctx c' e)
  then show ?case by (auto intro: eio_Connect_ok)
next
  case (e_loop w c')
  then show ?case by (auto intro: loop_message_ok)
next
  case (e_send_finish w xs s ys c' e)
  then have "gview c' = gview (w_client w)" using send_finish_gview [of d "s_message s" "w_client w"] by simp
  with e_send_finish.prems show ?case by (auto intro: gates_ok_transfer)
next
  case (e_close_begin w c' t)
  then have "gview c' = gview (w_client w)" using close_begin_gview [of "w_client w"] by simp
  with e_close_begin.prems show ?case by (auto intro: gates_ok_transfer)
next
  case (e_arrive packet w c')
  then show ?case by (auto intro: gates_ok_transfer arrive_gview)
next
  case (e_close_transport w t c' e)
  then show ?case by (auto intro: gates_ok_transfer close_transport_gview)
next
  case (e_ctx w)
  then show ?case by (auto elim: gates_ok_transfer simp: loop_ctxDone_def)
qed (auto elim: gates_ok_transfer)

interpretation eio_gates: invariant_system eio_init "eio_step d" "\<lambda>w. gates_ok (w_client w)"
proof
  show "eio_init w \<Longrightarrow> gates_ok (w_client w)" for w
    by (simp add: eio_init_def gates_ok_def gate_once_def)
qed (rule eio_step_gview)

end
