(* ===== verification/EngineIO_Session.thy ===== *)
theory EngineIO_Session
  imports EngineIO_Gates
begin

text \<open>
  What a session of the Engine.IO client promises: senders are released by the handshake and by the
  end of an upgrade, packets never close a gate twice, a closed client stays closed, and the upgrade
  follows the protocol. The last section has the behaviours that the code's comments exclude and the
  code allows.
\<close>

section \<open>Executions\<close>

text \<open>Schedules, for concrete runs.\<close>

datatype eaction = AConnect | AArrive bytes | ALoop | ASend bytes | AFinish nat | ACloseBegin | ACloseEnd

fun eact :: "eio_Deps \<Rightarrow> eaction \<Rightarrow> eio_world \<Rightarrow> eio_world option" where
  "eact d AConnect w =
     (if ec_loop (w_client w) = LoopIdle
      then (case eio_Connect d None (w_client w) of Done (c', _) \<Rightarrow> Some (w\<lparr>w_client := c'\<rparr>) | _ \<Rightarrow> None)
      else None)"
| "eact d (AArrive packet) w = map_option (\<lambda>c'. w\<lparr>w_client := c'\<rparr>) (arrive packet (w_client w))"
| "eact d ALoop w =
     (if ec_loop (w_client w) = LoopRunning
      then (case loop_message d (w_client w) of Done c' \<Rightarrow> Some (w\<lparr>w_client := c'\<rparr>) | _ \<Rightarrow> None)
      else None)"
| "eact d (ASend m) w = Some (w\<lparr>w_sends := w_sends w @ [send_begin m (w_client w)]\<rparr>)"
| "eact d (AFinish i) w =
     (if i < length (w_sends w) \<and> gate_open (w_client w) (s_wh (w_sends w ! i)) \<and> gate_open (w_client w) (s_wu (w_sends w ! i))
      then (case send_finish d (s_message (w_sends w ! i)) (w_client w) of
              (c', e) \<Rightarrow> Some (w\<lparr>w_client := c', w_sends := take i (w_sends w) @ drop (Suc i) (w_sends w),
                                 w_results := w_results w @ [(w_sends w ! i, e)]\<rparr>))
      else None)"
| "eact d ACloseBegin w =
     (if w_closing w = None
      then (case close_begin (w_client w) of (c', t) \<Rightarrow> Some (w\<lparr>w_client := c', w_closing := t\<rparr>))
      else None)"
| "eact d ACloseEnd w =
     (case w_closing w of
        None \<Rightarrow> None
      | Some t \<Rightarrow>
          (case close_transport d t (w_client w) of
             Done (c', _) \<Rightarrow> Some (w\<lparr>w_client := c', w_closing := None\<rparr>)
           | _ \<Rightarrow> None))"

fun erun :: "eio_Deps \<Rightarrow> eaction list \<Rightarrow> eio_world \<Rightarrow> eio_world option" where
  "erun d [] w = Some w"
| "erun d (a # as) w = (case eact d a w of None \<Rightarrow> None | Some w' \<Rightarrow> erun d as w')"

lemma eact_step: "eact d a w = Some w' \<Longrightarrow> eio_step d w w'"
proof (cases a)
  case (AFinish i)
  assume "eact d a w = Some w'"
  with AFinish show ?thesis
    by (auto split: if_splits prod.splits intro!: e_send_finish [where xs = "take i (w_sends w)"
          and s = "w_sends w ! i" and ys = "drop (Suc i) (w_sends w)"] simp: id_take_nth_drop)
qed (auto split: run.splits option.splits if_splits prod.splits intro: eio_step.intros)

lemma erun_steps: "erun d as w = Some w' \<Longrightarrow> (eio_step d)\<^sup>*\<^sup>* w w'"
  by (induction as arbitrary: w)
    (auto split: option.splits dest: eact_step intro: converse_rtranclp_into_rtranclp)

lemma erun_append: "erun d (as @ bs) w = Option.bind (erun d as w) (erun d bs)"
  by (induction as arbitrary: w) (auto split: option.splits)

definition demo_handshake :: HandshakeResponse where
  "demo_handshake = \<lparr>hs_Sid = ''s1'', hs_Upgrades = [''websocket''], hs_PingInterval = 25000, hs_PingTimeout = 20000\<rparr>"

definition demo_json :: bytes where
  "demo_json = 0x7B # quote (bytes_of_string ''sid'') @ 0x3A # quote (bytes_of_string ''s1'') @ 0x2C # quote (bytes_of_string ''upgrades'') @ 0x3A #
     0x5B # quote (bytes_of_string ''websocket'') @ 0x5D # 0x2C # quote (bytes_of_string ''pingInterval'') @ bytes_of_string '':25000,'' @
     quote (bytes_of_string ''pingTimeout'') @ bytes_of_string '':20000}''"

lemma demo_json_decoded: "unmarshal_handshake demo_json = Inr demo_handshake"
  by code_simp

text \<open>The smallest handshake.\<close>

definition demo_sid :: bytes where
  "demo_sid = 0x7B # quote (bytes_of_string ''sid'') @ 0x3A # quote (bytes_of_string ''a'') @ [0x7D]"

lemma demo_sid_decoded:
  "unmarshal_handshake demo_sid = Inr \<lparr>hs_Sid = ''a'', hs_Upgrades = [], hs_PingInterval = 0, hs_PingTimeout = 0\<rparr>"
  by code_simp

definition demo_eio :: eio_Deps where
  "demo_eio = \<lparr>ed_Parse = eio_Parse zero_EngineIOV4Parser, ed_Serialize = eio_Serialize zero_EngineIOV4Parser,
     ed_Transport = (\<lambda>t. if t = 0 then TransportPolling else TransportWebsocket),
     ed_answer = (\<lambda>_ _. None), ed_reports = (\<lambda>_. True)\<rparr>"

definition demo_world :: eio_world where
  "demo_world = \<lparr>w_client =
     \<lparr>ec_ctxErr = None, ec_transport = Some 0, ec_supportedTransports = [(TransportWebsocket, 1), (TransportPolling, 0)],
      ec_sid = [], ec_pingInterval = Some 10000000000, ec_tickerStopped = False, ec_pingTimeout = 0,
      ec_messageHandler = Some 7, ec_closeHandler = None, ec_afterConnect = None,
      ec_waitUpgrade = None, ec_hadUpgrade = False, ec_waitHandshake = None, ec_hadHandshake = False,
      ec_transportClosed = Some new_errchan, ec_messages = None, ec_loop = LoopIdle, ec_redactPayload = True,
      ec_closedGates = [], ec_nextGate = 0, ec_calls = [], ec_handled = [], ec_log = []\<rparr>,
     w_sends = [], w_closing = None, w_results = []\<rparr>"

definition demo_reach :: "eaction list \<Rightarrow> eio_world" where
  "demo_reach as = (case erun demo_eio as demo_world of Some w \<Rightarrow> w | None \<Rightarrow> demo_world)"

lemma demo_world_init: "eio_init demo_world"
  by (simp add: eio_init_def demo_world_def)

lemma demo_eio_reachable: "reachable eio_init (eio_step demo_eio) (demo_reach as)"
proof (cases "erun demo_eio as demo_world")
  case (Some w)
  then show ?thesis
    using eio_gates.reachable_steps [OF reachable_init [of eio_init, OF demo_world_init] erun_steps [OF Some]]
    by (simp add: demo_reach_def)
qed (simp add: demo_reach_def reachable_init demo_world_init)

section \<open>Gates\<close>



text \<open>
  A \<^verbatim>\<open>Send\<close> that has read the gate of the running upgrade writes nothing before that upgrade has
  ended: in every reachable state its gate is still closed to it.
\<close>

lemma send_waits_for_upgrade:
  assumes "reachable eio_init (eio_step d) w" and "s_wu s = ec_waitUpgrade (w_client w)" and "s_wu s \<noteq> None"
  shows "gate_open (w_client w) (s_wu s) \<longleftrightarrow> ec_hadUpgrade (w_client w)"
proof -
  have "gates_ok (w_client w)" by (rule eio_gates.reachable_inv [OF assms(1)])
  with assms(2,3) show ?thesis by (auto simp: gates_ok_def gate_once_def gate_open_def)
qed

section \<open>Panics\<close>

text \<open>The packets the client can take in its present state.\<close>

definition packet_safe :: "eio_Deps \<Rightarrow> eio_Message \<Rightarrow> eio_Client \<Rightarrow> bool" where
  "packet_safe d packet c \<longleftrightarrow>
     ec_transport c \<noteq> None \<and>
     (eio_Type packet = PacketOpen \<longrightarrow> ec_waitHandshake c \<noteq> None \<and>
        (case unmarshal_handshake (eio_Data packet) of
           Inl _ \<Rightarrow> True
         | Inr hs \<Rightarrow> hs_PingInterval hs = 0 \<or> 0 < sint (milliseconds (hs_PingInterval hs)))) \<and>
     (eio_Type packet = PacketPong \<and> eio_Data packet = bytes_of_string ''probe'' \<longrightarrow> ec_waitUpgrade c \<noteq> None)"

lemma failUpgrade_no_crash: "gates_ok c \<Longrightarrow> ec_waitUpgrade c \<noteq> None \<Longrightarrow> failUpgrade e c \<noteq> Crash r"
  using open_gate_total(2) [of c] by (auto simp: failUpgrade_def)

lemma eio_sendPacket_no_crash: "ec_transport c \<noteq> None \<Longrightarrow> \<exists>c' e. eio_sendPacket d p c = Done (c', e)"
  by (auto simp: eio_sendPacket_def call_transport_def split: option.splits sum.splits)

lemma recv_no_crash: "recv_transportClosed c \<noteq> Crash r"
  by (simp add: recv_transportClosed_def split: option.splits list.splits)

text \<open>The same argument as for the gates, for the absence of panics.\<close>

lemma transportUpgrade_no_crash:
  assumes "gates_ok c" and "ec_transport c \<noteq> None"
  shows "transportUpgrade d t c \<noteq> Crash r"
proof
  assume crash: "transportUpgrade d t c = Crash r"
  let ?c0 = "new_upgrade_gate c"
  have c0: "gates_ok ?c0" "ec_waitUpgrade ?c0 \<noteq> None"
    using new_gate_ok(1) [OF assms(1)] by (simp_all add: new_upgrade_gate_def)
  have fail: "failUpgrade e x \<noteq> Crash r" if "gview x = gview ?c0" for e x
    using gview_ok [OF that c0(1)] c0(2) by (intro failUpgrade_no_crash) auto
  obtain old where old: "ec_transport ?c0 = Some old" using assms(2) by (auto simp: new_upgrade_gate_def)
  obtain c1 r1 where st: "stop_transport d old ?c0 = (c1, r1)" by fastforce
  with stop_transport_gview [of d old ?c0] have g1: "gview c1 = gview ?c0" by simp
  have "r1 = None" using crash old st fail [of "eio_log LError ''stop transport: %s'' [] c1"] g1
    by (cases r1) (auto simp: transportUpgrade_def Let_def)
  then obtain c2 where rc: "recv_transportClosed c1 = Done c2"
    using crash old st recv_no_crash [of c1 r] by (cases "recv_transportClosed c1") (auto simp: transportUpgrade_def Let_def)
  let ?c2 = "c2\<lparr>ec_transport := Some t, ec_transportClosed := Some new_errchan\<rparr>"
  obtain c3 r3 where run: "call_transport d (TRun t (ec_sid ?c2)) ?c2 = (c3, r3)" by fastforce
  have g3: "gview c3 = gview ?c0"
    using recv_gview [OF rc] g1 run gview_updates(16) [of d "TRun t (ec_sid ?c2)" ?c2] by simp
  have t3: "ec_transport c3 = Some t" using run by (auto simp: call_transport_def)
  have "r3 = None"
    using crash old st \<open>r1 = None\<close> rc run fail [of "eio_log LError ''run transport: %s'' [] (close_transportClosed c3)"] g3
    by (cases r3) (auto simp: transportUpgrade_def Let_def)
  moreover obtain c4 r4 where sp: "eio_sendPacket d (Some (packet_of PacketPing (bytes_of_string ''probe''))) c3 = Done (c4, r4)"
    using eio_sendPacket_no_crash [of c3 d "Some (packet_of PacketPing (bytes_of_string ''probe''))"] t3 by blast
  ultimately have "(case r4 of None \<Rightarrow> Done (c4, None) | Some e \<Rightarrow> failUpgrade e c4) = Crash r"
    using crash old st \<open>r1 = None\<close> rc run by (simp add: transportUpgrade_def Let_def)
  then show False using fail [of c4] eio_sendPacket_gview [OF sp] g3 by (auto split: option.splits)
qed

lemma upgrade_loop_no_crash: "gates_ok c \<Longrightarrow> ec_transport c \<noteq> None \<Longrightarrow> upgrade_loop d names c \<noteq> Crash r"
proof (induction d names c rule: upgrade_loop.induct)
  case (2 d name names c)
  let ?l = "eio_log LWarn ''unsupported upgrade: %s'' [name] c"
  have "gates_ok ?l" by (rule gates_ok_transfer [OF "2.prems"(1)]) simp
  moreover have "ec_transport ?l = ec_transport c" by (simp add: eio_log_def)
  ultimately show ?case
    using 2 transportUpgrade_no_crash [OF "2.prems"] by (auto split: option.splits)
qed simp

lemma handleHandshake_no_crash:
  assumes "gates_ok c" and "ec_transport c \<noteq> None" and "ec_waitHandshake c \<noteq> None"
    and "case unmarshal_handshake data of Inl _ \<Rightarrow> True
         | Inr hs \<Rightarrow> hs_PingInterval hs = 0 \<or> 0 < sint (milliseconds (hs_PingInterval hs))"
  shows "handleHandshake d data c \<noteq> Crash r"
proof (cases "unmarshal_handshake data")
  case (Inr hs)
  show ?thesis
  proof (cases "hs_Sid hs = []")
    case False
    let ?c0 = "announce_handshake hs (eio_log LDebug ''apply handshake: %s'' [eio_payload c data] c)"
    have "\<exists>c1. set_pingInterval (hs_PingInterval hs) ?c0 = Done c1"
      using assms(4) Inr by (auto simp: set_pingInterval_def)
    then obtain c1 where pi: "set_pingInterval (hs_PingInterval hs) ?c0 = Done c1" by blast
    let ?c1 = "set_pingTimeout (hs_PingTimeout hs) c1"
    have "gview ?c1 = gview c" using set_pingInterval_gview [OF pi] by simp
    from gview_ok [OF this assms(1)] have c1: "gates_ok ?c1" "ec_waitHandshake ?c1 \<noteq> None" using assms(3) by simp_all
    have t1: "ec_transport ?c1 \<noteq> None"
      using pi assms(2) by (auto simp: set_pingInterval_def set_pingTimeout_def announce_handshake_def eio_log_def split: if_splits)
    have "open_handshake_gate c2 \<noteq> Crash r" if ul: "upgrade_loop d (hs_Upgrades hs) ?c1 = Done (c2, err)" for c2 err
    proof -
      from upgrade_loop_ok [OF ul c1(1)] have "gates_ok c2" "ec_waitHandshake c2 \<noteq> None"
        using c1(2) by (auto simp: upgraded_def)
      with open_gate_total(1) [of c2] show ?thesis by auto
    qed
    then show ?thesis
      using Inr False pi upgrade_loop_no_crash [OF c1(1) t1, of d "hs_Upgrades hs" r]
      by (auto simp: handleHandshake_def Let_def run_bind_Crash split: option.splits)
  qed (use Inr in \<open>simp add: handleHandshake_def Let_def\<close>)
qed (simp add: handleHandshake_def Let_def)

lemma handlePong_no_crash:
  assumes "gates_ok c" and "ec_transport c \<noteq> None" and "data = bytes_of_string ''probe'' \<longrightarrow> ec_waitUpgrade c \<noteq> None"
  shows "handlePong d data c \<noteq> Crash r"
proof (cases "data = bytes_of_string ''probe''")
  case True
  obtain c1 e where sp: "eio_sendPacket d (Some (packet_of PacketUpgrade [])) c = Done (c1, e)"
    using eio_sendPacket_no_crash [OF assms(2)] by blast
  from gview_ok [OF eio_sendPacket_gview [OF sp] assms(1)] assms(3) True
  obtain c2 where "open_upgrade_gate c1 = Done c2" using open_gate_total(2) [of c1] by auto
  with sp True show ?thesis by (auto simp: handlePong_def split: option.splits)
qed (simp add: handlePong_def)

text \<open>
  C9: A connected client does not panic on a packet, whatever the transports answer: in every
  reachable state in which the client has a transport, a handshake is handled without panic once its
  gate exists and its ping interval is zero or fits, a probe reply once an upgrade has been started,
  and every other packet always. In particular no gate is ever closed twice.
\<close>

theorem handlePacket_no_panic:
  assumes "reachable eio_init (eio_step d) w" and "ed_Parse d data = Inr packet" and "packet_safe d packet (w_client w)"
  shows "handlePacket d data (w_client w) \<noteq> Crash r"
proof -
  define c1 where "c1 = (let c0 = eio_log LDebug ''handle packet: %s'' [eio_payload (w_client w) data] (w_client w) in
    eio_log LDebug ''handle: %d %s'' [eio_payload c0 (eio_Data packet)] c0)"
  have g: "gview c1 = gview (w_client w)" by (simp add: c1_def Let_def)
  have "gates_ok (w_client w)" by (rule eio_gates.reachable_inv [OF assms(1)])
  then have c1: "gates_ok c1" using g by (rule gates_ok_transfer)
  have sel: "ec_transport c1 = ec_transport (w_client w)" "ec_waitHandshake c1 = ec_waitHandshake (w_client w)"
    "ec_waitUpgrade c1 = ec_waitUpgrade (w_client w)" by (simp_all add: c1_def eio_log_def)
  have hs: "eio_Type packet = PacketOpen \<Longrightarrow> handleHandshake d (eio_Data packet) c1 \<noteq> Crash r"
    using assms(3) sel by (intro handleHandshake_no_crash [OF c1]) (auto simp: packet_safe_def)
  have po: "eio_Type packet = PacketPong \<Longrightarrow> handlePong d (eio_Data packet) c1 \<noteq> Crash r"
    using assms(3) sel by (intro handlePong_no_crash [OF c1]) (auto simp: packet_safe_def)
  obtain c2 e where pi: "eio_sendPacket d (Some (packet_of PacketPong [])) c1 = Done (c2, e)"
    using eio_sendPacket_no_crash [of c1 d "Some (packet_of PacketPong [])"] assms(3) sel by (auto simp: packet_safe_def)
  show ?thesis
    unfolding handlePacket_def Let_def assms(2) sum.case c1_def [unfolded Let_def, symmetric]
    using hs po pi by (auto simp: run_bind_Crash split: option.splits)
qed

theorem handlePacket_no_panic_witness:
  "\<forall>r. handlePacket demo_eio (0x30 # demo_sid) (w_client (demo_reach [AConnect])) \<noteq> Crash r"
proof
  fix r
  have "ed_Parse demo_eio (0x30 # demo_sid) = Inr (packet_of PacketOpen demo_sid)" by code_simp
  moreover have "packet_safe demo_eio (packet_of PacketOpen demo_sid) (w_client (demo_reach [AConnect]))" by code_simp
  ultimately show "handlePacket demo_eio (0x30 # demo_sid) (w_client (demo_reach [AConnect])) \<noteq> Crash r"
    by (rule handlePacket_no_panic [OF demo_eio_reachable])
qed

section \<open>After Close\<close>

fun is_write :: "tcall \<Rightarrow> bool" where
  "is_write (TSendMessage _ _) = True"
| "is_write _ = False"

definition writes :: "eio_Client \<Rightarrow> tcall list" where
  "writes c = filter is_write (ec_calls c)"

text \<open>The transport is gone and nothing new is written.\<close>

definition silent :: "eio_Client \<Rightarrow> eio_Client \<Rightarrow> bool" where
  "silent c c' \<longleftrightarrow> ec_transport c' = None \<and> writes c' = writes c"

lemma silent_updates:
  assumes "ec_transport c = None"
  shows "silent c (eio_log lv fmt as c)" "silent c (c\<lparr>ec_messages := ms\<rparr>)" "silent c (c\<lparr>ec_loop := l\<rparr>)"
    "silent c (c\<lparr>ec_handled := h\<rparr>)" "silent c (c\<lparr>ec_ctxErr := x\<rparr>)" "silent c (eio_On ev hn c)" "silent c (loop_ctxDone c)"
    "silent c (fst (close_begin c))" "silent c (run_afterConnect c)"
  using assms
  by (simp_all add: silent_def writes_def eio_log_def eio_On_def loop_ctxDone_def close_begin_def run_afterConnect_def
      split: option.splits)

lemma silent_trans: "silent a b \<Longrightarrow> silent b c \<Longrightarrow> silent a c"
  by (simp add: silent_def)

lemma stop_transport_silent: "ec_transport c = None \<Longrightarrow> silent c (fst (stop_transport d t c))"
  by (simp add: stop_transport_def call_transport_def silent_def writes_def split: option.splits)

lemma recv_silent: "recv_transportClosed c = Done c' \<Longrightarrow> ec_transport c = None \<Longrightarrow> silent c c'"
  by (auto simp: recv_transportClosed_def silent_def writes_def split: option.splits list.splits if_splits)

lemma close_messages_silent: "close_messages c = Done c' \<Longrightarrow> ec_transport c = None \<Longrightarrow> silent c c'"
  by (auto simp: close_messages_def silent_def writes_def split: option.splits prod.splits bool.splits)

lemma close_transport_silent:
  assumes "close_transport d t c = Done (c', e)" and "ec_transport c = None"
  shows "silent c c'"
proof -
  obtain c1 r where st: "stop_transport d t c = (c1, r)" by fastforce
  with stop_transport_silent [OF assms(2), of d t] have s1: "silent c c1" by simp
  then have t1: "ec_transport c1 = None" by (simp add: silent_def)
  show ?thesis
  proof (cases r)
    case (Some e')
    with assms(1) st s1 show ?thesis by (simp add: close_transport_def)
  next
    case None
    then obtain c2 where c2: "(if ec_transportClosed c1 = None then Done c1 else recv_transportClosed c1) = Done c2"
      and c3: "(if ec_messages c2 = None then Done c2 else close_messages c2) = Done c'"
      using assms(1) st by (auto simp: close_transport_def)
    have "silent c1 c2" using c2 t1 recv_silent by (auto simp: silent_def split: if_splits)
    moreover then have "silent c2 c'" using c3 close_messages_silent by (auto simp: silent_def split: if_splits)
    ultimately show ?thesis using s1 silent_trans by blast
  qed
qed

lemma handleHandshake_silent:
  assumes "handleHandshake d data c = Done (c', err)" and "ec_transport c = None"
  shows "silent c c'"
proof -
  have log: "silent c (eio_log lv fmt as c)" for lv fmt as using assms(2) by (rule silent_updates)
  have w: "filter is_write (map (\<lambda>(_, t). TSetHandshake t hs) ts) = []" for hs ts
    by (induction ts) auto
  from assms(1) show ?thesis
  proof (cases rule: handleHandshake_elim)
    case (refused e)
    with log show ?thesis by simp
  next
    case (applied hs c1 c2 c3)
    have "silent c c1"
      using applied(3) assms(2) w
      by (auto simp: set_pingInterval_def announce_handshake_def silent_def writes_def eio_log_def split: if_splits)
    then have "silent c (set_pingTimeout (hs_PingTimeout hs) c1)"
      by (simp add: silent_def writes_def set_pingTimeout_def)
    moreover from this have "c2 = set_pingTimeout (hs_PingTimeout hs) c1"
      using applied(4) by (cases "hs_Upgrades hs") (auto simp: silent_def)
    ultimately have "silent c c3"
      using applied(5) by (auto simp: open_handshake_gate_def close_gate_def silent_def writes_def split: if_splits option.splits)
    then show ?thesis
      unfolding applied(6) by (auto simp: silent_def writes_def run_afterConnect_def split: option.splits)
  qed
qed

lemma open_upgrade_gate_frame:
  "open_upgrade_gate c = Done c' \<Longrightarrow> ec_transport c' = ec_transport c \<and> ec_calls c' = ec_calls c"
  by (auto simp: open_upgrade_gate_def close_gate_def split: if_splits option.splits)

lemma handlePacket_silent:
  assumes "handlePacket d data c = Done (c', err)" and "ec_transport c = None"
  shows "silent c c'"
  using assms
proof (cases "ed_Parse d data")
  case (Inr packet)
  define c1 where "c1 = (let c0 = eio_log LDebug ''handle packet: %s'' [eio_payload c data] c in
    eio_log LDebug ''handle: %d %s'' [eio_payload c0 (eio_Data packet)] c0)"
  have s1: "silent c c1" and t1: "ec_transport c1 = None"
    using assms(2) by (simp_all add: c1_def Let_def silent_def writes_def eio_log_def)
  have "silent c1 c'"
    using assms(1) t1 handleHandshake_silent [of d "eio_Data packet" c1]
    unfolding handlePacket_def Let_def Inr sum.case c1_def [unfolded Let_def, symmetric]
    by (auto simp: silent_def writes_def eio_log_def eio_sendPacket_def handlePong_def
        split: if_splits option.splits sum.splits dest!: open_upgrade_gate_frame)
  with s1 show ?thesis by (rule silent_trans)
qed (auto simp: handlePacket_def Let_def silent_def writes_def eio_log_def)

lemma loop_message_silent:
  assumes "loop_message d c = Done c'" and "ec_transport c = None"
  shows "silent c c'"
proof (cases "\<exists>m rest closed. ec_messages c = Some (m # rest, closed)")
  case True
  then obtain m rest closed c1 e where hp: "handlePacket d m (c\<lparr>ec_messages := Some (rest, closed)\<rparr>) = Done (c1, e)"
    and c': "c' = c1 \<or> c' = eio_log LError ''handle packet error: %s'' [] c1"
    using assms(1) by (auto simp: loop_message_def split: option.splits)
  have "silent c c1" using handlePacket_silent [OF hp] assms(2) by (simp add: silent_def writes_def)
  with c' show ?thesis by (auto simp: silent_def writes_def eio_log_def)
next
  case False
  then show ?thesis
    using assms by (auto simp: loop_message_def silent_def writes_def eio_log_def
        split: option.splits prod.splits list.splits bool.splits)
qed

lemma eio_step_silent: "eio_step d w w' \<Longrightarrow> ec_transport (w_client w) = None \<Longrightarrow> silent (w_client w) (w_client w')"
proof (induction rule: eio_step.induct)
  case (e_loop w c')
  then show ?case by (simp add: loop_message_silent)
next
  case (e_close_transport w t c' e)
  then show ?case by (simp add: close_transport_silent)
next
  case (e_close_begin w c' t)
  then show ?case using silent_updates(8) [of "w_client w"] by simp
next
  case (e_arrive packet w c')
  then show ?case by (auto simp: arrive_def silent_def writes_def split: option.splits prod.splits bool.splits if_splits)
next
  case (e_send_begin w message)
  then show ?case by (simp add: silent_def)
next
  case (e_send_finish w xs s ys c' e)
  then show ?case by (auto simp: send_finish_def silent_def)
qed (auto simp: silent_updates eio_Connect_def)



section \<open>The protocol\<close>

definition default_eio :: "eio_Deps \<Rightarrow> bool" where
  "default_eio d \<longleftrightarrow> ed_Parse d = eio_Parse zero_EngineIOV4Parser \<and> ed_Serialize d = eio_Serialize zero_EngineIOV4Parser"

text \<open>Transports that accept every call and report the end of a stopped run.\<close>

definition healthy :: "eio_Deps \<Rightarrow> bool" where
  "healthy d \<longleftrightarrow> (\<forall>calls tc. ed_answer d calls tc = None) \<and> (\<forall>calls. ed_reports d calls)"

lemma eio_default_Serialize:
  "default_eio d \<Longrightarrow> length data \<le> 1000 \<Longrightarrow> ed_Serialize d (packet_of ty data) = Inr ((ty + 0x30) # data)"
  by (simp add: default_eio_def eio_Serialize_def packet_of_def eio_limit_def zero_EngineIOV4Parser_def defaultMaxSerializeSize_def)

lemma eio_default_Parse:
  "default_eio d \<Longrightarrow> ty \<le> PacketNoop \<Longrightarrow> ed_Parse d ((ty + 0x30) # data) = Inr (packet_of ty data)"
  by (simp add: default_eio_def eio_Parse_Cons packet_of_def)

lemma eio_log_sel [simp]:
  "ec_transport (eio_log lv fmt as c) = ec_transport c" "ec_calls (eio_log lv fmt as c) = ec_calls c"
  "ec_handled (eio_log lv fmt as c) = ec_handled c" "ec_closedGates (eio_log lv fmt as c) = ec_closedGates c"
  "ec_waitUpgrade (eio_log lv fmt as c) = ec_waitUpgrade c" "ec_waitHandshake (eio_log lv fmt as c) = ec_waitHandshake c"
  "ec_messageHandler (eio_log lv fmt as c) = ec_messageHandler c" "ec_closeHandler (eio_log lv fmt as c) = ec_closeHandler c"
  "ec_supportedTransports (eio_log lv fmt as c) = ec_supportedTransports c" "ec_sid (eio_log lv fmt as c) = ec_sid c"
  "ec_transportClosed (eio_log lv fmt as c) = ec_transportClosed c" "ec_afterConnect (eio_log lv fmt as c) = ec_afterConnect c"
  "ec_hadUpgrade (eio_log lv fmt as c) = ec_hadUpgrade c" "ec_nextGate (eio_log lv fmt as c) = ec_nextGate c"
  by (simp_all add: eio_log_def)

lemma gate_open_eio_log [simp]: "gate_open (eio_log lv fmt as c) = gate_open c"
  by (rule gate_open_gview) simp

text \<open>
  C24: With the default parser the client answers a ping with a pong on its current transport and
  nothing else, hands the data of a message packet to the message handler unchanged, calls the close
  handler for a close packet, and neither writes nor calls anything for an upgrade or noop packet.
\<close>

theorem handlePacket_routes:
  assumes "default_eio d" and "ec_transport c = Some t"
  shows "(\<exists>c'. handlePacket d (0x32 # data) c = Done (c', ed_answer d (ec_calls c) (TSendMessage t [0x33])) \<and>
      ec_calls c' = ec_calls c @ [TSendMessage t [0x33]] \<and> ec_handled c' = ec_handled c) \<and>
    (\<exists>c'. handlePacket d (0x34 # data) c = Done (c', None) \<and> ec_calls c' = ec_calls c \<and>
      ec_handled c' = ec_handled c @ (case ec_messageHandler c of None \<Rightarrow> [] | Some h \<Rightarrow> [OnMessage h data])) \<and>
    (\<exists>c'. handlePacket d (0x31 # data) c = Done (c', None) \<and> ec_calls c' = ec_calls c \<and>
      ec_handled c' = ec_handled c @ (case ec_closeHandler c of None \<Rightarrow> [] | Some h \<Rightarrow> [OnClose h])) \<and>
    (\<exists>c'. handlePacket d (0x35 # data) c = Done (c', None) \<and> ec_calls c' = ec_calls c \<and> ec_handled c' = ec_handled c) \<and>
    (\<exists>c'. handlePacket d (0x36 # data) c = Done (c', None) \<and> ec_calls c' = ec_calls c \<and> ec_handled c' = ec_handled c)"
proof -
  have p: "ed_Parse d (b # data) = Inr (packet_of (b - 0x30) data)" if "b \<in> {0x31, 0x32, 0x34, 0x35, 0x36}" for b
    using eio_default_Parse [OF assms(1), of "b - 0x30" data] that by auto
  have s: "ed_Serialize d (packet_of PacketPong []) = Inr [0x33]"
    using eio_default_Serialize [OF assms(1), of "[]" PacketPong] by simp
  show ?thesis
    using assms(2) p s
    by (auto simp: handlePacket_def Let_def packet_of_def [of _ data] eio_sendPacket_def call_transport_def split: option.splits)
qed

lemma demo_eio_default: "default_eio demo_eio" "healthy demo_eio"
  by (simp_all add: default_eio_def healthy_def demo_eio_def)

theorem handlePacket_routes_witness:
  "\<exists>c'. handlePacket demo_eio (bytes_of_string ''4hello'') (w_client demo_world) = Done (c', None) \<and>
     ec_handled c' = [OnMessage 7 (bytes_of_string ''hello'')]"
proof -
  have t: "ec_transport (w_client demo_world) = Some 0" by (simp add: demo_world_def)
  have h: "ec_handled (w_client demo_world) @ (case ec_messageHandler (w_client demo_world) of
      None \<Rightarrow> [] | Some h \<Rightarrow> [OnMessage h (bytes_of_string ''hello'')]) = [OnMessage 7 (bytes_of_string ''hello'')]"
    by (simp add: demo_world_def)
  have d: "bytes_of_string ''4hello'' = 0x34 # bytes_of_string ''hello''" by simp
  show ?thesis
    using handlePacket_routes [OF demo_eio_default(1) t, of "bytes_of_string ''hello''"] unfolding h d by blast
qed

text \<open>The run of \<^verbatim>\<open>transportUpgrade\<close> on healthy transports, up to the probe.\<close>

lemma transportUpgrade_healthy:
  assumes "default_eio d" and "healthy d" and "ec_transport c = Some old" and "ec_transportClosed c = Some new_errchan"
  shows "transportUpgrade d new c = Done ((new_upgrade_gate c)\<lparr>ec_transport := Some new,
      ec_transportClosed := Some new_errchan,
      ec_calls := ec_calls c @ [TStop old, TRun new (ec_sid c), TSendMessage new (bytes_of_string ''2probe'')]\<rparr>, None)"
proof -
  have a: "ed_answer d calls tc = None" "ed_reports d calls" for calls tc using assms(2) by (simp_all add: healthy_def)
  have s: "ed_Serialize d (packet_of PacketPing (bytes_of_string ''probe'')) = Inr (bytes_of_string ''2probe'')"
    using eio_default_Serialize [OF assms(1), of "bytes_of_string ''probe''" PacketPing] by simp
  have st: "stop_transport d old (new_upgrade_gate c) = ((new_upgrade_gate c)\<lparr>ec_calls := ec_calls c @ [TStop old],
      ec_transportClosed := Some \<lparr>ch_buf = [None], ch_closed = False\<rparr>\<rparr>, None)"
    using assms(4) a by (simp add: stop_transport_def call_transport_def new_upgrade_gate_def new_errchan_def)
  have t: "ec_transport (new_upgrade_gate c) = Some old" using assms(3) by (simp add: new_upgrade_gate_def)
  show ?thesis
    using a s
    by (simp add: transportUpgrade_def Let_def st t, simp add: recv_transportClosed_def call_transport_def
        eio_sendPacket_def new_upgrade_gate_def new_errchan_def)
qed

text \<open>The handlers and their calls.\<close>

definition hooks :: "eio_Client \<Rightarrow> hcall list \<times> nat option \<times> nat option" where
  "hooks c = (ec_handled c, ec_messageHandler c, ec_afterConnect c)"

lemma hooks_eio_log [simp]: "hooks (eio_log lv fmt as c) = hooks c"
  by (simp add: hooks_def)

text \<open>The state a handshake prepares before it looks at the upgrades.\<close>

lemma handshake_prepares:
  assumes "set_pingInterval (hs_PingInterval hs) (announce_handshake hs (eio_log lv fmt as c)) = Done c3"
  shows "gview (set_pingTimeout n c3) = gview c" "ec_transport (set_pingTimeout n c3) = ec_transport c"
    "ec_transportClosed (set_pingTimeout n c3) = ec_transportClosed c" "ec_sid (set_pingTimeout n c3) = hs_Sid hs"
    "ec_supportedTransports (set_pingTimeout n c3) = ec_supportedTransports c"
    "ec_calls (set_pingTimeout n c3) = ec_calls c @ map (\<lambda>(_, t). TSetHandshake t hs) (ec_supportedTransports c)"
    "hooks (set_pingTimeout n c3) = hooks c"
proof -
  show "gview (set_pingTimeout n c3) = gview c" using set_pingInterval_gview [OF assms] by simp
qed (use assms in \<open>auto simp: set_pingInterval_def set_pingTimeout_def announce_handshake_def hooks_def split: if_splits\<close>)

text \<open>An upgrade that has been started: its gate exists and is still closed to senders.\<close>

definition upgrading :: "nat \<Rightarrow> eio_Client \<Rightarrow> bool" where
  "upgrading new c \<longleftrightarrow> gates_ok c \<and> ec_transport c = Some new \<and> ec_waitUpgrade c \<noteq> None \<and> \<not> ec_hadUpgrade c"

lemma upgrading_gate: "upgrading new c \<Longrightarrow> \<not> gate_open c (ec_waitUpgrade c)"
  by (auto simp: upgrading_def gates_ok_def gate_once_def gate_open_def)

lemma upgrade_starts:
  assumes "default_eio d" and "healthy d" and "gates_ok c" and "ec_transport c = Some old"
    and "ec_transportClosed c = Some new_errchan" and "ec_waitHandshake c \<noteq> None"
  shows "\<exists>c5 c6. transportUpgrade d new c = Done (c5, None) \<and> open_handshake_gate c5 = Done c6 \<and>
    upgrading new (run_afterConnect c6) \<and> gate_open (run_afterConnect c6) (ec_waitHandshake c) \<and>
    ec_calls (run_afterConnect c6) = ec_calls c @ [TStop old, TRun new (ec_sid c), TSendMessage new (bytes_of_string ''2probe'')] \<and>
    ec_waitHandshake (run_afterConnect c6) = ec_waitHandshake c \<and> hooks c6 = hooks c"
proof -
  define c5 where "c5 = (new_upgrade_gate c)\<lparr>ec_transport := Some new, ec_transportClosed := Some new_errchan,
      ec_calls := ec_calls c @ [TStop old, TRun new (ec_sid c), TSendMessage new (bytes_of_string ''2probe'')]\<rparr>"
  have tu: "transportUpgrade d new c = Done (c5, None)"
    unfolding c5_def by (rule transportUpgrade_healthy [OF assms(1,2,4,5)])
  have g5: "gview c5 = gview (new_upgrade_gate c)" by (simp add: c5_def)
  have ok5: "gates_ok c5" by (rule gates_ok_transfer [OF new_gate_ok(1) [OF assms(3)] g5])
  have w5: "ec_waitHandshake c5 = ec_waitHandshake c" "ec_waitUpgrade c5 \<noteq> None" "\<not> ec_hadUpgrade c5"
    by (simp_all add: c5_def new_upgrade_gate_def)
  obtain c6 where og: "open_handshake_gate c5 = Done c6" using open_gate_total(1) [OF ok5] w5(1) assms(6) by auto
  note o6 = open_handshake_gate_ok [OF ok5 og]
  have f6: "ec_calls c6 = ec_calls c5" "ec_transport c6 = ec_transport c5" "ec_hadUpgrade c6 = ec_hadUpgrade c5" "hooks c6 = hooks c5"
    using og by (auto simp: open_handshake_gate_def close_gate_def hooks_def split: if_splits option.splits)
  have g: "gview (run_afterConnect c6) = gview c6" by simp
  have f7: "ec_calls (run_afterConnect c6) = ec_calls c6" "ec_transport (run_afterConnect c6) = ec_transport c6"
    by (simp_all add: run_afterConnect_def split: option.splits)
  have "upgrading new (run_afterConnect c6)"
    using gates_ok_transfer [OF o6(1) g] g o6(4) w5 f6 f7 by (simp add: upgrading_def gview_def c5_def)
  moreover have "gate_open (run_afterConnect c6) (ec_waitHandshake c)"
    using o6(2,3) w5(1) by (simp add: gate_open_gview [OF g])
  moreover have "ec_waitHandshake (run_afterConnect c6) = ec_waitHandshake c" using g o6(3) w5(1) by (simp add: gview_def)
  moreover have "hooks c6 = hooks c" using f6(4) by (simp add: hooks_def c5_def new_upgrade_gate_def)
  ultimately show ?thesis using tu og f7(1) f6(1) by (auto simp: c5_def)
qed

lemma probe_reply:
  assumes "default_eio d" and "healthy d" and "upgrading new c"
  shows "\<exists>c2. handlePacket d (bytes_of_string ''3probe'') c = Done (c2, None) \<and>
    ec_calls c2 = ec_calls c @ [TSendMessage new (bytes_of_string ''5'')] \<and> gate_open c2 (ec_waitUpgrade c) \<and>
    ec_waitUpgrade c2 = ec_waitUpgrade c \<and> ec_waitHandshake c2 = ec_waitHandshake c \<and> ec_transport c2 = Some new \<and>
    hooks c2 = hooks c \<and> set (ec_closedGates c) \<subseteq> set (ec_closedGates c2)"
proof -
  define c0 where "c0 = (let c0 = eio_log LDebug ''handle packet: %s'' [eio_payload c (bytes_of_string ''3probe'')] c in
    eio_log LDebug ''handle: %d %s'' [eio_payload c0 (bytes_of_string ''probe'')] c0)"
  have s: "ed_Serialize d (packet_of PacketUpgrade []) = Inr [0x35]"
    using eio_default_Serialize [OF assms(1), of "[]" PacketUpgrade] by simp
  have p: "ed_Parse d (bytes_of_string ''3probe'') = Inr (packet_of PacketPong (bytes_of_string ''probe''))"
    using eio_default_Parse [OF assms(1), of PacketPong "bytes_of_string ''probe''"] by simp
  have hp: "handlePacket d (bytes_of_string ''3probe'') c = handlePong d (bytes_of_string ''probe'') c0"
    unfolding handlePacket_def p c0_def Let_def sum.case by (simp add: packet_of_def)
  define c1 where "c1 = c0\<lparr>ec_calls := ec_calls c @ [TSendMessage new [0x35]]\<rparr>"
  have sp: "eio_sendPacket d (Some (packet_of PacketUpgrade [])) c0 = Done (c1, None)"
    using assms(2,3) s by (simp add: eio_sendPacket_def call_transport_def c0_def c1_def Let_def upgrading_def healthy_def)
  have g: "gview c1 = gview c" by (simp add: c1_def c0_def Let_def)
  then have "gates_ok c1" "ec_waitUpgrade c1 = ec_waitUpgrade c"
    using gview_ok [OF g] assms(3) by (simp_all add: upgrading_def)
  moreover then obtain c2 where og: "open_upgrade_gate c1 = Done c2"
    using open_gate_total(2) [of c1] assms(3) by (auto simp: upgrading_def)
  ultimately have ok2: "gate_open c2 (ec_waitUpgrade c)" "ec_waitUpgrade c2 = ec_waitUpgrade c" "ec_waitHandshake c2 = ec_waitHandshake c1"
    using open_upgrade_gate_ok [of c1 c2] by auto
  have f2: "ec_calls c2 = ec_calls c1" "ec_transport c2 = ec_transport c1" "hooks c2 = hooks c1"
    "set (ec_closedGates c1) \<subseteq> set (ec_closedGates c2)"
    using og by (auto simp: open_upgrade_gate_def close_gate_def hooks_def split: if_splits option.splits)
  moreover have "hooks c1 = hooks c" "ec_transport c1 = Some new" "ec_waitHandshake c1 = ec_waitHandshake c"
    "ec_closedGates c1 = ec_closedGates c"
    using assms(3) g by (simp_all add: c1_def c0_def Let_def hooks_def upgrading_def gview_def)
  ultimately show ?thesis
    unfolding hp handlePong_def using sp og ok2 by (simp add: c1_def)
qed

text \<open>An open packet that offers an upgrade, on healthy transports.\<close>

lemma open_packet_upgrades:
  assumes ok: "gates_ok c" and "default_eio d" and "healthy d"
    and "ec_transport c = Some old" and "ec_transportClosed c = Some new_errchan" and "ec_waitHandshake c \<noteq> None"
    and "unmarshal_handshake data = Inr hs" and "hs_Sid hs \<noteq> []"
    and "hs_PingInterval hs = 0 \<or> 0 < sint (milliseconds (hs_PingInterval hs))"
    and "hs_Upgrades hs = name # names" and "ed_Transport d old \<noteq> name" and "map_of (ec_supportedTransports c) name = Some new"
  obtains c6 where "handlePacket d (0x30 # data) c = Done (run_afterConnect c6, None)"
    "ec_calls (run_afterConnect c6) = ec_calls c @ map (\<lambda>(_, t). TSetHandshake t hs) (ec_supportedTransports c) @
      [TStop old, TRun new (hs_Sid hs), TSendMessage new (bytes_of_string ''2probe'')]"
    "upgrading new (run_afterConnect c6)" "gate_open (run_afterConnect c6) (ec_waitHandshake c)"
    "ec_waitHandshake (run_afterConnect c6) = ec_waitHandshake c" "hooks c6 = hooks c"
proof -
  define c0 where "c0 = (let c0 = eio_log LDebug ''handle packet: %s'' [eio_payload c (0x30 # data)] c in
    eio_log LDebug ''handle: %d %s'' [eio_payload c0 data] c0)"
  have sel0: "gview c0 = gview c" "ec_transport c0 = ec_transport c" "ec_transportClosed c0 = ec_transportClosed c"
    "ec_supportedTransports c0 = ec_supportedTransports c" "ec_calls c0 = ec_calls c" "hooks c0 = hooks c" by (simp_all add: c0_def Let_def)
  obtain c3 where c3: "set_pingInterval (hs_PingInterval hs) (announce_handshake hs
      (eio_log LDebug ''apply handshake: %s'' [eio_payload c0 data] c0)) = Done c3"
    using assms(9) by (cases "hs_PingInterval hs = 0") (simp_all add: set_pingInterval_def)
  define c4 where "c4 = set_pingTimeout (hs_PingTimeout hs) c3"
  note c4 = handshake_prepares [OF c3, of "hs_PingTimeout hs", folded c4_def, unfolded sel0]
  note g4 = gview_ok [OF c4(1) ok]
  obtain c5 c6 where u: "transportUpgrade d new c4 = Done (c5, None)" "open_handshake_gate c5 = Done c6"
    "upgrading new (run_afterConnect c6)" "gate_open (run_afterConnect c6) (ec_waitHandshake c4)"
    "ec_calls (run_afterConnect c6) = ec_calls c4 @ [TStop old, TRun new (ec_sid c4), TSendMessage new (bytes_of_string ''2probe'')]"
    "ec_waitHandshake (run_afterConnect c6) = ec_waitHandshake c4" "hooks c6 = hooks c4"
    using upgrade_starts [OF assms(2,3), of c4 old new] g4 c4 assms(4-6) by auto
  have "upgrade_loop d (hs_Upgrades hs) c4 = Done (c5, None)" using u(1) c4 assms(4,10-12) by simp
  then have "handleHandshake d data c0 = Done (run_afterConnect c6, None)"
    using assms(7,8) c3 u(2) by (simp add: handleHandshake_def Let_def c4_def)
  moreover have "ed_Parse d (0x30 # data) = Inr (packet_of PacketOpen data)"
    using eio_default_Parse [OF assms(2), of PacketOpen data] by simp
  ultimately have "handlePacket d (0x30 # data) c = Done (run_afterConnect c6, None)"
    by (simp add: handlePacket_def Let_def packet_of_def c0_def)
  then show thesis using u(3-7) c4 g4 by (intro that [of c6]) auto
qed

text \<open>
  C8: The upgrade runs as the protocol asks. On healthy transports, an open packet that offers a
  supported transport other than the current one makes the client tell every transport the
  handshake, stop the old transport, run the new one with the new session id and probe it with
  \<^verbatim>\<open>2probe\<close>, in this order and with nothing in between; senders waiting for the handshake are released,
  senders that see the upgrade wait. The reply \<^verbatim>\<open>3probe\<close> makes it write \<^verbatim>\<open>5\<close> and release those.
\<close>

theorem upgrade_protocol:
  assumes "reachable eio_init (eio_step d) w" and "c = w_client w" and "default_eio d" and "healthy d"
    and "ec_transport c = Some old" and "ec_transportClosed c = Some new_errchan" and "ec_waitHandshake c \<noteq> None"
    and "unmarshal_handshake data = Inr hs" and "hs_Sid hs \<noteq> []"
    and "hs_PingInterval hs = 0 \<or> 0 < sint (milliseconds (hs_PingInterval hs))"
    and "hs_Upgrades hs = name # names" and "ed_Transport d old \<noteq> name" and "map_of (ec_supportedTransports c) name = Some new"
  shows "\<exists>c1 c2. handlePacket d (0x30 # data) c = Done (c1, None) \<and>
    ec_calls c1 = ec_calls c @ map (\<lambda>(_, t). TSetHandshake t hs) (ec_supportedTransports c) @
      [TStop old, TRun new (hs_Sid hs), TSendMessage new (bytes_of_string ''2probe'')] \<and>
    gate_open c1 (ec_waitHandshake c) \<and> \<not> gate_open c1 (ec_waitUpgrade c1) \<and>
    handlePacket d (bytes_of_string ''3probe'') c1 = Done (c2, None) \<and>
    ec_calls c2 = ec_calls c1 @ [TSendMessage new (bytes_of_string ''5'')] \<and> gate_open c2 (ec_waitUpgrade c1)"
proof -
  have ok: "gates_ok c" unfolding assms(2) by (rule eio_gates.reachable_inv [OF assms(1)])
  obtain c6 where u: "handlePacket d (0x30 # data) c = Done (run_afterConnect c6, None)"
      "ec_calls (run_afterConnect c6) = ec_calls c @ map (\<lambda>(_, t). TSetHandshake t hs) (ec_supportedTransports c) @
        [TStop old, TRun new (hs_Sid hs), TSendMessage new (bytes_of_string ''2probe'')]"
      "upgrading new (run_afterConnect c6)" "gate_open (run_afterConnect c6) (ec_waitHandshake c)"
    by (rule open_packet_upgrades [OF ok assms(3-13)])
  with probe_reply [OF assms(3,4) u(3)] upgrading_gate [OF u(3)] show ?thesis by auto
qed

theorem upgrade_protocol_witness:
  "\<exists>c1. handlePacket demo_eio (0x30 # demo_json) (w_client (demo_reach [AConnect])) = Done (c1, None) \<and>
    ec_calls c1 = [TRun 0 [], TRequestHandshake 0, TSetHandshake 1 demo_handshake, TSetHandshake 0 demo_handshake,
      TStop 0, TRun 1 ''s1'', TSendMessage 1 (bytes_of_string ''2probe'')]"
proof -
  let ?c = "w_client (demo_reach [AConnect])"
  have c: "ec_transport ?c = Some 0" "ec_transportClosed ?c = Some new_errchan" "ec_waitHandshake ?c \<noteq> None"
    "0 < sint (milliseconds (hs_PingInterval demo_handshake))" "hs_Sid demo_handshake \<noteq> []"
    "ed_Transport demo_eio 0 \<noteq> ''websocket''" "map_of (ec_supportedTransports ?c) ''websocket'' = Some 1"
    "ec_calls ?c = [TRun 0 [], TRequestHandshake 0]" "ec_supportedTransports ?c = [(TransportWebsocket, 1), (TransportPolling, 0)]"
    by code_simp+
  have u: "unmarshal_handshake demo_json = Inr demo_handshake" "hs_Upgrades demo_handshake = [''websocket'']"
    "hs_Sid demo_handshake = ''s1''"
    by (simp_all add: demo_json_decoded) (simp_all add: demo_handshake_def)
  show ?thesis
    using upgrade_protocol [OF demo_eio_reachable refl demo_eio_default c(1-3) u(1) c(5) disjI2 [OF c(4)] u(2) c(6,7)]
    unfolding c(8,9) u(3) by auto
qed

section \<open>Behaviours the comments exclude\<close>

text \<open>
  C25: Three packets of the server, or of a race with \<^verbatim>\<open>Close\<close>, panic in the message loop, which
  recovers nothing: a ping that is handled after \<^verbatim>\<open>Close\<close> has taken the transport, a probe reply when
  no upgrade was started, and a handshake whose ping interval in nanoseconds is negative or wraps to
  a number that is not positive.
\<close>

theorem handlePacket_panics:
  assumes "default_eio d"
  shows "handlePacket d (0x32 # data) (fst (close_begin c)) = Crash nil_deref \<and>
    (ec_transport c = Some t \<and> ec_waitUpgrade c = None \<and> \<not> ec_hadUpgrade c \<longrightarrow>
       handlePacket d (bytes_of_string ''3probe'') c = Crash ''close of nil channel'') \<and>
    (unmarshal_handshake data = Inr hs \<and> hs_Sid hs \<noteq> [] \<and> hs_PingInterval hs \<noteq> 0 \<and> sint (milliseconds (hs_PingInterval hs)) \<le> 0 \<longrightarrow>
       handlePacket d (0x30 # data) c = Crash ''non-positive interval for ticker'')"
proof -
  have p: "ed_Parse d (0x32 # data) = Inr (packet_of PacketPing data)" "ed_Parse d (0x30 # data) = Inr (packet_of PacketOpen data)"
    "ed_Parse d (bytes_of_string ''3probe'') = Inr (packet_of PacketPong (bytes_of_string ''probe''))"
    using eio_default_Parse [OF assms, of PacketPing data] eio_default_Parse [OF assms, of PacketOpen data]
      eio_default_Parse [OF assms, of PacketPong "bytes_of_string ''probe''"] by simp_all
  have s: "ed_Serialize d (packet_of PacketPong []) = Inr [0x33]" "ed_Serialize d (packet_of PacketUpgrade []) = Inr [0x35]"
    using eio_default_Serialize [OF assms, of "[]" PacketPong] eio_default_Serialize [OF assms, of "[]" PacketUpgrade] by simp_all
  have "handlePacket d (0x32 # data) (fst (close_begin c)) = Crash nil_deref"
    using s by (simp add: handlePacket_def Let_def p packet_of_def [of _ data] eio_sendPacket_def close_begin_def)
  moreover have "handlePacket d (bytes_of_string ''3probe'') c = Crash ''close of nil channel''"
    if "ec_transport c = Some t" "ec_waitUpgrade c = None" "\<not> ec_hadUpgrade c"
    unfolding handlePacket_def Let_def p sum.case
    using that s
    by (simp add: packet_of_def [of _ "_ # _"] handlePong_def eio_sendPacket_def call_transport_def open_upgrade_gate_def close_gate_def)
  moreover have "handlePacket d (0x30 # data) c = Crash ''non-positive interval for ticker''"
    if "unmarshal_handshake data = Inr hs" "hs_Sid hs \<noteq> []" "hs_PingInterval hs \<noteq> 0" "sint (milliseconds (hs_PingInterval hs)) \<le> 0"
    using that by (simp add: handlePacket_def Let_def p packet_of_def [of _ data] handleHandshake_def set_pingInterval_def)
  ultimately show ?thesis by blast
qed

theorem handlePacket_panics_witness:
  "handlePacket demo_eio [0x32] (fst (close_begin (w_client (demo_reach [AConnect])))) = Crash nil_deref \<and>
   sint (milliseconds (- 1)) \<le> 0 \<and> sint (milliseconds 9223372036855) \<le> 0"
proof (intro conjI)
  show "handlePacket demo_eio [0x32] (fst (close_begin (w_client (demo_reach [AConnect])))) = Crash nil_deref"
    using handlePacket_panics [OF demo_eio_default(1)] by blast
  show "sint (milliseconds (- 1)) \<le> 0" "sint (milliseconds 9223372036855) \<le> 0" by code_simp+
qed

text \<open>A run up to the probe, with a \<^verbatim>\<open>Send\<close> that has read the gates before the handshake.\<close>

abbreviation early_send :: send where
  "early_send \<equiv> \<lparr>s_message = bytes_of_string ''hi'', s_wh = Some 0, s_wu = None\<rparr>"

lemma demo_upgrading:
  obtains w where "reachable eio_init (eio_step demo_eio) w" "upgrading 1 (w_client w)" "gate_open (w_client w) (Some 0)" "w_sends w = [early_send]"
    "drop 5 (ec_calls (w_client w)) = [TRun 1 ''s1'', TSendMessage 1 (bytes_of_string ''2probe'')]"
proof -
  define w0 where "w0 = demo_reach [AConnect, ASend (bytes_of_string ''hi''), AArrive (0x30 # demo_json)]"
  let ?c = "(w_client w0)\<lparr>ec_messages := Some ([], False)\<rparr>"
  have r0: "reachable eio_init (eio_step demo_eio) w0" unfolding w0_def by (rule demo_eio_reachable)
  then have "gates_ok (w_client w0)" by (rule eio_gates.reachable_inv)
  then have ok: "gates_ok ?c" by (rule gates_ok_transfer) simp
  have c: "ec_transport ?c = Some 0" "ec_transportClosed ?c = Some new_errchan" "ec_waitHandshake ?c = Some 0"
    "map_of (ec_supportedTransports ?c) TransportWebsocket = Some 1"
    "ec_calls ?c = [TRun 0 [], TRequestHandshake 0]" "ec_supportedTransports ?c = [(TransportWebsocket, 1), (TransportPolling, 0)]"
    unfolding w0_def by code_simp+
  have w: "ec_messages (w_client w0) = Some ([0x30 # demo_json], False)" "ec_loop (w_client w0) = LoopRunning"
    "w_sends w0 = [early_send]"
    unfolding w0_def by code_simp+
  have h: "hs_Sid demo_handshake \<noteq> []" "hs_Upgrades demo_handshake = [TransportWebsocket]" "ed_Transport demo_eio 0 \<noteq> TransportWebsocket"
    "0 < sint (milliseconds (hs_PingInterval demo_handshake))"
    by code_simp+
  have c': "ec_waitHandshake ?c \<noteq> None" using c(3) by simp
  obtain c6 where c6: "handlePacket demo_eio (0x30 # demo_json) ?c = Done (run_afterConnect c6, None)"
      "ec_calls (run_afterConnect c6) = ec_calls ?c @ map (\<lambda>(_, t). TSetHandshake t demo_handshake) (ec_supportedTransports ?c) @
        [TStop 0, TRun 1 (hs_Sid demo_handshake), TSendMessage 1 (bytes_of_string ''2probe'')]"
      "upgrading 1 (run_afterConnect c6)" "gate_open (run_afterConnect c6) (ec_waitHandshake ?c)"
    by (rule open_packet_upgrades [OF ok demo_eio_default c(1,2) c' demo_json_decoded h(1) disjI2 [OF h(4)] h(2,3) c(4)])
  have "eio_step demo_eio w0 (w0\<lparr>w_client := run_afterConnect c6\<rparr>)"
    using w c6(1) by (intro e_loop) (simp_all add: loop_message_def)
  with r0 have r1: "reachable eio_init (eio_step demo_eio) (w0\<lparr>w_client := run_afterConnect c6\<rparr>)" by (rule reachable_step)
  have sid: "hs_Sid demo_handshake = ''s1''" by (simp add: demo_handshake_def)
  have "drop 5 (ec_calls (run_afterConnect c6)) = [TRun 1 ''s1'', TSendMessage 1 (bytes_of_string ''2probe'')]"
    using c6(2) unfolding c(5,6) sid by simp
  with r1 c6(3,4) w(3) c(3) show thesis by (intro that [of "w0\<lparr>w_client := run_afterConnect c6\<rparr>"]) simp_all
qed


text \<open>
  C27: When \<^verbatim>\<open>Connect\<close> fails in the handshake request it consumes the transport's only report; a later
  \<^verbatim>\<open>Close\<close> then waits for that report forever. The transports are assumed to answer \<^verbatim>\<open>Stop\<close> without
  error and to report at most once between two runs, as both transports of the library do.
\<close>

theorem close_after_failed_connect_hangs:
  assumes "ec_transport c = Some t"
    and "\<forall>calls. ed_answer d calls (TStop t) = None" and "ed_answer d (ec_calls c) (TRun t (ec_sid c)) = None"
    and "ed_answer d (ec_calls c @ [TRun t (ec_sid c)]) (TRequestHandshake t) = Some e"
    and "ed_reports d (ec_calls c @ [TRun t (ec_sid c), TRequestHandshake t, TStop t])"
    and "\<not> ed_reports d (ec_calls c @ [TRun t (ec_sid c), TRequestHandshake t, TStop t, TStop t])"
  shows "\<exists>c'. eio_Connect d ctx c = Done (c', Some e) \<and> eio_Close d c' = Stuck"
  using assms
  by (simp add: eio_Connect_def Let_def call_transport_def new_handshake_gate_def stop_transport_def new_errchan_def
      recv_transportClosed_def close_messages_def eio_Close_def close_begin_def close_transport_def)

definition demo_refused :: eio_Deps where
  "demo_refused = demo_eio\<lparr>
     ed_answer := (\<lambda>_ tc. case tc of TRequestHandshake _ \<Rightarrow> Some (ErrorNew ''refused'') | _ \<Rightarrow> None),
     ed_reports := (\<lambda>calls. length (filter (\<lambda>tc. case tc of TStop _ \<Rightarrow> True | _ \<Rightarrow> False) calls) = 1)\<rparr>"

theorem close_after_failed_connect_hangs_witness:
  "\<exists>c'. eio_Connect demo_refused None (w_client demo_world) = Done (c', Some (ErrorNew ''refused'')) \<and>
     eio_Close demo_refused c' = Stuck"
  by (rule close_after_failed_connect_hangs [where t = 0]) (simp_all add: demo_refused_def demo_world_def)

end
