(* ===== verification/GoURL.thy ===== *)
theory GoURL
  imports Prelude "HOL-Library.List_Lexorder" "HOL-Library.Char_ord"
begin

text \<open>
  What the clients and the transports use of \<^verbatim>\<open>net/url\<close>: a URL as scheme, host, path and raw query,
  query values as a map from keys to lists, \<^verbatim>\<open>ParseQuery\<close>, \<^verbatim>\<open>Values.Set\<close> and \<^verbatim>\<open>Values.Encode\<close> with
  Go's query escaping. Encoding and parsing are inverse on query values.
\<close>

record url =
  u_Scheme :: string
  u_Host :: string
  u_Path :: string
  u_RawQuery :: string

text \<open>A map is an association list with distinct keys; a Go map has no empty value list here.\<close>

type_synonym url_values = "(string \<times> string list) list"

definition values_ok :: "url_values \<Rightarrow> bool" where
  "values_ok vs \<longleftrightarrow> distinct (map fst vs) \<and> (\<forall>(k, xs) \<in> set vs. xs \<noteq> [])"

section \<open>Escaping\<close>

definition unreserved :: "char \<Rightarrow> bool" where
  "unreserved c \<longleftrightarrow>
     (let n = (of_char c :: nat) in
      48 \<le> n \<and> n \<le> 57 \<or> 65 \<le> n \<and> n \<le> 90 \<or> 97 \<le> n \<and> n \<le> 122 \<or> n = 45 \<or> n = 95 \<or> n = 46 \<or> n = 126)"

definition hex_char :: "nat \<Rightarrow> char" where
  "hex_char n = char_of (if n < 10 then 48 + n else 55 + n)"

definition unhex :: "char \<Rightarrow> nat option" where
  "unhex c =
     (let n = (of_char c :: nat) in
      if 48 \<le> n \<and> n \<le> 57 then Some (n - 48)
      else if 65 \<le> n \<and> n \<le> 70 then Some (n - 55)
      else if 97 \<le> n \<and> n \<le> 102 then Some (n - 87)
      else None)"

definition escape_char :: "char \<Rightarrow> string" where
  "escape_char c =
     (if c = CHR '' '' then ''+''
      else if unreserved c then [c]
      else [CHR ''%'', hex_char (of_char c div 16), hex_char (of_char c mod 16)])"

definition QueryEscape :: "string \<Rightarrow> string" where
  "QueryEscape s = concat (map escape_char s)"

fun QueryUnescape :: "string \<Rightarrow> string option" where
  "QueryUnescape [] = Some []"
| "QueryUnescape (c # cs) =
     (if c = CHR ''%'' then
        (case cs of
           a # b # rest \<Rightarrow>
             (case (unhex a, unhex b) of
                (Some i, Some j) \<Rightarrow> map_option ((#) (char_of (16 * i + j))) (QueryUnescape rest)
              | _ \<Rightarrow> None)
         | _ \<Rightarrow> None)
      else map_option ((#) (if c = CHR ''+'' then CHR '' '' else c)) (QueryUnescape cs))"

lemma hex_char_simps: "n < 16 \<Longrightarrow> of_char (hex_char n) = (if n < 10 then 48 + n else 55 + n)"
  by (simp add: hex_char_def)

lemma unhex_hex_char [simp]: "n < 16 \<Longrightarrow> unhex (hex_char n) = Some n"
  by (simp add: unhex_def Let_def hex_char_simps)

lemma unreserved_not_special: "unreserved c \<Longrightarrow> c \<noteq> CHR ''%'' \<and> c \<noteq> CHR ''+'' \<and> c \<noteq> CHR ''&'' \<and> c \<noteq> CHR ''='' \<and> c \<noteq> CHR '';''"
  by (auto simp: unreserved_def Let_def)

lemma QueryUnescape_escape_char: "QueryUnescape (escape_char c @ s) = map_option ((#) c) (QueryUnescape s)"
proof -
  have "(of_char c :: nat) div 16 < 16" "16 * (of_char c div 16) + of_char c mod 16 = (of_char c :: nat)"
    using nat_of_char_less_256 [of c] by (simp_all add: less_mult_imp_div_less)
  then have "unhex (hex_char (of_char c div 16)) = Some (of_char c div 16)"
    "unhex (hex_char (of_char c mod 16)) = Some (of_char c mod 16)"
    "char_of (16 * (of_char c div 16) + of_char c mod 16 :: nat) = c" by (simp_all add: less_mult_imp_div_less)
  then show ?thesis
    using unreserved_not_special [of c] by (simp add: escape_char_def)
qed

lemma QueryUnescape_QueryEscape [simp]: "QueryUnescape (QueryEscape s) = Some s"
  by (induction s) (simp_all add: QueryEscape_def QueryUnescape_escape_char)

lemma hex_char_not_special:
  assumes "n < 16"
  shows "hex_char n \<noteq> CHR ''&''" "hex_char n \<noteq> CHR ''=''" "hex_char n \<noteq> CHR '';''"
  using hex_char_simps [OF assms] by (auto split: if_splits)

lemma QueryEscape_no_special:
  "CHR ''&'' \<notin> set (QueryEscape s)" "CHR ''='' \<notin> set (QueryEscape s)" "CHR '';'' \<notin> set (QueryEscape s)"
proof -
  have "CHR ''&'' \<notin> set (escape_char c) \<and> CHR ''='' \<notin> set (escape_char c) \<and> CHR '';'' \<notin> set (escape_char c)" for c
    using nat_of_char_less_256 [of c] unreserved_not_special [of c] hex_char_not_special [of "of_char c div 16"]
      hex_char_not_special [of "of_char c mod 16"]
    by (auto simp: escape_char_def less_mult_imp_div_less)
  then show "CHR ''&'' \<notin> set (QueryEscape s)" "CHR ''='' \<notin> set (QueryEscape s)" "CHR '';'' \<notin> set (QueryEscape s)"
    by (auto simp: QueryEscape_def)
qed

section \<open>Query values\<close>

definition values_set :: "string \<Rightarrow> string \<Rightarrow> url_values \<Rightarrow> url_values" where
  "values_set k v vs = (if k \<in> fst ` set vs then map (\<lambda>(k', xs). (k', if k' = k then [v] else xs)) vs else vs @ [(k, [v])])"

definition values_add :: "string \<Rightarrow> string \<Rightarrow> url_values \<Rightarrow> url_values" where
  "values_add k v vs = (if k \<in> fst ` set vs then map (\<lambda>(k', xs). (k', if k' = k then xs @ [v] else xs)) vs else vs @ [(k, [v])])"

fun join_amp :: "string list \<Rightarrow> string" where
  "join_amp [] = []"
| "join_amp [s] = s"
| "join_amp (s # ss) = s @ CHR ''&'' # join_amp ss"

definition segment :: "string \<times> string \<Rightarrow> string" where
  "segment kv = QueryEscape (fst kv) @ CHR ''='' # QueryEscape (snd kv)"

definition value_pairs :: "url_values \<Rightarrow> (string \<times> string) list" where
  "value_pairs vs = concat (map (\<lambda>(k, xs). map (Pair k) xs) vs)"

definition Encode :: "url_values \<Rightarrow> string" where
  "Encode vs = join_amp (map segment (value_pairs (sort_key fst vs)))"

fun split_on :: "char \<Rightarrow> string \<Rightarrow> string list" where
  "split_on c [] = [[]]"
| "split_on c (x # xs) =
     (if x = c then [] # split_on c xs
      else (case split_on c xs of [] \<Rightarrow> [[x]] | s # ss \<Rightarrow> (x # s) # ss))"

text \<open>One \<^verbatim>\<open>key=value\<close> segment; a segment that does not decode is dropped and reported.\<close>

definition parse_segment :: "string \<Rightarrow> url_values \<times> bool \<Rightarrow> url_values \<times> bool" where
  "parse_segment s r =
     (case r of (vs, bad) \<Rightarrow>
        if CHR '';'' \<in> set s then (vs, True)
        else if s = [] then (vs, bad)
        else
          let k = takeWhile (\<lambda>c. c \<noteq> CHR ''='') s; v = drop 1 (dropWhile (\<lambda>c. c \<noteq> CHR ''='') s) in
          (case (QueryUnescape k, QueryUnescape v) of
             (Some k, Some v) \<Rightarrow> (values_add k v vs, bad)
           | _ \<Rightarrow> (vs, True)))"

definition ParseQuery :: "string \<Rightarrow> url_values \<times> bool" where
  "ParseQuery q = fold parse_segment (split_on (CHR ''&'') q) ([], False)"

subsection \<open>Parsing what was encoded\<close>

lemma split_on_no: "c \<notin> set s \<Longrightarrow> split_on c s = [s]"
  by (induction s) auto

lemma split_on_append: "c \<notin> set s \<Longrightarrow> split_on c (s @ c # t) = s # split_on c t"
  by (induction s) auto

lemma split_join_amp:
  "ss \<noteq> [] \<Longrightarrow> \<forall>s \<in> set ss. CHR ''&'' \<notin> set s \<Longrightarrow> split_on (CHR ''&'') (join_amp ss) = ss"
  by (induction ss rule: join_amp.induct) (auto simp: split_on_no split_on_append)

lemma segment_no_special: "CHR ''&'' \<notin> set (segment kv)" "CHR '';'' \<notin> set (segment kv)"
  using QueryEscape_no_special by (auto simp: segment_def)

lemma parse_segment_segment: "parse_segment (segment kv) (vs, bad) = (values_add (fst kv) (snd kv) vs, bad)"
proof -
  have k: "\<forall>c \<in> set (QueryEscape (fst kv)). c \<noteq> CHR ''=''" using QueryEscape_no_special(2) by metis
  have "takeWhile (\<lambda>c. c \<noteq> CHR ''='') (segment kv) = QueryEscape (fst kv)"
    "dropWhile (\<lambda>c. c \<noteq> CHR ''='') (segment kv) = CHR ''='' # QueryEscape (snd kv)"
    using takeWhile_append_stop [OF k, of "CHR ''='' # QueryEscape (snd kv)"] by (simp_all add: segment_def)
  moreover have "segment kv \<noteq> []" by (simp add: segment_def)
  ultimately show ?thesis
    using segment_no_special(2) [of kv] by (simp add: parse_segment_def Let_def)
qed

lemma fold_parse_segments:
  "fold parse_segment (map segment kvs) (vs, bad) = (fold (\<lambda>(k, v). values_add k v) kvs vs, bad)"
  by (induction kvs arbitrary: vs) (auto simp: parse_segment_segment)

lemma fold_values_add_key:
  assumes "k \<notin> fst ` set vs" and "xs \<noteq> []"
  shows "fold (\<lambda>(k, v). values_add k v) (map (Pair k) xs) vs = vs @ [(k, xs)]"
proof -
  have add: "values_add k v (vs @ [(k, ys)]) = vs @ [(k, ys @ [v])]" for v ys
    using assms(1) by (auto simp: values_add_def image_iff intro!: map_idI split: if_splits)
  have "fold (\<lambda>(k, v). values_add k v) (map (Pair k) zs) (vs @ [(k, ys)]) = vs @ [(k, ys @ zs)]" for ys zs
    by (induction zs arbitrary: ys) (simp_all add: add)
  with assms show ?thesis
    by (cases xs) (auto simp: values_add_def)
qed

lemma fold_value_pairs:
  "values_ok (us @ vs) \<Longrightarrow> fold (\<lambda>(k, v). values_add k v) (value_pairs vs) us = us @ vs"
proof (induction vs arbitrary: us)
  case (Cons kx vs)
  obtain k xs where kx: "kx = (k, xs)" by fastforce
  have "k \<notin> fst ` set us" "xs \<noteq> []" using Cons.prems kx by (auto simp: values_ok_def)
  then have "fold (\<lambda>(k, v). values_add k v) (map (Pair k) xs) us = us @ [kx]"
    using fold_values_add_key kx by simp
  with Cons.IH [of "us @ [kx]"] Cons.prems kx show ?case by (simp add: value_pairs_def)
qed (simp add: value_pairs_def)

lemma ParseQuery_Encode:
  assumes "values_ok vs"
  shows "ParseQuery (Encode vs) = (sort_key fst vs, False)"
proof (cases "vs = []")
  case True
  then show ?thesis by (simp add: Encode_def value_pairs_def ParseQuery_def parse_segment_def)
next
  case False
  let ?vs = "sort_key fst vs"
  have ok: "values_ok ?vs"
    using assms distinct_map [of fst ?vs] distinct_map [of fst vs] by (auto simp: values_ok_def)
  obtain k xs rest where "?vs = (k, xs) # rest" using False by (cases ?vs) (auto dest: arg_cong [of _ _ length])
  with ok have "value_pairs ?vs \<noteq> []" by (auto simp: value_pairs_def values_ok_def)
  then have "ParseQuery (Encode vs) = fold parse_segment (map segment (value_pairs ?vs)) ([], False)"
    unfolding ParseQuery_def Encode_def
    by (subst split_join_amp) (auto simp: segment_no_special)
  with ok show ?thesis by (simp add: fold_parse_segments fold_value_pairs)
qed

lemma values_set_ok:
  assumes "values_ok vs"
  shows "values_ok (values_set k v vs)"
proof (cases "k \<in> fst ` set vs")
  case True
  let ?f = "\<lambda>(k', xs). (k', if k' = k then [v] else xs)"
  have keys: "map fst (map ?f vs) = map fst vs" by (induction vs) auto
  have "distinct (map fst (map ?f vs))" unfolding keys using assms by (simp add: values_ok_def)
  moreover have "\<forall>(k', xs) \<in> set (map ?f vs). xs \<noteq> []" using assms by (auto simp: values_ok_def split: if_splits)
  ultimately have "values_ok (map ?f vs)" unfolding values_ok_def by (rule conjI)
  with True show ?thesis by (simp add: values_set_def)
next
  case False
  with assms show ?thesis by (simp add: values_ok_def values_set_def)
qed

lemma map_of_values_set: "map_of (values_set k v vs) k' = (if k' = k then Some [v] else map_of vs k')"
proof (cases "k \<in> fst ` set vs")
  case True
  have "map_of (map (\<lambda>(k', xs). (k', if k' = k then [v] else xs)) vs) k' =
      map_option (\<lambda>xs. if k' = k then [v] else xs) (map_of vs k')"
    by (induction vs) auto
  moreover have "map_of vs k \<noteq> None" using True by (simp add: map_of_eq_None_iff)
  ultimately have "map_of (map (\<lambda>(k', xs). (k', if k' = k then [v] else xs)) vs) k' =
      (if k' = k then Some [v] else map_of vs k')"
    by (auto simp: option.map_id0 [unfolded id_def])
  with True show ?thesis by (simp add: values_set_def)
next
  case False
  then have "map_of vs k = None" by (simp add: map_of_eq_None_iff)
  with False show ?thesis by (simp add: values_set_def map_add_def split: option.split)
qed

lemma values_add_ok:
  assumes "values_ok vs"
  shows "values_ok (values_add k v vs)"
proof (cases "k \<in> fst ` set vs")
  case True
  let ?f = "\<lambda>(k', xs). (k', if k' = k then xs @ [v] else xs)"
  have keys: "map fst (map ?f vs) = map fst vs" by (induction vs) auto
  have "distinct (map fst (map ?f vs))" unfolding keys using assms by (simp add: values_ok_def)
  moreover have "\<forall>(k', xs) \<in> set (map ?f vs). xs \<noteq> []" using assms by (auto simp: values_ok_def split: if_splits)
  ultimately have "values_ok (map ?f vs)" unfolding values_ok_def by (rule conjI)
  with True show ?thesis by (simp add: values_add_def)
next
  case False
  with assms show ?thesis by (simp add: values_ok_def values_add_def)
qed

lemma parse_segment_ok: "values_ok (fst r) \<Longrightarrow> values_ok (fst (parse_segment s r))"
  by (auto simp: parse_segment_def Let_def values_add_ok split: prod.splits option.splits)

lemma ParseQuery_ok: "values_ok (fst (ParseQuery q))"
proof -
  have fold_ok: "values_ok (fst r) \<Longrightarrow> values_ok (fst (fold parse_segment ss r))" for ss r
    by (induction ss arbitrary: r) (simp_all add: parse_segment_ok)
  show ?thesis unfolding ParseQuery_def by (rule fold_ok) (simp add: values_ok_def)
qed

lemma map_of_sort_key: "distinct (map fst vs) \<Longrightarrow> map_of (sort_key fst vs) = map_of vs"
  by (rule map_of_inject_set [THEN iffD2]) (auto simp: distinct_map)

end
