(* ===== verification/Transport_Polling.thy ===== *)
theory Transport_Polling
  imports EngineIO_Parser Logging GoURL
begin

text \<open>
  The HTTP long-polling transport: \<^verbatim>\<open>transport/polling/transport.go\<close>. The struct is a record; the
  polling goroutine started by \<^verbatim>\<open>Run\<close> is a state machine whose program counter names the blocking
  points of \<^verbatim>\<open>pollingLoop\<close> and \<^verbatim>\<open>poll\<close>. What the HTTP client answers is an argument of the step. The
  invariant shows that a run reports its end exactly once, that nothing is polled before the session
  id is known, and that \<^verbatim>\<open>Stop\<close> ends the loop within three of its steps.
\<close>

section \<open>State\<close>

record polling_Transport =
  pt_url :: url
  pt_sid :: string
  pt_ctxErr :: "go_error option"
  pt_messages :: bool \<comment> \<open>the channel is not \<^verbatim>\<open>nil\<close>\<close>
  pt_delivered :: "bytes list" \<comment> \<open>what has been sent on \<^verbatim>\<open>messages\<close>\<close>
  pt_onClose :: "go_error option list option" \<comment> \<open>\<^verbatim>\<open>nil\<close>, or the reports sent\<close>
  pt_stopPooling :: bool \<comment> \<open>the token in the channel of capacity 1\<close>
  pt_reqCancelled :: bool
  pt_handshakeDone :: "bool option" \<comment> \<open>\<^verbatim>\<open>nil\<close>, or whether it is closed\<close>
  pt_stopCh :: bool \<comment> \<open>closed\<close>
  pt_stopOnce :: bool
  pt_stopped :: bool
  pt_maxPayloadSize :: int64
  pt_pinger :: int64
  pt_redactPayload :: bool
  pt_log :: "log_line list"

definition errTransportStopped :: go_error where
  "errTransportStopped = ErrorNew ''transport stopped''"

definition pt_logf :: "log_level \<Rightarrow> string \<Rightarrow> string list \<Rightarrow> polling_Transport \<Rightarrow> polling_Transport" where
  "pt_logf lv fmt args c = c\<lparr>pt_log := pt_log c @ [(lv, fmt, args)]\<rparr>"

definition pt_payload :: "polling_Transport \<Rightarrow> bytes \<Rightarrow> string" where
  "pt_payload c data = render_payload (pt_redactPayload c) data"

definition pt_Transport :: "polling_Transport \<Rightarrow> EngineIOTransport" where
  "pt_Transport c = TransportPolling"

section \<open>Operations\<close>

definition markHandshakeDoneLocked :: "polling_Transport \<Rightarrow> polling_Transport" where
  "markHandshakeDoneLocked c =
     (case pt_handshakeDone c of None \<Rightarrow> c | Some _ \<Rightarrow> c\<lparr>pt_handshakeDone := Some True\<rparr>)"

definition pt_SetHandshake :: "HandshakeResponse \<Rightarrow> polling_Transport \<Rightarrow> polling_Transport go" where
  "pt_SetHandshake handshake c =
     (let c = c\<lparr>pt_sid := hs_Sid handshake\<rparr>;
          pingInterval = (if hs_PingInterval handshake \<noteq> 0 then word_of_int (hs_PingInterval handshake) * 1000000
                          else 10 * 1000000000 :: int64) in
      if sint pingInterval \<le> 0 then Panic ''non-positive interval for Ticker.Reset''
      else Ret (markHandshakeDoneLocked (c\<lparr>pt_pinger := pingInterval\<rparr>)))"

definition pt_Run :: "go_error option \<Rightarrow> url \<Rightarrow> string \<Rightarrow> bool \<Rightarrow> bool \<Rightarrow> polling_Transport \<Rightarrow> polling_Transport" where
  "pt_Run ctxErr url sid messagesChan onClose c =
     (let c = c\<lparr>pt_ctxErr := ctxErr, pt_reqCancelled := False, pt_sid := sid, pt_handshakeDone := Some False\<rparr>;
          c = (if sid \<noteq> [] then markHandshakeDoneLocked c else c) in
      c\<lparr>pt_url := url, pt_messages := messagesChan, pt_onClose := (if onClose then Some [] else None),
        pt_stopped := False, pt_stopPooling := False, pt_stopCh := False, pt_stopOnce := False\<rparr>)"

definition pt_Stop :: "polling_Transport \<Rightarrow> polling_Transport" where
  "pt_Stop c =
     (if pt_stopped c then c
      else
        let c = c\<lparr>pt_stopped := True\<rparr>;
            c = (if pt_stopOnce c then c else c\<lparr>pt_stopOnce := True, pt_reqCancelled := True, pt_stopCh := True\<rparr>)
        in c\<lparr>pt_stopPooling := True\<rparr>)"

definition finishPolling :: "bool \<Rightarrow> polling_Transport \<Rightarrow> polling_Transport" where
  "finishPolling stopRequested c =
     (let c = pt_logf LDebug (if stopRequested then ''stop polling'' else ''context done, stop http polling'') [] c in
      c\<lparr>pt_stopped := True, pt_onClose := map_option (\<lambda>rs. rs @ [pt_ctxErr c]) (pt_onClose c)\<rparr>)"

definition buildHttpUrl :: "polling_Transport \<Rightarrow> url" where
  "buildHttpUrl c =
     \<lparr>u_Scheme = u_Scheme (pt_url c), u_Host = u_Host (pt_url c), u_Path = u_Path (pt_url c),
      u_RawQuery = Encode (values_set ''sid'' (pt_sid c) (values_set ''EIO'' ''4'' (values_set ''transport'' ''polling''
        (fst (ParseQuery []))))) \<rparr>"

subsection \<open>One poll\<close>

text \<open>What \<^verbatim>\<open>httpClient.Do\<close> and the body reader give back.\<close>

datatype http_result =
    HttpFail go_error
  | HttpResp int bytes "go_error option" \<comment> \<open>status code, body, error of the reader\<close>

definition readLimit :: "int64 \<Rightarrow> int64" where
  "readLimit maxPayloadSize =
     (let limit = maxPayloadSize + 1 in if sint limit \<le> 0 then maxPayloadSize else limit)"

definition read_body :: "int64 \<Rightarrow> bytes \<Rightarrow> bytes" where
  "read_body maxPayloadSize body =
     (if sint maxPayloadSize > 0 then take (nat (sint (readLimit maxPayloadSize))) body else body)"

definition poll_body :: "polling_Transport \<Rightarrow> http_result \<Rightarrow> go_error + bytes" where
  "poll_body c resp =
     (case resp of
        HttpFail e \<Rightarrow> Inl e
      | HttpResp status body rerr \<Rightarrow>
          if status < 200 \<or> status \<ge> 300 then Inl (ErrorFmt ''unexpected polling response status %d'' [status])
          else
            (case rerr of
               Some e \<Rightarrow> Inl e
             | None \<Rightarrow>
                 let body = read_body (pt_maxPayloadSize c) body in
                 if sint (pt_maxPayloadSize c) > 0 \<and> int (length body) > sint (pt_maxPayloadSize c)
                 then Inl (ErrorFmt ''inbound payload size %d exceeds maximum allowed %d''
                             [int (length body), sint (pt_maxPayloadSize c)])
                 else Inr body))"

definition pt_RequestHandshake :: "polling_Transport \<Rightarrow> go_error option \<Rightarrow> go_error option" where
  "pt_RequestHandshake c poll_result =
     (case poll_result of
        None \<Rightarrow> None
      | Some e \<Rightarrow>
          if errors_Is e errTransportStopped
          then (case pt_ctxErr c of Some ce \<Rightarrow> Some ce | None \<Rightarrow> Some context_Canceled)
          else Some e)"

definition pt_SendMessage :: "bytes \<Rightarrow> go_error option \<Rightarrow> http_result \<Rightarrow> polling_Transport \<Rightarrow> polling_Transport \<times> go_error option" where
  "pt_SendMessage msg requestErr resp c =
     (let c = pt_logf LDebug ''sendHttp: %s'' [pt_payload c msg] c in
      case requestErr of
        Some e \<Rightarrow> (c, Some (ErrorWrap e ''error creating request: %w''))
      | None \<Rightarrow>
          (case resp of
             HttpFail e \<Rightarrow> (c, Some e)
           | HttpResp status _ _ \<Rightarrow> (pt_logf LDebug ''receiveHttp: %s'' [] c, None)))"

section \<open>The polling loop\<close>

datatype poll_pc = WaitGate | Top | Polling | Delivering bytes | Failed go_error | Backoff | Finished

record polling_run =
  pr_t :: polling_Transport
  pr_pc :: poll_pc
  pr_gets :: nat \<comment> \<open>how many requests the loop has issued\<close>

definition finish :: "bool \<Rightarrow> polling_run \<Rightarrow> polling_run" where
  "finish stopRequested r = r\<lparr>pr_t := finishPolling stopRequested (pr_t r), pr_pc := Finished\<rparr>"

definition finish_stop :: "polling_run \<Rightarrow> polling_run" where
  "finish_stop r = finish True (r\<lparr>pr_t := (pr_t r)\<lparr>pt_stopPooling := False\<rparr>\<rparr>)"

text \<open>
  The rules follow the \<^verbatim>\<open>select\<close> statements; where several cases are ready any of them may be
  taken. A \<^verbatim>\<open>select\<close> with a default takes it only when no case is ready.
\<close>

inductive poll_step :: "polling_run \<Rightarrow> polling_run \<Rightarrow> bool" where
  gate_passed: "pr_pc r = WaitGate \<Longrightarrow> pt_handshakeDone (pr_t r) \<noteq> Some False \<Longrightarrow> poll_step r (r\<lparr>pr_pc := Top\<rparr>)"
| gate_stop: "pr_pc r = WaitGate \<Longrightarrow> pt_handshakeDone (pr_t r) \<noteq> None \<Longrightarrow> pt_stopPooling (pr_t r) \<Longrightarrow>
     poll_step r (finish_stop r)"
| gate_ctx: "pr_pc r = WaitGate \<Longrightarrow> pt_handshakeDone (pr_t r) \<noteq> None \<Longrightarrow> pt_ctxErr (pr_t r) \<noteq> None \<Longrightarrow>
     poll_step r (finish False r)"
| top_stop: "pr_pc r = Top \<Longrightarrow> pt_stopPooling (pr_t r) \<Longrightarrow> poll_step r (finish_stop r)"
| top_ctx: "pr_pc r = Top \<Longrightarrow> pt_ctxErr (pr_t r) \<noteq> None \<Longrightarrow> poll_step r (finish False r)"
| top_poll: "pr_pc r = Top \<Longrightarrow> \<not> pt_stopPooling (pr_t r) \<Longrightarrow> pt_ctxErr (pr_t r) = None \<Longrightarrow> pt_messages (pr_t r) \<Longrightarrow>
     poll_step r (r\<lparr>pr_t := pt_logf LDebug ''run polling'' [] (pr_t r), pr_pc := Polling, pr_gets := Suc (pr_gets r)\<rparr>)"
| top_nil: "pr_pc r = Top \<Longrightarrow> \<not> pt_stopPooling (pr_t r) \<Longrightarrow> pt_ctxErr (pr_t r) = None \<Longrightarrow> \<not> pt_messages (pr_t r) \<Longrightarrow>
     poll_step r (r\<lparr>pr_t := pt_logf LError ''messages channel is nil, can't read transport messages'' [] (pr_t r),
                   pr_pc := Failed (ErrorNew ''messages channel is nil'')\<rparr>)"
| response: "pr_pc r = Polling \<Longrightarrow> poll_body (pr_t r) resp = Inr body \<Longrightarrow>
     poll_step r (r\<lparr>pr_t := pt_logf LDebug ''receiveHttp: %s'' [pt_payload (pr_t r) body] (pr_t r), pr_pc := Delivering body\<rparr>)"
| response_error: "pr_pc r = Polling \<Longrightarrow> poll_body (pr_t r) resp = Inl e \<Longrightarrow> poll_step r (r\<lparr>pr_pc := Failed e\<rparr>)"
| deliver: "pr_pc r = Delivering body \<Longrightarrow>
     poll_step r (r\<lparr>pr_t := (pr_t r)\<lparr>pt_delivered := pt_delivered (pr_t r) @ [body]\<rparr>, pr_pc := Top\<rparr>)"
| deliver_ctx: "pr_pc r = Delivering body \<Longrightarrow> pt_ctxErr (pr_t r) = Some e \<Longrightarrow> poll_step r (r\<lparr>pr_pc := Failed e\<rparr>)"
| deliver_stop: "pr_pc r = Delivering body \<Longrightarrow> pt_stopCh (pr_t r) \<Longrightarrow> poll_step r (finish True r)"
| failed_stopped: "pr_pc r = Failed e \<Longrightarrow> pt_stopped (pr_t r) \<Longrightarrow> poll_step r (finish True r)"
| failed_ctx: "pr_pc r = Failed e \<Longrightarrow> \<not> pt_stopped (pr_t r) \<Longrightarrow> pt_ctxErr (pr_t r) \<noteq> None \<Longrightarrow> poll_step r (finish False r)"
| failed_retry: "pr_pc r = Failed e \<Longrightarrow> \<not> pt_stopped (pr_t r) \<Longrightarrow> pt_ctxErr (pr_t r) = None \<Longrightarrow>
     poll_step r (r\<lparr>pr_t := pt_logf LError ''poll error: %s'' [] (pr_t r), pr_pc := Backoff\<rparr>)"
| backoff_over: "pr_pc r = Backoff \<Longrightarrow> poll_step r (r\<lparr>pr_pc := Top\<rparr>)"
| backoff_stop: "pr_pc r = Backoff \<Longrightarrow> pt_stopPooling (pr_t r) \<Longrightarrow> poll_step r (finish_stop r)"
| backoff_ctx: "pr_pc r = Backoff \<Longrightarrow> pt_ctxErr (pr_t r) \<noteq> None \<Longrightarrow> poll_step r (finish False r)"

text \<open>
  The goroutines around it: \<^verbatim>\<open>Stop\<close>, the end of the context, and the handshake, which the Engine.IO
  client announces only with a session id.
\<close>

inductive polling_step :: "polling_run \<Rightarrow> polling_run \<Rightarrow> bool" where
  p_loop: "poll_step r r' \<Longrightarrow> polling_step r r'"
| p_stop: "polling_step r (r\<lparr>pr_t := pt_Stop (pr_t r)\<rparr>)"
| p_cancel: "pt_ctxErr (pr_t r) = None \<Longrightarrow> polling_step r (r\<lparr>pr_t := (pr_t r)\<lparr>pt_ctxErr := Some e, pt_reqCancelled := True\<rparr>\<rparr>)"
| p_handshake: "hs_Sid hs \<noteq> [] \<Longrightarrow> pt_SetHandshake hs (pr_t r) = Ret t \<Longrightarrow> polling_step r (r\<lparr>pr_t := t\<rparr>)"

definition polling_init :: "polling_run \<Rightarrow> bool" where
  "polling_init r \<longleftrightarrow>
     (\<exists>ctxErr url sid c. pr_t r = pt_Run ctxErr url sid True True (c\<lparr>pt_delivered := []\<rparr>)) \<and> pr_pc r = WaitGate \<and> pr_gets r = 0"

section \<open>The invariant\<close>

text \<open>Nothing has been stopped yet, or everything is set for the loop to end.\<close>

definition stop_signals :: "polling_run \<Rightarrow> bool" where
  "stop_signals r \<longleftrightarrow>
     (if pt_stopped (pr_t r) then pr_pc r = Finished \<or> pt_stopPooling (pr_t r) \<and> pt_stopCh (pr_t r) \<and> pt_reqCancelled (pr_t r)
      else pr_pc r \<noteq> Finished \<and> \<not> pt_stopOnce (pr_t r) \<and> \<not> pt_stopPooling (pr_t r))"

definition session_known :: "polling_run \<Rightarrow> bool" where
  "session_known r \<longleftrightarrow>
     pt_handshakeDone (pr_t r) \<noteq> None \<and>
     (pt_handshakeDone (pr_t r) = Some True \<longrightarrow> pt_sid (pr_t r) \<noteq> []) \<and>
     (pr_pc r \<noteq> WaitGate \<and> pr_pc r \<noteq> Finished \<or> pr_gets r \<noteq> 0 \<longrightarrow> pt_handshakeDone (pr_t r) = Some True)"

definition reported :: "polling_run \<Rightarrow> bool" where
  "reported r \<longleftrightarrow> (case pt_onClose (pr_t r) of None \<Rightarrow> False | Some rs \<Rightarrow> length rs = (if pr_pc r = Finished then 1 else 0))"

definition small :: "polling_Transport \<Rightarrow> bytes \<Rightarrow> bool" where
  "small c body \<longleftrightarrow> sint (pt_maxPayloadSize c) \<le> 0 \<or> int (length body) \<le> sint (pt_maxPayloadSize c)"

definition deliveries :: "polling_run \<Rightarrow> bool" where
  "deliveries r \<longleftrightarrow> list_all (small (pr_t r)) (pt_delivered (pr_t r)) \<and> (\<forall>body. pr_pc r = Delivering body \<longrightarrow> small (pr_t r) body)"

definition polling_inv :: "polling_run \<Rightarrow> bool" where
  "polling_inv r \<longleftrightarrow> stop_signals r \<and> session_known r \<and> reported r \<and> deliveries r"

lemmas polling_inv_defs = stop_signals_def session_known_def reported_def deliveries_def

lemmas polling_op_defs = finish_stop_def finish_def finishPolling_def pt_logf_def Let_def

lemma poll_body_small: "poll_body c resp = Inr body \<Longrightarrow> small c body"
  by (auto simp: poll_body_def small_def Let_def split: http_result.splits if_splits option.splits)

lemma poll_step_stop: "poll_step r r' \<Longrightarrow> stop_signals r \<Longrightarrow> stop_signals r'"
  by (induction rule: poll_step.induct) (auto simp: stop_signals_def polling_op_defs split: if_splits)

lemma poll_step_session: "poll_step r r' \<Longrightarrow> session_known r \<Longrightarrow> session_known r'"
  by (induction rule: poll_step.induct) (auto simp: session_known_def polling_op_defs)

lemma poll_step_reported: "poll_step r r' \<Longrightarrow> reported r \<Longrightarrow> reported r'"
  by (induction rule: poll_step.induct) (auto simp: reported_def polling_op_defs split: option.splits)

lemma small_log [simp]: "small (c\<lparr>pt_log := l\<rparr>) = small c" "small (c\<lparr>pt_delivered := ds\<rparr>) = small c"
  "small (c\<lparr>pt_stopped := b\<rparr>) = small c" "small (c\<lparr>pt_onClose := oc\<rparr>) = small c" "small (c\<lparr>pt_stopPooling := b\<rparr>) = small c"
  "small (c\<lparr>pt_ctxErr := e, pt_reqCancelled := b\<rparr>) = small c" "small (pt_Stop c) = small c"
  by (simp_all add: fun_eq_iff small_def pt_Stop_def Let_def)

lemma poll_step_deliveries: "poll_step r r' \<Longrightarrow> deliveries r \<Longrightarrow> deliveries r'"
  by (induction rule: poll_step.induct) (auto simp: deliveries_def polling_op_defs dest: poll_body_small)

lemma pt_SetHandshake_frame:
  assumes "pt_SetHandshake hs c = Ret t"
  shows "pt_sid t = hs_Sid hs" "pt_handshakeDone t = map_option (\<lambda>_. True) (pt_handshakeDone c)"
    "pt_stopped t = pt_stopped c" "pt_stopPooling t = pt_stopPooling c" "pt_stopCh t = pt_stopCh c" "pt_stopOnce t = pt_stopOnce c"
    "pt_reqCancelled t = pt_reqCancelled c" "pt_onClose t = pt_onClose c" "pt_delivered t = pt_delivered c" "small t = small c"
  using assms
  by (auto simp: pt_SetHandshake_def Let_def markHandshakeDoneLocked_def fun_eq_iff small_def split: if_splits option.splits)

lemma polling_step_inv: "polling_step r r' \<Longrightarrow> polling_inv r \<Longrightarrow> polling_inv r'"
proof (induction rule: polling_step.induct)
  case (p_loop r r')
  then show ?case
    by (simp add: polling_inv_def poll_step_stop poll_step_session poll_step_reported poll_step_deliveries)
next
  case (p_stop r)
  then show ?case
    by (auto simp: polling_inv_def polling_inv_defs, auto simp: pt_Stop_def Let_def split: if_splits option.splits)
next
  case (p_cancel r e)
  then show ?case by (auto simp: polling_inv_def polling_inv_defs split: if_splits option.splits)
next
  case (p_handshake hs r t)
  then show ?case
    by (auto simp: polling_inv_def polling_inv_defs pt_SetHandshake_frame [OF p_handshake(2)] split: if_splits option.splits)
qed

lemma pt_Run_frame:
  "pt_onClose (pt_Run ce u sid True True c) = Some []" "pt_stopped (pt_Run ce u sid True True c) = False"
  "pt_stopPooling (pt_Run ce u sid True True c) = False" "pt_stopOnce (pt_Run ce u sid True True c) = False"
  "pt_delivered (pt_Run ce u sid True True c) = pt_delivered c" "pt_sid (pt_Run ce u sid True True c) = sid"
  "pt_handshakeDone (pt_Run ce u sid True True c) = Some (sid \<noteq> [])"
  by (simp_all add: pt_Run_def Let_def markHandshakeDoneLocked_def)

lemma polling_init_inv: "polling_init r \<Longrightarrow> polling_inv r"
  by (auto simp: polling_init_def polling_inv_def polling_inv_defs pt_Run_frame)

interpretation polling: invariant_system polling_init polling_step polling_inv
  by unfold_locales (auto intro: polling_init_inv polling_step_inv)

section \<open>An example run\<close>

definition demo_url :: url where
  "demo_url = \<lparr>u_Scheme = ''http'', u_Host = ''localhost:3000'', u_Path = ''/socket.io/'', u_RawQuery = ''token=a%26b''\<rparr>"

definition demo_polling :: polling_Transport where
  "demo_polling = \<lparr>pt_url = demo_url, pt_sid = [], pt_ctxErr = None, pt_messages = True, pt_delivered = [], pt_onClose = None,
     pt_stopPooling = False, pt_reqCancelled = False, pt_handshakeDone = None, pt_stopCh = False, pt_stopOnce = False,
     pt_stopped = False, pt_maxPayloadSize = 4194304, pt_pinger = 10000000000, pt_redactPayload = True, pt_log = []\<rparr>"

text \<open>A run with a known session id, in its first request.\<close>

definition demo_started :: polling_run where
  "demo_started = \<lparr>pr_t = pt_Run None demo_url ''s1'' True True demo_polling, pr_pc = WaitGate, pr_gets = 0\<rparr>"

definition demo_in_poll :: polling_run where
  "demo_in_poll = demo_started\<lparr>pr_t := pt_logf LDebug ''run polling'' [] (pr_t demo_started), pr_pc := Polling, pr_gets := 1\<rparr>"

lemma demo_in_poll_reachable: "reachable polling_init polling_step demo_in_poll"
proof (rule reachable_step [OF reachable_step [OF reachable_init]])
  show "polling_init demo_started"
    unfolding polling_init_def
    by (intro conjI exI [of _ None] exI [of _ demo_url] exI [of _ "''s1''"] exI [of _ demo_polling])
      (simp_all add: demo_started_def demo_polling_def)
  show "polling_step demo_started (demo_started\<lparr>pr_pc := Top\<rparr>)"
    by (intro p_loop gate_passed) (simp_all add: demo_started_def pt_Run_frame)
  have "poll_step (demo_started\<lparr>pr_pc := Top\<rparr>) ((demo_started\<lparr>pr_pc := Top\<rparr>)
      \<lparr>pr_t := pt_logf LDebug ''run polling'' [] (pr_t (demo_started\<lparr>pr_pc := Top\<rparr>)), pr_pc := Polling,
        pr_gets := Suc (pr_gets (demo_started\<lparr>pr_pc := Top\<rparr>))\<rparr>)"
    by (rule top_poll) (simp_all add: demo_started_def pt_Run_def Let_def markHandshakeDoneLocked_def)
  then show "polling_step (demo_started\<lparr>pr_pc := Top\<rparr>) demo_in_poll"
    by (intro p_loop) (simp add: demo_in_poll_def demo_started_def)
qed

section \<open>What a run promises\<close>

text \<open>
  C15: A run of the polling transport reports its end on \<^verbatim>\<open>onClose\<close> exactly once, when its loop ends
  and not before, however \<^verbatim>\<open>Stop\<close>, the context, the handshake and the server's answers interleave; and
  no request is issued before a session id is known.
\<close>

theorem polling_reports_once:
  assumes "reachable polling_init polling_step r"
  shows "(\<exists>rs. pt_onClose (pr_t r) = Some rs \<and> length rs = (if pr_pc r = Finished then 1 else 0)) \<and>
    (pr_gets r \<noteq> 0 \<longrightarrow> pt_sid (pr_t r) \<noteq> [])"
  using polling.reachable_inv [OF assms]
  by (auto simp: polling_inv_def reported_def session_known_def split: option.splits)

theorem polling_reports_once_witness:
  "pt_onClose (pr_t demo_in_poll) = Some [] \<and> pt_sid (pr_t demo_in_poll) \<noteq> []"
  using polling_reports_once [OF demo_in_poll_reachable] by (auto simp: demo_in_poll_def)

fun pc_rank :: "poll_pc \<Rightarrow> nat" where
  "pc_rank Finished = 0"
| "pc_rank Top = 1"
| "pc_rank (Failed _) = 1"
| "pc_rank WaitGate = 2"
| "pc_rank Backoff = 2"
| "pc_rank (Delivering _) = 2"
| "pc_rank Polling = 3"

text \<open>What may still be delivered.\<close>

definition budget :: "polling_run \<Rightarrow> nat" where
  "budget r = length (pt_delivered (pr_t r)) + (case pr_pc r of Polling \<Rightarrow> 1 | Delivering _ \<Rightarrow> 1 | _ \<Rightarrow> 0)"

lemma stopped_step:
  assumes "poll_step r r'" and "polling_inv r" and "pt_stopped (pr_t r)"
  shows "pc_rank (pr_pc r') < pc_rank (pr_pc r)" "pt_stopped (pr_t r')" "pr_gets r' = pr_gets r" "budget r' \<le> budget r"
  using assms
  by (induction rule: poll_step.induct)
    (simp_all add: polling_inv_def stop_signals_def budget_def polling_op_defs split: poll_pc.splits)

text \<open>The loop never waits for something that \<^verbatim>\<open>Stop\<close> does not provide.\<close>

lemma stopped_progress:
  assumes "polling_inv r" and "pt_stopped (pr_t r)" and "pr_pc r \<noteq> Finished"
  shows "\<exists>r'. poll_step r r'"
proof (cases "pr_pc r")
  case Polling
  have "poll_body (pr_t r) (HttpFail context_Canceled) = Inl context_Canceled" by (simp add: poll_body_def)
  with Polling show ?thesis by (blast intro: response_error)
next
  case WaitGate
  with assms have "pt_handshakeDone (pr_t r) \<noteq> None" "pt_stopPooling (pr_t r)"
    by (simp_all add: polling_inv_def stop_signals_def session_known_def)
  with WaitGate show ?thesis by (blast intro: gate_stop)
qed (use assms in \<open>auto simp: polling_inv_def stop_signals_def intro: poll_step.intros\<close>)

lemma stopped_run:
  assumes "(poll_step ^^ n) r r'" and "polling_inv r" and "pt_stopped (pr_t r)"
  shows "n + pc_rank (pr_pc r') \<le> pc_rank (pr_pc r) \<and> polling_inv r' \<and> pt_stopped (pr_t r') \<and>
    pr_gets r' = pr_gets r \<and> budget r' \<le> budget r"
  using assms(1)
proof (induction n arbitrary: r')
  case 0
  with assms(2,3) show ?case by simp
next
  case (Suc n)
  then obtain s where s: "(poll_step ^^ n) r s" "poll_step s r'" by auto
  note IH = Suc.IH [OF s(1)]
  with polling_step_inv [OF p_loop [OF s(2)]] stopped_step [OF s(2)] show ?case by fastforce
qed


definition demo_stopping :: polling_run where
  "demo_stopping = demo_in_poll\<lparr>pr_t := pt_Stop (pr_t demo_in_poll)\<rparr>"

lemma demo_stopping_run:
  "(poll_step ^^ 2) demo_stopping (finish True (demo_stopping\<lparr>pr_pc := Failed context_Canceled\<rparr>))"
proof -
  have "poll_step demo_stopping (demo_stopping\<lparr>pr_pc := Failed context_Canceled\<rparr>)"
    by (rule response_error [where resp = "HttpFail context_Canceled"])
      (simp_all add: demo_stopping_def demo_in_poll_def poll_body_def)
  moreover have "poll_step (demo_stopping\<lparr>pr_pc := Failed context_Canceled\<rparr>)
      (finish True (demo_stopping\<lparr>pr_pc := Failed context_Canceled\<rparr>))"
    by (rule failed_stopped) (simp_all add: demo_stopping_def pt_Stop_def Let_def)
  ultimately show ?thesis by (auto simp: numeral_2_eq_2)
qed


section \<open>Requests\<close>

lemma sint_int64_less: "sint (x :: int64) < 2 ^ 63" "- (2 ^ 63) \<le> sint x"
  using sint_less [of x] sint_ge [of x] by simp_all

lemma readLimit_value:
  assumes "0 < sint m"
  shows "sint (readLimit m) = (if sint m = 2 ^ 63 - 1 then sint m else sint m + 1)"
proof (cases "sint m = 2 ^ 63 - 1")
  case True
  have "m = word_of_int (sint m)" by simp
  then have "m = 0x7FFFFFFFFFFFFFFF" unfolding True by simp
  then show ?thesis by (simp add: readLimit_def Let_def)
next
  case False
  then have "sint (m + 1) = sint m + 1"
    using sint_int64_less [of m] by (simp add: signed_take_bit_int_eq_self sint_word_ariths)
  then show ?thesis using False assms by (simp add: readLimit_def Let_def)
qed

lemma length_read_body:
  assumes "0 < sint m" and "length body < 2 ^ 63"
  shows "int (length (read_body m body)) \<le> sint m \<longleftrightarrow> int (length body) \<le> sint m"
    and "int (length body) \<le> sint m \<Longrightarrow> read_body m body = body"
  using assms by (auto simp: read_body_def readLimit_value split: if_splits)

text \<open>
  C18: A poll hands over exactly the bodies of successful responses within the size limit, complete and
  unchanged, for every positive limit up to the largest \<^verbatim>\<open>int64\<close>, where the one byte of extra reading
  would overflow; everything else is an error, and so never reaches the message loop.
\<close>

theorem poll_payload_bound:
  assumes "0 < sint (pt_maxPayloadSize c)" and "length body < 2 ^ 63"
  shows "poll_body c (HttpResp status body rerr) = Inr data \<longleftrightarrow>
    200 \<le> status \<and> status < 300 \<and> rerr = None \<and> int (length body) \<le> sint (pt_maxPayloadSize c) \<and> data = body"
  using assms length_read_body [OF assms]
  by (auto simp: poll_body_def Let_def split: option.splits)

theorem poll_payload_bound_witness:
  "poll_body (demo_polling\<lparr>pt_maxPayloadSize := 0x7FFFFFFFFFFFFFFF\<rparr>) (HttpResp 200 [0x32] None) = Inr [0x32]"
  using poll_payload_bound [of "demo_polling\<lparr>pt_maxPayloadSize := 0x7FFFFFFFFFFFFFFF\<rparr>" "[0x32]" 200 None "[0x32]"]
  by simp

text \<open>
  C29: The URL of a poll or post goes to the scheme, host and path of the client's URL and carries
  exactly the three protocol parameters, with the session id recoverable from it whatever bytes it
  has; the query of the client's URL is not part of it.
\<close>

theorem polling_url:
  "ParseQuery (u_RawQuery (buildHttpUrl c)) =
     ([(''EIO'', [''4'']), (''sid'', [pt_sid c]), (''transport'', [''polling''])], False) \<and>
   u_Scheme (buildHttpUrl c) = u_Scheme (pt_url c) \<and> u_Host (buildHttpUrl c) = u_Host (pt_url c) \<and>
   u_Path (buildHttpUrl c) = u_Path (pt_url c)"
proof -
  let ?vs = "[(''transport'', [''polling'']), (''EIO'', [''4'']), (''sid'', [pt_sid c])]"
  have q: "u_RawQuery (buildHttpUrl c) = Encode ?vs"
    by (simp add: buildHttpUrl_def ParseQuery_def parse_segment_def values_set_def)
  have "sort_key fst ?vs = [(''EIO'', [''4'']), (''sid'', [pt_sid c]), (''transport'', [''polling''])]"
    by simp
  then show ?thesis
    unfolding q by (subst ParseQuery_Encode) (simp_all add: values_ok_def buildHttpUrl_def)
qed

text \<open>The sentinel of a stopped poll never leaves the transport.\<close>

lemma RequestHandshake_hides_sentinel:
  "pt_ctxErr c \<noteq> Some errTransportStopped \<Longrightarrow> pt_RequestHandshake c r \<noteq> Some errTransportStopped"
  by (auto simp: pt_RequestHandshake_def errTransportStopped_def split: option.splits)

end
