(* ===== verification/WebSocket_Native.thy ===== *)
theory WebSocket_Native
  imports Prelude GoURL
begin

text \<open>
  The native WebSocket connection: \<^verbatim>\<open>websocket/native/ws.go\<close>, a thin layer over
  \<^verbatim>\<open>golang.org/x/net/websocket\<close> that guards against a connection that was never dialled. The foreign
  package is an argument: making a configuration, dialling, and the three operations on a connection.
\<close>

record ('cfg, 'conn) ws_package =
  wp_NewConfig :: "url \<Rightarrow> url \<Rightarrow> go_error + 'cfg"
  wp_DialContext :: "'cfg \<Rightarrow> 'conn option \<times> go_error option"
  wp_Send :: "'conn \<Rightarrow> bytes \<Rightarrow> 'conn \<times> go_error option"
  wp_Receive :: "'conn \<Rightarrow> 'conn \<times> (go_error + bytes)"
  wp_Close :: "'conn \<Rightarrow> 'conn \<times> go_error option"

record 'conn WebSocketConnection =
  ws_conn :: "'conn option"

definition ErrNotConnected :: go_error where
  "ErrNotConnected = ErrorNew ''socket connection is not initialized''"

definition ws_Dial ::
  "('cfg, 'conn) ws_package \<Rightarrow> url \<Rightarrow> url \<Rightarrow> 'conn WebSocketConnection \<Rightarrow> 'conn WebSocketConnection \<times> go_error option" where
  "ws_Dial pkg url origin ws =
     (case wp_NewConfig pkg url origin of
        Inl e \<Rightarrow> (ws, Some e)
      | Inr config \<Rightarrow> (case wp_DialContext pkg config of (conn, err) \<Rightarrow> (ws\<lparr>ws_conn := conn\<rparr>, err)))"

definition ws_Send ::
  "('cfg, 'conn) ws_package \<Rightarrow> bytes \<Rightarrow> 'conn WebSocketConnection \<Rightarrow> 'conn WebSocketConnection \<times> go_error option" where
  "ws_Send pkg v ws =
     (case ws_conn ws of
        None \<Rightarrow> (ws, Some ErrNotConnected)
      | Some conn \<Rightarrow> (case wp_Send pkg conn v of (conn', err) \<Rightarrow> (ws\<lparr>ws_conn := Some conn'\<rparr>, err)))"

definition ws_Receive ::
  "('cfg, 'conn) ws_package \<Rightarrow> 'conn WebSocketConnection \<Rightarrow> 'conn WebSocketConnection \<times> (go_error + bytes)" where
  "ws_Receive pkg ws =
     (case ws_conn ws of
        None \<Rightarrow> (ws, Inl ErrNotConnected)
      | Some conn \<Rightarrow> (case wp_Receive pkg conn of (conn', r) \<Rightarrow> (ws\<lparr>ws_conn := Some conn'\<rparr>, r)))"

definition ws_Close ::
  "('cfg, 'conn) ws_package \<Rightarrow> 'conn WebSocketConnection \<Rightarrow> 'conn WebSocketConnection \<times> go_error option" where
  "ws_Close pkg ws =
     (case ws_conn ws of
        None \<Rightarrow> (ws, None)
      | Some conn \<Rightarrow> (case wp_Close pkg conn of (conn', err) \<Rightarrow> (ws\<lparr>ws_conn := Some conn'\<rparr>, err)))"

text \<open>
  A connection that was never dialled, or whose dial failed, refuses to send and to receive and
  closes without error: no operation reaches the foreign package with a \<^verbatim>\<open>nil\<close> connection.
\<close>

lemma ws_not_connected:
  "ws_conn ws = None \<Longrightarrow> ws_Send pkg v ws = (ws, Some ErrNotConnected) \<and> ws_Receive pkg ws = (ws, Inl ErrNotConnected) \<and>
     ws_Close pkg ws = (ws, None)"
  by (simp add: ws_Send_def ws_Receive_def ws_Close_def)

end
