(* ===== verification/Transport_WebSocket.thy ===== *)
theory Transport_WebSocket
  imports EngineIO_Parser Logging GoURL WebSocket_Native
begin

text \<open>
  The WebSocket transport: \<^verbatim>\<open>transport/websocket/transport.go\<close>. The read loop started by \<^verbatim>\<open>Run\<close> is a
  state machine; each of its turns starts a reader goroutine that leaves its result in one of two
  channels of capacity 1. The invariant shows that no reader goroutine blocks, that the loop reports
  its end exactly once, and that a stop request is not lost.
\<close>

section \<open>State and operations\<close>

record ws_Transport =
  wt_url :: url
  wt_origin :: "url option"
  wt_sid :: string
  wt_ctxErr :: "go_error option"
  wt_delivered :: "bytes list" \<comment> \<open>what has been sent on \<^verbatim>\<open>messages\<close>\<close>
  wt_onClose :: "go_error option list option" \<comment> \<open>\<^verbatim>\<open>nil\<close>, or the buffer of the channel of capacity 1\<close>
  wt_stopPooling :: bool
  wt_redactPayload :: bool
  wt_log :: "log_line list"

definition wt_logf :: "log_level \<Rightarrow> string \<Rightarrow> string list \<Rightarrow> ws_Transport \<Rightarrow> ws_Transport" where
  "wt_logf lv fmt args c = c\<lparr>wt_log := wt_log c @ [(lv, fmt, args)]\<rparr>"

definition wt_payload :: "ws_Transport \<Rightarrow> bytes \<Rightarrow> string" where
  "wt_payload c data = render_payload (wt_redactPayload c) data"

definition wt_Transport :: "ws_Transport \<Rightarrow> EngineIOTransport" where
  "wt_Transport c = TransportWebsocket"

definition wt_Stop :: "ws_Transport \<Rightarrow> ws_Transport" where
  "wt_Stop c = c\<lparr>wt_stopPooling := True\<rparr>"

definition wt_RequestHandshake :: "ws_Transport \<Rightarrow> go_error option" where
  "wt_RequestHandshake c = None"

definition wt_SetHandshake :: "HandshakeResponse \<Rightarrow> ws_Transport \<Rightarrow> ws_Transport" where
  "wt_SetHandshake handshake c = c\<lparr>wt_sid := hs_Sid handshake\<rparr>"

definition buildWsUrl :: "ws_Transport \<Rightarrow> url" where
  "buildWsUrl c =
     (let q = fst (ParseQuery (u_RawQuery (wt_url c)));
          query = values_set ''sid'' (wt_sid c) (values_set ''EIO'' ''4'' (values_set ''transport'' ''websocket'' q)) in
      \<lparr>u_Scheme = (if u_Scheme (wt_url c) = ''https'' then ''wss'' else ''ws''), u_Host = u_Host (wt_url c),
       u_Path = u_Path (wt_url c), u_RawQuery = Encode query\<rparr>)"

definition log_bad_query :: "ws_Transport \<Rightarrow> ws_Transport" where
  "log_bad_query c =
     (if snd (ParseQuery (u_RawQuery (wt_url c))) then wt_logf LError ''malformed query on url: %s'' [] c else c)"

text \<open>\<^verbatim>\<open>connectWebSocket\<close> up to the start of the read loop; \<open>dial\<close> is the \<^verbatim>\<open>WebSocket\<close> it was given.\<close>

definition connectWebSocket ::
  "(url \<Rightarrow> url \<Rightarrow> go_error option) \<Rightarrow> ws_Transport \<Rightarrow> ws_Transport \<times> go_error option" where
  "connectWebSocket dial c =
     (let c = wt_logf LDebug ''open ws'' [] c;
          origin = (case wt_origin c of None \<Rightarrow> wt_url c | Some u \<Rightarrow> u) in
      (log_bad_query c, dial (buildWsUrl c) origin))"

definition wt_Run ::
  "(url \<Rightarrow> url \<Rightarrow> go_error option) \<Rightarrow> go_error option \<Rightarrow> url \<Rightarrow> string \<Rightarrow> bool \<Rightarrow> ws_Transport \<Rightarrow> ws_Transport \<times> go_error option" where
  "wt_Run dial ctxErr url sid onClose c =
     connectWebSocket dial
       (c\<lparr>wt_ctxErr := ctxErr, wt_sid := sid, wt_url := url, wt_onClose := (if onClose then Some [] else None)\<rparr>)"

definition wt_SendMessage :: "(bytes \<Rightarrow> go_error option) \<Rightarrow> bytes \<Rightarrow> ws_Transport \<Rightarrow> ws_Transport \<times> go_error option" where
  "wt_SendMessage send msg c = (wt_logf LDebug ''sendWs: %s'' [wt_payload c msg] c, send msg)"

text \<open>The non-blocking send on \<^verbatim>\<open>onClose\<close>.\<close>

definition notify_close :: "go_error option \<Rightarrow> ws_Transport \<Rightarrow> ws_Transport" where
  "notify_close v c = (case wt_onClose c of Some [] \<Rightarrow> c\<lparr>wt_onClose := Some [v]\<rparr> | _ \<Rightarrow> c)"

section \<open>The read loop\<close>

datatype ws_pc = WsTop | WsSelect | WsDeliver bytes | WsExit "go_error option" | WsEnded

record ws_run =
  wr_t :: ws_Transport
  wr_pc :: ws_pc
  wr_readers :: nat \<comment> \<open>reader goroutines in \<^verbatim>\<open>Receive\<close>\<close>
  wr_messageCh :: "bytes list"
  wr_errorCh :: "go_error list"
  wr_closed :: bool \<comment> \<open>\<^verbatim>\<open>ws.Close\<close> has been called\<close>

definition ws_leave :: "string \<Rightarrow> go_error option \<Rightarrow> ws_run \<Rightarrow> ws_run" where
  "ws_leave fmt v r = r\<lparr>wr_t := notify_close v (wt_logf LDebug fmt [] (wr_t r)), wr_pc := WsExit v\<rparr>"

definition ws_leave_stop :: "string \<Rightarrow> ws_run \<Rightarrow> ws_run" where
  "ws_leave_stop fmt r = ws_leave fmt None (r\<lparr>wr_t := (wr_t r)\<lparr>wt_stopPooling := False\<rparr>\<rparr>)"

inductive ws_step :: "ws_run \<Rightarrow> ws_run \<Rightarrow> bool" where
  start_reader: "wr_pc r = WsTop \<Longrightarrow> ws_step r (r\<lparr>wr_pc := WsSelect, wr_readers := Suc (wr_readers r)\<rparr>)"
| reader_message: "wr_readers r = Suc n \<Longrightarrow> \<not> wr_closed r \<Longrightarrow> length (wr_messageCh r) < 1 \<Longrightarrow>
     ws_step r (r\<lparr>wr_readers := n, wr_messageCh := wr_messageCh r @ [message]\<rparr>)"
| reader_error: "wr_readers r = Suc n \<Longrightarrow> length (wr_errorCh r) < 1 \<Longrightarrow>
     ws_step r (r\<lparr>wr_readers := n, wr_errorCh := wr_errorCh r @ [e]\<rparr>)"
| select_stop: "wr_pc r = WsSelect \<Longrightarrow> wt_stopPooling (wr_t r) \<Longrightarrow>
     ws_step r (ws_leave_stop ''Context cancelled, exiting ws read loop'' r)"
| select_ctx: "wr_pc r = WsSelect \<Longrightarrow> wt_ctxErr (wr_t r) = Some e \<Longrightarrow>
     ws_step r (ws_leave ''Context cancelled, exiting ws read loop'' (Some e) r)"
| select_message: "wr_pc r = WsSelect \<Longrightarrow> wr_messageCh r = message # rest \<Longrightarrow>
     ws_step r (r\<lparr>wr_t := wt_logf LDebug ''receiveWs: %s'' [wt_payload (wr_t r) message] (wr_t r),
                  wr_messageCh := rest, wr_pc := WsDeliver message\<rparr>)"
| select_error: "wr_pc r = WsSelect \<Longrightarrow> wr_errorCh r = e # rest \<Longrightarrow>
     ws_step r (r\<lparr>wr_t := notify_close (Some e) (wt_logf LError ''receiveWsError: %v'' [] (wr_t r)),
                  wr_errorCh := rest, wr_pc := WsExit (Some e)\<rparr>)"
| deliver_message: "wr_pc r = WsDeliver message \<Longrightarrow>
     ws_step r (r\<lparr>wr_t := (wr_t r)\<lparr>wt_delivered := wt_delivered (wr_t r) @ [message]\<rparr>, wr_pc := WsTop\<rparr>)"
| message_stop: "wr_pc r = WsDeliver message \<Longrightarrow> wt_stopPooling (wr_t r) \<Longrightarrow>
     ws_step r (ws_leave_stop ''Stop signal received, exiting ws read loop'' r)"
| message_ctx: "wr_pc r = WsDeliver message \<Longrightarrow> wt_ctxErr (wr_t r) = Some e \<Longrightarrow>
     ws_step r (ws_leave ''Context cancelled, exiting ws read loop'' (Some e) r)"
| loop_exit: "wr_pc r = WsExit err \<Longrightarrow>
     ws_step r (r\<lparr>wr_t := (if err = None then wr_t r else wt_logf LError ''wsReadLoop: %s'' [] (wr_t r)),
                  wr_closed := True, wr_pc := WsEnded\<rparr>)"

inductive websocket_step :: "ws_run \<Rightarrow> ws_run \<Rightarrow> bool" where
  w_loop: "ws_step r r' \<Longrightarrow> websocket_step r r'"
| w_stop: "websocket_step r (r\<lparr>wr_t := wt_Stop (wr_t r)\<rparr>)"
| w_cancel: "wt_ctxErr (wr_t r) = None \<Longrightarrow> websocket_step r (r\<lparr>wr_t := (wr_t r)\<lparr>wt_ctxErr := Some e\<rparr>\<rparr>)"
| w_handshake: "websocket_step r (r\<lparr>wr_t := wt_SetHandshake hs (wr_t r)\<rparr>)"

definition ws_started :: "ws_Transport \<Rightarrow> ws_run" where
  "ws_started c = \<lparr>wr_t = c, wr_pc = WsTop, wr_readers = 0, wr_messageCh = [], wr_errorCh = [], wr_closed = False\<rparr>"

definition websocket_init :: "ws_run \<Rightarrow> bool" where
  "websocket_init r \<longleftrightarrow> (\<exists>dial ctxErr url sid c c'. wt_Run dial ctxErr url sid True c = (c', None) \<and> r = ws_started c')"

section \<open>The invariant\<close>

text \<open>Readers at work and results not yet taken.\<close>

definition outstanding :: "ws_run \<Rightarrow> nat" where
  "outstanding r = wr_readers r + length (wr_messageCh r) + length (wr_errorCh r)"

definition ws_finished :: "ws_run \<Rightarrow> bool" where
  "ws_finished r \<longleftrightarrow> (case wr_pc r of WsExit _ \<Rightarrow> True | WsEnded \<Rightarrow> True | _ \<Rightarrow> False)"

definition websocket_inv :: "ws_run \<Rightarrow> bool" where
  "websocket_inv r \<longleftrightarrow>
     (case wr_pc r of WsTop \<Rightarrow> outstanding r = 0 | WsDeliver _ \<Rightarrow> outstanding r = 0 | WsSelect \<Rightarrow> outstanding r = 1
                    | _ \<Rightarrow> outstanding r \<le> 1) \<and>
     (case wt_onClose (wr_t r) of None \<Rightarrow> False | Some rs \<Rightarrow> length rs = (if ws_finished r then 1 else 0)) \<and>
     (wr_closed r \<longleftrightarrow> wr_pc r = WsEnded)"

lemmas ws_op_defs = ws_leave_stop_def ws_leave_def notify_close_def wt_logf_def outstanding_def ws_finished_def

lemma ws_step_inv: "ws_step r r' \<Longrightarrow> websocket_inv r \<Longrightarrow> websocket_inv r'"
  by (induction rule: ws_step.induct)
    (auto simp: websocket_inv_def ws_op_defs split: ws_pc.splits option.splits list.splits)

lemma websocket_step_inv: "websocket_step r r' \<Longrightarrow> websocket_inv r \<Longrightarrow> websocket_inv r'"
proof (induction rule: websocket_step.induct)
  case (w_loop r r')
  then show ?case by (rule ws_step_inv)
qed (auto simp: websocket_inv_def outstanding_def ws_finished_def wt_Stop_def wt_SetHandshake_def
    split: ws_pc.splits option.splits)

lemma wt_Run_frame:
  assumes "wt_Run dial ctxErr url sid True c = (c', e)"
  shows "wt_onClose c' = Some []" "wt_stopPooling c' = wt_stopPooling c" "wt_ctxErr c' = ctxErr" "wt_delivered c' = wt_delivered c"
  using assms
  by (auto simp: wt_Run_def connectWebSocket_def log_bad_query_def wt_logf_def Let_def split: if_splits)

lemma websocket_init_inv: "websocket_init r \<Longrightarrow> websocket_inv r"
  by (auto simp: websocket_init_def websocket_inv_def ws_started_def outstanding_def ws_finished_def dest!: wt_Run_frame(1))

interpretation websocket: invariant_system websocket_init websocket_step websocket_inv
  by unfold_locales (auto intro: websocket_init_inv websocket_step_inv)

section \<open>An example run\<close>

definition demo_ws :: ws_Transport where
  "demo_ws = \<lparr>wt_url = \<lparr>u_Scheme = ''https'', u_Host = ''example.org'', u_Path = ''/socket.io/'', u_RawQuery = ''token=a%26b&sid=old''\<rparr>,
     wt_origin = None, wt_sid = ''s1'', wt_ctxErr = None, wt_delivered = [], wt_onClose = None, wt_stopPooling = False,
     wt_redactPayload = True, wt_log = []\<rparr>"

definition demo_ws_run :: ws_run where
  "demo_ws_run = ws_started (fst (wt_Run (\<lambda>_ _. None) None (wt_url demo_ws) ''s1'' True demo_ws))"

definition demo_ws_reading :: ws_run where
  "demo_ws_reading = demo_ws_run\<lparr>wr_pc := WsSelect, wr_readers := Suc (wr_readers demo_ws_run)\<rparr>"

lemma demo_ws_reachable: "reachable websocket_init websocket_step demo_ws_reading"
proof (rule reachable_step)
  show "reachable websocket_init websocket_step demo_ws_run"
  proof (rule reachable_init)
    have "wt_Run (\<lambda>_ _. None) None (wt_url demo_ws) ''s1'' True demo_ws =
        (fst (wt_Run (\<lambda>_ _. None) None (wt_url demo_ws) ''s1'' True demo_ws), None)"
      by (simp add: wt_Run_def connectWebSocket_def Let_def)
    then show "websocket_init demo_ws_run" unfolding websocket_init_def demo_ws_run_def by blast
  qed
  show "websocket_step demo_ws_run demo_ws_reading"
    unfolding demo_ws_reading_def by (intro w_loop start_reader) (simp add: demo_ws_run_def ws_started_def)
qed

section \<open>What a run promises\<close>

text \<open>
  C16: In every reachable state at most one reader goroutine is at work, and then both of its channels
  are empty, so a reader never blocks and always ends, also after the loop has left; and the loop
  reports its end on \<^verbatim>\<open>onClose\<close> exactly once, when it leaves.
\<close>

theorem ws_reader_never_blocks:
  assumes "reachable websocket_init websocket_step r"
  shows "(0 < wr_readers r \<longrightarrow> wr_readers r = 1 \<and> wr_messageCh r = [] \<and> wr_errorCh r = []) \<and>
    (\<exists>rs. wt_onClose (wr_t r) = Some rs \<and> length rs = (if ws_finished r then 1 else 0))"
proof -
  have inv: "websocket_inv r" by (rule websocket.reachable_inv [OF assms])
  then have "outstanding r \<le> 1" by (auto simp: websocket_inv_def split: ws_pc.splits)
  then have "0 < wr_readers r \<Longrightarrow> wr_readers r = 1 \<and> length (wr_messageCh r) = 0 \<and> length (wr_errorCh r) = 0"
    unfolding outstanding_def by linarith
  with inv show ?thesis by (auto simp: websocket_inv_def split: option.splits)
qed

theorem ws_reader_never_blocks_witness:
  "wr_readers demo_ws_reading = 1 \<and> wr_messageCh demo_ws_reading = [] \<and> wr_errorCh demo_ws_reading = []"
  using ws_reader_never_blocks [OF demo_ws_reachable] by (simp add: demo_ws_reading_def)

text \<open>What a stop request needs: the loop's own steps only.\<close>

lemma ws_exit_run:
  assumes "wr_pc r = WsExit err"
  shows "\<exists>r'. (ws_step ^^ 1) r r' \<and> wr_pc r' = WsEnded \<and> wt_delivered (wr_t r') = wt_delivered (wr_t r)"
  using loop_exit [OF assms] by (auto simp: wt_logf_def intro!: exI)

lemma ws_select_run:
  assumes "wr_pc r = WsSelect \<or> (\<exists>m. wr_pc r = WsDeliver m)" and "wt_stopPooling (wr_t r)"
  shows "\<exists>r'. (ws_step ^^ 2) r r' \<and> wr_pc r' = WsEnded \<and> wt_delivered (wr_t r') = wt_delivered (wr_t r)"
proof -
  obtain fmt where step: "ws_step r (ws_leave_stop fmt r)"
    using assms select_stop message_stop by blast
  have "wr_pc (ws_leave_stop fmt r) = WsExit None" "wt_delivered (wr_t (ws_leave_stop fmt r)) = wt_delivered (wr_t r)"
    by (simp_all add: ws_op_defs split: option.splits list.splits)
  with ws_exit_run [of "ws_leave_stop fmt r" None] step show ?thesis
    by (auto simp: numeral_2_eq_2 relcompp_apply)
qed

text \<open>
  C17: A stop request is never lost and never waits for the server: from every reachable state in
  which a stop is requested and the loop has not left, the loop can end by at most three steps of its
  own, with nothing more delivered, and no step of the loop but its leaving takes the request away.
\<close>

theorem ws_stop_honoured:
  assumes "reachable websocket_init websocket_step r" and "wt_stopPooling (wr_t r)" and "\<not> ws_finished r"
  shows "(\<exists>n r'. n \<le> 3 \<and> (ws_step ^^ n) r r' \<and> wr_pc r' = WsEnded \<and> wt_delivered (wr_t r') = wt_delivered (wr_t r)) \<and>
    (\<forall>s. ws_step r s \<longrightarrow> wt_stopPooling (wr_t s) \<or> ws_finished s)"
proof
  show "\<exists>n r'. n \<le> 3 \<and> (ws_step ^^ n) r r' \<and> wr_pc r' = WsEnded \<and> wt_delivered (wr_t r') = wt_delivered (wr_t r)"
  proof (cases "wr_pc r = WsTop")
    case True
    let ?s = "r\<lparr>wr_pc := WsSelect, wr_readers := Suc (wr_readers r)\<rparr>"
    obtain r' where "(ws_step ^^ 2) ?s r'" "wr_pc r' = WsEnded" "wt_delivered (wr_t r') = wt_delivered (wr_t r)"
      using ws_select_run [of ?s] assms(2) by auto
    moreover from this(1) have "(ws_step ^^ 3) r r'"
      using relpowp_Suc_I2 [of ws_step r ?s 2 r', OF start_reader [OF True]] by (simp add: numeral_3_eq_3 numeral_2_eq_2)
    ultimately show ?thesis by blast
  next
    case False
    then have "wr_pc r = WsSelect \<or> (\<exists>m. wr_pc r = WsDeliver m)"
      using assms(3) by (cases "wr_pc r") (auto simp: ws_finished_def)
    from ws_select_run [OF this assms(2)] show ?thesis by (intro exI [of _ 2]) simp
  qed
  show "\<forall>s. ws_step r s \<longrightarrow> wt_stopPooling (wr_t s) \<or> ws_finished s"
  proof (intro allI impI)
    fix s
    assume "ws_step r s"
    then show "wt_stopPooling (wr_t s) \<or> ws_finished s"
      using assms(2) by (induction rule: ws_step.induct) (auto simp: ws_op_defs split: option.splits list.splits)
  qed
qed

lemma demo_ws_stopping_reachable: "reachable websocket_init websocket_step (demo_ws_reading\<lparr>wr_t := wt_Stop (wr_t demo_ws_reading)\<rparr>)"
  by (rule reachable_step [OF demo_ws_reachable w_stop])

theorem ws_stop_honoured_witness:
  "\<exists>n r'. n \<le> 3 \<and> (ws_step ^^ n) (demo_ws_reading\<lparr>wr_t := wt_Stop (wr_t demo_ws_reading)\<rparr>) r' \<and> wr_pc r' = WsEnded"
  using ws_stop_honoured [OF demo_ws_stopping_reachable]
  by (auto simp: wt_Stop_def ws_finished_def demo_ws_reading_def)

text \<open>
  C28: The WebSocket URL keeps every parameter of the client's URL, decoded from and encoded into its
  query, except the three protocol parameters, which the transport sets; the scheme is the secure one
  exactly for \<^verbatim>\<open>https\<close>.
\<close>

theorem ws_url:
  "\<exists>query. ParseQuery (u_RawQuery (buildWsUrl c)) = (query, False) \<and>
     map_of query ''sid'' = Some [wt_sid c] \<and> map_of query ''EIO'' = Some [''4''] \<and>
     map_of query ''transport'' = Some [''websocket''] \<and>
     (\<forall>k. k \<notin> {''sid'', ''EIO'', ''transport''} \<longrightarrow>
        map_of query k = map_of (fst (ParseQuery (u_RawQuery (wt_url c)))) k) \<and>
     (u_Scheme (buildWsUrl c) = ''wss'' \<longleftrightarrow> u_Scheme (wt_url c) = ''https'')"
proof -
  let ?q = "values_set ''sid'' (wt_sid c) (values_set ''EIO'' ''4'' (values_set ''transport'' ''websocket''
      (fst (ParseQuery (u_RawQuery (wt_url c))))))"
  have ok: "values_ok ?q" by (intro values_set_ok ParseQuery_ok)
  then have "ParseQuery (u_RawQuery (buildWsUrl c)) = (sort_key fst ?q, False)"
    by (simp add: buildWsUrl_def Let_def ParseQuery_Encode)
  moreover have "map_of (sort_key fst ?q) = map_of ?q"
    using ok by (intro map_of_sort_key) (simp add: values_ok_def)
  ultimately show ?thesis
    by (auto simp: map_of_values_set buildWsUrl_def Let_def)
qed

theorem ws_url_witness:
  "map_of (fst (ParseQuery (u_RawQuery (buildWsUrl demo_ws)))) ''token'' = Some [''a&b'']"
proof -
  have t: "map_of (fst (ParseQuery (u_RawQuery (wt_url demo_ws)))) ''token'' = Some [''a&b'']" by code_simp
  obtain query where "ParseQuery (u_RawQuery (buildWsUrl demo_ws)) = (query, False)"
    "\<forall>k. k \<notin> {''sid'', ''EIO'', ''transport''} \<longrightarrow> map_of query k = map_of (fst (ParseQuery (u_RawQuery (wt_url demo_ws)))) k"
    using ws_url [of demo_ws] by (elim exE conjE) (rule that)
  then show ?thesis using t by simp
qed

text \<open>
  \<^verbatim>\<open>Stop\<close> on a transport whose loop has already ended leaves its token in \<^verbatim>\<open>stopPooling\<close>, which
  \<^verbatim>\<open>Run\<close> does not clear (the polling transport does): the next run can leave at once, reporting a
  regular end, before it has received anything.
\<close>

lemma ws_stale_stop:
  assumes "wt_Run dial ctxErr url sid True (wt_Stop c) = (c', None)"
  shows "\<exists>r'. (ws_step ^^ 3) (ws_started c') r' \<and> wr_pc r' = WsEnded \<and> wt_onClose (wr_t r') = Some [None] \<and>
    wt_delivered (wr_t r') = wt_delivered c"
proof -
  note f = wt_Run_frame [OF assms]
  let ?r1 = "(ws_started c')\<lparr>wr_pc := WsSelect, wr_readers := Suc (wr_readers (ws_started c'))\<rparr>"
  let ?r2 = "ws_leave_stop ''Context cancelled, exiting ws read loop'' ?r1"
  let ?r3 = "?r2\<lparr>wr_t := wr_t ?r2, wr_closed := True, wr_pc := WsEnded\<rparr>"
  have "ws_step (ws_started c') ?r1" by (rule start_reader) (simp add: ws_started_def)
  moreover have "ws_step ?r1 ?r2"
    using f(2) by (intro select_stop) (simp_all add: ws_started_def wt_Stop_def)
  moreover have "ws_step ?r2 ?r3"
    using loop_exit [of ?r2 None] by (simp add: ws_op_defs)
  ultimately have "(ws_step ^^ 3) (ws_started c') ?r3"
    unfolding numeral_3_eq_3 by (auto intro!: relcomppI)
  moreover have "wt_onClose (wr_t ?r3) = Some [None]" "wt_delivered (wr_t ?r3) = wt_delivered c"
    using f(1,4) by (simp_all add: ws_op_defs ws_started_def wt_Stop_def)
  ultimately show ?thesis by (intro exI [of _ ?r3]) simp
qed

lemma ws_stale_stop_example:
  "\<exists>r'. (ws_step ^^ 3) (ws_started (fst (wt_Run (\<lambda>_ _. None) None (wt_url demo_ws) ''s1'' True (wt_Stop demo_ws)))) r' \<and>
     wr_pc r' = WsEnded \<and> wt_onClose (wr_t r') = Some [None]"
proof -
  have "wt_Run (\<lambda>_ _. None) None (wt_url demo_ws) ''s1'' True (wt_Stop demo_ws) =
      (fst (wt_Run (\<lambda>_ _. None) None (wt_url demo_ws) ''s1'' True (wt_Stop demo_ws)), None)"
    by (simp add: wt_Run_def connectWebSocket_def Let_def)
  from ws_stale_stop [OF this] show ?thesis by blast
qed

end
