(* ===== verification/Constructors.thy ===== *)
theory Constructors
  imports SocketIO_Acks EngineIO_Gates Transport_Polling Transport_WebSocket
begin

text \<open>
  The constructors with their functional options: \<^verbatim>\<open>constructor.go\<close> of both transports, of both
  clients and of the default parser. An interface value that may be \<^verbatim>\<open>nil\<close> is an \<open>option\<close>; values the
  library does not look into (loggers, HTTP clients, tickers, timers, user transports) are
  references. \<^verbatim>\<open>url.Parse\<close> is an argument. The constructed clients are the initial states of the step
  relations of the other theories.
\<close>

section \<open>Options\<close>

text \<open>An option changes the configuration, fails, or panics.\<close>

type_synonym 'c opt = "'c \<Rightarrow> (go_error + 'c) go"

fun apply_opts :: "'c opt list \<Rightarrow> 'c \<Rightarrow> (go_error + 'c) go" where
  "apply_opts [] c = Ret (Inr c)"
| "apply_opts (opt # opts) c =
     (case opt c of
        Panic r \<Rightarrow> Panic r
      | Ret (Inl e) \<Rightarrow> Ret (Inl e)
      | Ret (Inr c') \<Rightarrow> apply_opts opts c')"

lemma apply_opts_invariant:
  assumes "apply_opts opts c = Ret (Inr c')" and "P c"
    and "\<And>opt x y. opt \<in> set opts \<Longrightarrow> opt x = Ret (Inr y) \<Longrightarrow> P x \<Longrightarrow> P y"
  shows "P c'"
  using assms
proof (induction opts arbitrary: c)
  case (Cons opt opts)
  obtain c1 where c1: "opt c = Ret (Inr c1)" and rest: "apply_opts opts c1 = Ret (Inr c')"
    using Cons.prems(1) by (auto split: go.splits sum.splits)
  have "P c1" using Cons.prems(3) [of opt c c1] c1 Cons.prems(2) by simp
  with rest Cons.prems(3) show ?case by (intro Cons.IH [OF rest]) auto
qed simp

datatype logger_ref = DefaultLogger_ref | UserLogger nat

section \<open>The polling transport\<close>

datatype http_ref = DefaultHttp int64 | UserHttp nat
datatype ticker_ref = OwnTicker | SharedTicker nat

record PollingConfig =
  pg_log :: "logger_ref option"
  pg_httpClient :: "http_ref option"
  pg_pinger :: "ticker_ref option"
  pg_maxPayloadSize :: int64
  pg_redactPayload :: bool
  pg_pollErrorBackoff :: int64

definition seconds :: "int64 \<Rightarrow> int64" where
  "seconds n = n * 1000000000"

definition polling_defaults :: PollingConfig where
  "polling_defaults = \<lparr>pg_log = Some DefaultLogger_ref, pg_httpClient = Some (DefaultHttp (seconds 30)), pg_pinger = Some OwnTicker,
     pg_maxPayloadSize = 4 * 1024 * 1024, pg_redactPayload = True, pg_pollErrorBackoff = seconds 1\<rparr>"

definition polling_NewTransport :: "PollingConfig opt list \<Rightarrow> (go_error + PollingConfig) go" where
  "polling_NewTransport options =
     (case apply_opts options polling_defaults of
        Panic r \<Rightarrow> Panic r
      | Ret (Inl e) \<Rightarrow> Ret (Inl e)
      | Ret (Inr c) \<Rightarrow>
          if pg_pinger c = None then Ret (Inl (ErrorNew ''pinger is nil''))
          else if pg_log c = None then Ret (Inl (ErrorNew ''logger is nil''))
          else if pg_httpClient c = None then Ret (Inl (ErrorNew ''HTTP client is nil''))
          else Ret (Inr c))"

definition polling_WithLogger :: "logger_ref option \<Rightarrow> PollingConfig opt" where
  "polling_WithLogger logger c = Ret (Inr (c\<lparr>pg_log := logger\<rparr>))"

definition WithHTTPClient :: "http_ref option \<Rightarrow> PollingConfig opt" where
  "WithHTTPClient httpClient c = Ret (Inr (c\<lparr>pg_httpClient := httpClient\<rparr>))"

text \<open>\<^verbatim>\<open>c.pinger.Stop()\<close> on a pinger that an earlier option set to \<^verbatim>\<open>nil\<close> panics.\<close>

definition WithDefaultPinger :: "ticker_ref option \<Rightarrow> PollingConfig opt" where
  "WithDefaultPinger pinger c =
     (if pg_pinger c = None then Panic ''invalid memory address or nil pointer dereference''
      else Ret (Inr (c\<lparr>pg_pinger := pinger\<rparr>)))"

definition WithMaxPayloadSize :: "int64 \<Rightarrow> PollingConfig opt" where
  "WithMaxPayloadSize n c =
     (if sint n \<le> 0 then Ret (Inl (ErrorNew ''maxPayloadSize must be positive''))
      else Ret (Inr (c\<lparr>pg_maxPayloadSize := n\<rparr>)))"

definition polling_WithDebugPayload :: "bool \<Rightarrow> PollingConfig opt" where
  "polling_WithDebugPayload enabled c = Ret (Inr (c\<lparr>pg_redactPayload := \<not> enabled\<rparr>))"

section \<open>The WebSocket transport\<close>

datatype ws_ref = NativeWs | UserWs nat

record WebSocketConfig =
  wg_log :: "logger_ref option"
  wg_ws :: "ws_ref option"
  wg_origin :: "url option"
  wg_redactPayload :: bool

definition ws_defaults :: WebSocketConfig where
  "ws_defaults = \<lparr>wg_log = Some DefaultLogger_ref, wg_ws = Some NativeWs, wg_origin = None, wg_redactPayload = True\<rparr>"

definition ws_NewTransport :: "WebSocketConfig opt list \<Rightarrow> (go_error + WebSocketConfig) go" where
  "ws_NewTransport options =
     (case apply_opts options ws_defaults of
        Panic r \<Rightarrow> Panic r
      | Ret (Inl e) \<Rightarrow> Ret (Inl e)
      | Ret (Inr c) \<Rightarrow>
          if wg_log c = None then Ret (Inl (ErrorNew ''logger is nil''))
          else if wg_ws c = None then Ret (Inl (ErrorNew ''websocket connection is nil''))
          else Ret (Inr c))"

definition ws_WithLogger :: "logger_ref option \<Rightarrow> WebSocketConfig opt" where
  "ws_WithLogger logger c = Ret (Inr (c\<lparr>wg_log := logger\<rparr>))"

definition WithWebSocket :: "ws_ref option \<Rightarrow> WebSocketConfig opt" where
  "WithWebSocket ws c = Ret (Inr (c\<lparr>wg_ws := ws\<rparr>))"

definition WithOrigin :: "url option \<Rightarrow> WebSocketConfig opt" where
  "WithOrigin origin c = Ret (Inr (c\<lparr>wg_origin := origin\<rparr>))"

definition ws_WithDebugPayload :: "bool \<Rightarrow> WebSocketConfig opt" where
  "ws_WithDebugPayload enabled c = Ret (Inr (c\<lparr>wg_redactPayload := \<not> enabled\<rparr>))"

section \<open>The Engine.IO client\<close>

datatype transport_ref =
    WsTransport WebSocketConfig
  | PollingTransport PollingConfig
  | UserTransport nat EngineIOTransport

fun transport_name :: "transport_ref \<Rightarrow> EngineIOTransport" where
  "transport_name (WsTransport _) = TransportWebsocket"
| "transport_name (PollingTransport _) = TransportPolling"
| "transport_name (UserTransport _ name) = name"

datatype parser_ref = DefaultParser_ref | UserParser nat

record EngineConfig =
  eg_url :: "url option"
  eg_log :: "logger_ref option"
  eg_parser :: "parser_ref option"
  eg_reconnectAttempts :: int64
  eg_reconnectWait :: int64
  eg_transport :: "transport_ref option"
  eg_supportedTransports :: "(EngineIOTransport \<times> transport_ref) list"
  eg_redactPayload :: bool

definition engine_defaults :: EngineConfig where
  "engine_defaults = \<lparr>eg_url = None, eg_log = Some DefaultLogger_ref, eg_parser = Some DefaultParser_ref, eg_reconnectAttempts = 5,
     eg_reconnectWait = seconds 5, eg_transport = None, eg_supportedTransports = [], eg_redactPayload = True\<rparr>"

definition put_transport :: "transport_ref \<Rightarrow> (EngineIOTransport \<times> transport_ref) list \<Rightarrow> (EngineIOTransport \<times> transport_ref) list" where
  "put_transport t ts = (transport_name t, t) # filter (\<lambda>e. fst e \<noteq> transport_name t) ts"

text \<open>\<^verbatim>\<open>wsTransport, _ := NewTransport(...)\<close>: it cannot fail here, the logger has been checked before.\<close>

definition built_ws :: "EngineConfig \<Rightarrow> transport_ref option" where
  "built_ws c =
     (case ws_NewTransport [ws_WithLogger (eg_log c), ws_WithDebugPayload (\<not> eg_redactPayload c)] of
        Ret (Inr t) \<Rightarrow> Some (WsTransport t)
      | _ \<Rightarrow> None)"

definition built_polling :: "EngineConfig \<Rightarrow> transport_ref option" where
  "built_polling c =
     (case polling_NewTransport [WithDefaultPinger (Some (SharedTicker 0)), polling_WithLogger (eg_log c),
             polling_WithDebugPayload (\<not> eg_redactPayload c)] of
        Ret (Inr t) \<Rightarrow> Some (PollingTransport t)
      | _ \<Rightarrow> None)"

definition default_transports :: "EngineConfig \<Rightarrow> (EngineIOTransport \<times> transport_ref) list" where
  "default_transports c =
     fold put_transport (map the (filter (\<lambda>t. t \<noteq> None) [built_ws c, built_polling c])) (eg_supportedTransports c)"

definition engine_NewClient :: "EngineConfig opt list \<Rightarrow> (go_error + EngineConfig) go" where
  "engine_NewClient options =
     (case apply_opts options engine_defaults of
        Panic r \<Rightarrow> Panic r
      | Ret (Inl e) \<Rightarrow> Ret (Inl e)
      | Ret (Inr c) \<Rightarrow>
          if eg_url c = None then Ret (Inl (ErrorNew ''URL is nil''))
          else if eg_log c = None then Ret (Inl (ErrorNew ''logger is nil''))
          else if eg_parser c = None then Ret (Inl (ErrorNew ''parser is nil''))
          else
            let c = (if eg_supportedTransports c = [] then c\<lparr>eg_supportedTransports := default_transports c\<rparr> else c) in
            Ret (Inr (if eg_transport c = None
                      then c\<lparr>eg_transport :=
                             (case map_of (eg_supportedTransports c) TransportPolling of
                                Some t \<Rightarrow> Some t
                              | None \<Rightarrow> map_of (eg_supportedTransports c) TransportWebsocket)\<rparr>
                      else c)))"

definition engine_WithURL :: "url option \<Rightarrow> EngineConfig opt" where
  "engine_WithURL url c =
     (case url of
        None \<Rightarrow> Panic ''invalid memory address or nil pointer dereference''
      | Some u \<Rightarrow>
          let scheme = (if u_Scheme u = ''http'' \<or> u_Scheme u = ''https'' then Some (u_Scheme u)
                        else if u_Scheme u = ''ws'' then Some ''http''
                        else if u_Scheme u = ''wss'' then Some ''https''
                        else None) in
          (case scheme of
             None \<Rightarrow> Ret (Inl (ErrorText ''invalid URL scheme: %s'' (u_Scheme u)))
           | Some s \<Rightarrow>
               Ret (Inr (c\<lparr>eg_url := Some (u\<lparr>u_Scheme := s,
                 u_RawQuery := Encode (values_set ''EIO'' ''4'' (fst (ParseQuery (u_RawQuery u))))\<rparr>)\<rparr>))))"

definition engine_WithRawURL :: "(string \<Rightarrow> go_error + url) \<Rightarrow> string \<Rightarrow> EngineConfig opt" where
  "engine_WithRawURL url_Parse urlRaw =
     (case url_Parse urlRaw of Inl e \<Rightarrow> (\<lambda>_. Ret (Inl e)) | Inr u \<Rightarrow> engine_WithURL (Some u))"

definition engine_WithLogger :: "logger_ref option \<Rightarrow> EngineConfig opt" where
  "engine_WithLogger logger c = Ret (Inr (c\<lparr>eg_log := logger\<rparr>))"

definition WithTransport :: "transport_ref option \<Rightarrow> EngineConfig opt" where
  "WithTransport transport c = Ret (Inr (c\<lparr>eg_transport := transport\<rparr>))"

fun WithSupportedTransports :: "transport_ref option list \<Rightarrow> EngineConfig opt" where
  "WithSupportedTransports [] c = Ret (Inr c)"
| "WithSupportedTransports (None # ts) c = Ret (Inl (ErrorNew ''nil transport is not allowed''))"
| "WithSupportedTransports (Some t # ts) c =
     WithSupportedTransports ts (c\<lparr>eg_supportedTransports := put_transport t (eg_supportedTransports c)\<rparr>)"

definition engine_WithParser :: "parser_ref option \<Rightarrow> EngineConfig opt" where
  "engine_WithParser parser c = Ret (Inr (c\<lparr>eg_parser := parser\<rparr>))"

definition WithReconnectAttempts :: "int64 \<Rightarrow> EngineConfig opt" where
  "WithReconnectAttempts attempts c = Ret (Inr (c\<lparr>eg_reconnectAttempts := attempts\<rparr>))"

definition WithReconnectWait :: "int64 \<Rightarrow> EngineConfig opt" where
  "WithReconnectWait wait c = Ret (Inr (c\<lparr>eg_reconnectWait := wait\<rparr>))"

definition engine_WithDebugPayload :: "bool \<Rightarrow> EngineConfig opt" where
  "engine_WithDebugPayload enabled c = Ret (Inr (c\<lparr>eg_redactPayload := \<not> enabled\<rparr>))"

section \<open>The default Socket.IO parser\<close>

record ParserConfig = SocketIOV5DefaultParser +
  sp_logger :: "logger_ref option"

definition NewParser :: "ParserConfig opt list \<Rightarrow> ParserConfig go" where
  "NewParser options =
     (case apply_opts options \<lparr>payloadParser = None, sp_logger = None\<rparr> of
        Panic r \<Rightarrow> Panic r
      | Ret (Inl e) \<Rightarrow> Panic ''option error''
      | Ret (Inr p) \<Rightarrow> Ret (if sp_logger p = None then p\<lparr>sp_logger := Some DefaultLogger_ref\<rparr> else p))"

definition parser_WithLogger :: "logger_ref option \<Rightarrow> ParserConfig opt" where
  "parser_WithLogger logger p = Ret (Inr (p\<lparr>sp_logger := logger\<rparr>))"

definition WithPayloadParser :: "PayloadParser option \<Rightarrow> ParserConfig opt" where
  "WithPayloadParser pp p = Ret (Inr (p\<lparr>payloadParser := pp\<rparr>))"

section \<open>The Socket.IO client\<close>

datatype engine_ref = BuiltEngine EngineConfig | UserEngine nat
datatype sio_parser_ref = BuiltParser ParserConfig | UserSioParser nat
datatype timer_ref = DefaultTimer_ref | UserTimer nat

record InitClient =
  ic_url :: "url option"
  ic_defaultNsName :: "string option"
  ic_engineio :: "engine_ref option"
  ic_parser :: "sio_parser_ref option"
  ic_logger :: "logger_ref option"
  ic_timer :: "timer_ref option"
  ic_redactPayload :: bool

definition sio_defaults :: InitClient where
  "sio_defaults = \<lparr>ic_url = None, ic_defaultNsName = None, ic_engineio = None, ic_parser = None,
     ic_logger = Some DefaultLogger_ref, ic_timer = Some DefaultTimer_ref, ic_redactPayload = True\<rparr>"

text \<open>The client struct a constructor call returns: state, dependencies, and the handlers set on the engine.\<close>

record NewClientResult =
  nc_client :: sio_Client
  nc_engineio :: engine_ref
  nc_parser :: sio_parser_ref
  nc_handlers :: "string list"

definition empty_client :: "InitClient \<Rightarrow> sio_Client" where
  "empty_client c =
     \<lparr>c_ctxErr = None, c_handshakeData = [], c_namespaces = Map.empty, c_defaultNs = [], c_ackCallbacks = Map.empty,
      c_ackCounter = 0, c_redactPayload = ic_redactPayload c, c_waiters = Map.empty, c_tasks = [], c_sent = [], c_log = [],
      c_calls = [], c_acks = []\<rparr>"

definition finish_client :: "InitClient \<Rightarrow> engine_ref \<Rightarrow> sio_parser_ref \<Rightarrow> NewClientResult" where
  "finish_client c engine parser =
     (let name = (case ic_defaultNsName c of None \<Rightarrow> ''/'' | Some n \<Rightarrow> n);
          client = fst (client_namespace name (empty_client c)) in
      \<lparr>nc_client = client\<lparr>c_defaultNs := name\<rparr>, nc_engineio = engine, nc_parser = parser,
       nc_handlers = [''connect'', ''message'']\<rparr>)"

definition sio_NewClient :: "InitClient opt list \<Rightarrow> (go_error + NewClientResult) go" where
  "sio_NewClient options =
     (case apply_opts options sio_defaults of
        Panic r \<Rightarrow> Panic r
      | Ret (Inl e) \<Rightarrow> Ret (Inl e)
      | Ret (Inr c) \<Rightarrow>
          if ic_logger c = None then Ret (Inl (ErrorNew ''logger is nil''))
          else
            (case (case ic_parser c of
                     Some p \<Rightarrow> Ret p
                   | None \<Rightarrow> (case NewParser [parser_WithLogger (ic_logger c)] of Panic r \<Rightarrow> Panic r | Ret p \<Rightarrow> Ret (BuiltParser p))) of
               Panic r \<Rightarrow> Panic r
             | Ret parser \<Rightarrow>
                 if ic_timer c = None then Ret (Inl (ErrorNew ''timer is nil''))
                 else if (ic_engineio c = None) = (ic_url c = None)
                 then Ret (Inl (ErrorFmt ''either WithURL or WithEngineIOClient must be provided'' []))
                 else
                   (case ic_engineio c of
                      Some e \<Rightarrow> Ret (Inr (finish_client c e parser))
                    | None \<Rightarrow>
                        (case engine_NewClient [engine_WithURL (ic_url c), engine_WithLogger (ic_logger c),
                                engine_WithDebugPayload (\<not> ic_redactPayload c)] of
                           Panic r \<Rightarrow> Panic r
                         | Ret (Inl e) \<Rightarrow> Ret (Inl e)
                         | Ret (Inr engine) \<Rightarrow> Ret (Inr (finish_client c (BuiltEngine engine) parser))))))"

definition default_path :: "url \<Rightarrow> url" where
  "default_path u = (if u_Path u = [] then u\<lparr>u_Path := ''/socket.io/''\<rparr> else u)"

definition sio_WithURL :: "url option \<Rightarrow> InitClient opt" where
  "sio_WithURL url c =
     (case url of
        None \<Rightarrow> Panic ''invalid memory address or nil pointer dereference''
      | Some u \<Rightarrow> Ret (Inr (c\<lparr>ic_url := Some (default_path u)\<rparr>)))"

definition sio_WithRawURL :: "(string \<Rightarrow> go_error + url) \<Rightarrow> string \<Rightarrow> InitClient opt" where
  "sio_WithRawURL url_Parse rawUrl c =
     (case url_Parse rawUrl of
        Inl e \<Rightarrow> Ret (Inl e)
      | Inr u \<Rightarrow> Ret (Inr (c\<lparr>ic_url := Some (default_path u)\<rparr>)))"

definition WithEngineIOClient :: "engine_ref option \<Rightarrow> InitClient opt" where
  "WithEngineIOClient engine c = Ret (Inr (c\<lparr>ic_engineio := engine\<rparr>))"

definition WithDefaultNamespace :: "string \<Rightarrow> InitClient opt" where
  "WithDefaultNamespace ns c = Ret (Inr (c\<lparr>ic_defaultNsName := Some ns\<rparr>))"

definition sio_WithLogger :: "logger_ref option \<Rightarrow> InitClient opt" where
  "sio_WithLogger logger c = Ret (Inr (c\<lparr>ic_logger := logger\<rparr>))"

definition WithTimer :: "timer_ref option \<Rightarrow> InitClient opt" where
  "WithTimer timer c = Ret (Inr (c\<lparr>ic_timer := timer\<rparr>))"

definition sio_WithParser :: "sio_parser_ref option \<Rightarrow> InitClient opt" where
  "sio_WithParser parser c = Ret (Inr (c\<lparr>ic_parser := parser\<rparr>))"

definition sio_WithDebugPayload :: "bool \<Rightarrow> InitClient opt" where
  "sio_WithDebugPayload enabled c = Ret (Inr (c\<lparr>ic_redactPayload := \<not> enabled\<rparr>))"

section \<open>What the constructors establish\<close>

lemma NewParser_logger: "NewParser [parser_WithLogger (Some l)] = Ret \<lparr>payloadParser = None, sp_logger = Some l\<rparr>"
  by (simp add: NewParser_def parser_WithLogger_def)

lemma built_transports:
  assumes "eg_log c = Some l"
  shows "built_ws c = Some (WsTransport (ws_defaults\<lparr>wg_log := Some l, wg_redactPayload := eg_redactPayload c\<rparr>))"
    and "built_polling c = Some (PollingTransport (polling_defaults\<lparr>pg_pinger := Some (SharedTicker 0), pg_log := Some l,
           pg_redactPayload := eg_redactPayload c\<rparr>))"
  using assms
  by (simp_all add: built_ws_def built_polling_def ws_NewTransport_def polling_NewTransport_def ws_WithLogger_def
      ws_WithDebugPayload_def WithDefaultPinger_def polling_WithLogger_def polling_WithDebugPayload_def
      ws_defaults_def polling_defaults_def)

text \<open>Whether a transport renders payloads redacted.\<close>

fun transport_redacts :: "transport_ref \<Rightarrow> bool" where
  "transport_redacts (WsTransport t) = wg_redactPayload t"
| "transport_redacts (PollingTransport t) = pg_redactPayload t"
| "transport_redacts (UserTransport _ _) = False"

fun engine_redacts :: "engine_ref \<Rightarrow> bool \<Rightarrow> bool" where
  "engine_redacts (UserEngine _) b = True"
| "engine_redacts (BuiltEngine e) b \<longleftrightarrow>
     eg_redactPayload e = b \<and> (\<forall>(n, t) \<in> set (eg_supportedTransports e). transport_redacts t = b) \<and>
     (\<exists>t. eg_transport e = Some t \<and> transport_name t = TransportPolling \<and> transport_redacts t = b)"

text \<open>The state of the Engine.IO client that a configuration describes; transports are numbered.\<close>

fun transport_id :: "transport_ref \<Rightarrow> nat" where
  "transport_id (PollingTransport _) = 0"
| "transport_id (WsTransport _) = 1"
| "transport_id (UserTransport n _) = n + 2"

definition engine_client :: "EngineConfig \<Rightarrow> eio_Client" where
  "engine_client c =
     \<lparr>ec_ctxErr = None, ec_transport = map_option transport_id (eg_transport c),
      ec_supportedTransports = map (\<lambda>(n, t). (n, transport_id t)) (eg_supportedTransports c),
      ec_sid = [], ec_pingInterval = Some (seconds 10), ec_tickerStopped = False, ec_pingTimeout = 0,
      ec_messageHandler = None, ec_closeHandler = None, ec_afterConnect = None,
      ec_waitUpgrade = None, ec_hadUpgrade = False, ec_waitHandshake = None, ec_hadHandshake = False,
      ec_transportClosed = Some new_errchan, ec_messages = None, ec_loop = LoopIdle, ec_redactPayload = eg_redactPayload c,
      ec_closedGates = [], ec_nextGate = 0, ec_calls = [], ec_handled = [], ec_log = []\<rparr>"

definition engine_world :: "EngineConfig \<Rightarrow> eio_world" where
  "engine_world c = \<lparr>w_client = engine_client c, w_sends = [], w_closing = None, w_results = []\<rparr>"

definition polling_transport :: "PollingConfig \<Rightarrow> url \<Rightarrow> polling_Transport" where
  "polling_transport c u =
     \<lparr>pt_url = u, pt_sid = [], pt_ctxErr = None, pt_messages = False, pt_delivered = [], pt_onClose = None, pt_stopPooling = False,
      pt_reqCancelled = False, pt_handshakeDone = None, pt_stopCh = False, pt_stopOnce = False, pt_stopped = False,
      pt_maxPayloadSize = pg_maxPayloadSize c, pt_pinger = seconds 10, pt_redactPayload = pg_redactPayload c, pt_log = []\<rparr>"

lemma sio_NewClient_result:
  assumes "sio_NewClient opts = Ret (Inr r)"
  obtains c engine parser where "apply_opts opts sio_defaults = Ret (Inr c)" "r = finish_client c engine parser"
    "ic_logger c \<noteq> None" "ic_timer c \<noteq> None" "(ic_engineio c = None) \<noteq> (ic_url c = None)"
    "ic_engineio c = Some engine \<or> (\<exists>e. engine = BuiltEngine e \<and> engine_NewClient [engine_WithURL (ic_url c),
       engine_WithLogger (ic_logger c), engine_WithDebugPayload (\<not> ic_redactPayload c)] = Ret (Inr e))"
  using assms
  by (auto simp: sio_NewClient_def split: go.splits sum.splits option.splits if_splits)

lemma finish_client_init: "sio_init (nc_client (finish_client c engine parser))"
  by (simp add: finish_client_def Let_def sio_init_def empty_client_def client_namespace_def)


definition demo_opts :: "InitClient opt list" where
  "demo_opts = [sio_WithURL (Some \<lparr>u_Scheme = ''wss'', u_Host = ''example.org'', u_Path = [], u_RawQuery = ''token=a''\<rparr>)]"

definition demo_result :: NewClientResult where
  "demo_result = (case sio_NewClient demo_opts of Ret (Inr r) \<Rightarrow> r)"

lemma demo_result_built: "sio_NewClient demo_opts = Ret (Inr demo_result)"
proof -
  have "(case sio_NewClient demo_opts of Ret (Inr _) \<Rightarrow> True | _ \<Rightarrow> False)" by code_simp
  then show ?thesis by (auto simp: demo_result_def split: go.splits sum.splits)
qed


subsection \<open>When a client is built\<close>

definition good_scheme :: "url \<Rightarrow> bool" where
  "good_scheme u \<longleftrightarrow> u_Scheme u \<in> {''http'', ''https'', ''ws'', ''wss''}"

lemma engine_built:
  "(\<exists>e. engine_NewClient [engine_WithURL (Some u), engine_WithLogger (Some l), engine_WithDebugPayload b] = Ret (Inr e)) \<longleftrightarrow> good_scheme u"
  by (auto simp: engine_NewClient_def engine_WithURL_def engine_WithLogger_def engine_WithDebugPayload_def
      engine_defaults_def good_scheme_def Let_def)



subsection \<open>Payload redaction\<close>

lemma default_transports_built:
  assumes "eg_log c = Some l" and "eg_supportedTransports c = []"
  shows "default_transports c =
     [(TransportPolling, PollingTransport (polling_defaults\<lparr>pg_pinger := Some (SharedTicker 0), pg_log := Some l,
         pg_redactPayload := eg_redactPayload c\<rparr>)),
      (TransportWebsocket, WsTransport (ws_defaults\<lparr>wg_log := Some l, wg_redactPayload := eg_redactPayload c\<rparr>))]"
  using assms by (simp add: default_transports_def built_transports put_transport_def TransportPolling_def TransportWebsocket_def)

lemma engine_built_redacts:
  assumes "engine_NewClient [engine_WithURL (Some u), engine_WithLogger (Some l), engine_WithDebugPayload b] = Ret (Inr e)"
  shows "engine_redacts (BuiltEngine e) (\<not> b)"
  using assms
  by (auto simp: engine_NewClient_def engine_WithURL_def engine_WithLogger_def engine_WithDebugPayload_def
      engine_defaults_def default_transports_built Let_def split: if_splits)

text \<open>
  C32: \<^verbatim>\<open>WithDebugPayload\<close> reaches every layer: the client that \<^verbatim>\<open>NewClient\<close> returns, the Engine.IO client
  built for it, that client's current transport (the polling one) and each of its supported
  transports render payloads redacted exactly when the configuration says so; by default they do.
\<close>

theorem redaction_propagates:
  assumes opts: "apply_opts opts sio_defaults = Ret (Inr c)" and built: "sio_NewClient opts = Ret (Inr r)"
  shows "c_redactPayload (nc_client r) = ic_redactPayload c \<and>
    (ic_engineio c = None \<longrightarrow> engine_redacts (nc_engineio r) (ic_redactPayload c))"
proof -
  from built obtain c' engine parser where c': "apply_opts opts sio_defaults = Ret (Inr c')"
      and r: "r = finish_client c' engine parser" "ic_logger c' \<noteq> None" "(ic_engineio c' = None) \<noteq> (ic_url c' = None)"
      and e: "ic_engineio c' = Some engine \<or> (\<exists>e. engine = BuiltEngine e \<and> engine_NewClient [engine_WithURL (ic_url c'),
        engine_WithLogger (ic_logger c'), engine_WithDebugPayload (\<not> ic_redactPayload c')] = Ret (Inr e))"
    by (rule sio_NewClient_result)
  from c' opts have "c' = c" by simp
  have "engine_redacts engine (ic_redactPayload c)" if "ic_engineio c = None"
    using that e r(2,3) \<open>c' = c\<close> engine_built_redacts [of _ _ "\<not> ic_redactPayload c"]
    by (auto simp del: engine_redacts.simps)
  then show ?thesis
    using r(1) \<open>c' = c\<close> by (simp add: finish_client_def Let_def empty_client_def client_namespace_def)
qed

theorem redaction_propagates_witness: "engine_redacts (nc_engineio demo_result) True"
proof -
  have "apply_opts demo_opts sio_defaults = Ret (Inr (sio_defaults\<lparr>ic_url :=
      Some \<lparr>u_Scheme = ''wss'', u_Host = ''example.org'', u_Path = ''/socket.io/'', u_RawQuery = ''token=a''\<rparr>\<rparr>))"
    by (simp add: demo_opts_def sio_WithURL_def default_path_def)
  from redaction_propagates [OF this demo_result_built] show ?thesis by (simp add: sio_defaults_def del: engine_redacts.simps)
qed

subsection \<open>The URL and the transport\<close>

text \<open>
  \<^verbatim>\<open>WithURL\<close> stores an HTTP URL with \<^verbatim>\<open>EIO=4\<close> and keeps the host, the path and every other query
  parameter; applying it again to the stored URL (the option mutates the URL it is given) changes
  nothing but the text of the query.
\<close>

lemma engine_WithURL_stored:
  assumes "engine_WithURL (Some u) c = Ret (Inr c')"
  obtains v where "eg_url c' = Some v" "u_Scheme v \<in> {''http'', ''https''}" "u_Host v = u_Host u" "u_Path v = u_Path u"
    "u_RawQuery v = Encode (values_set ''EIO'' ''4'' (fst (ParseQuery (u_RawQuery u))))"
  using assms by (auto simp: engine_WithURL_def Let_def split: if_splits)

text \<open>
  A client with only a transport of another name is built with a nil transport, and \<^verbatim>\<open>Connect\<close>
  dereferences it.
\<close>

definition foreign_opts :: "EngineConfig opt list" where
  "foreign_opts = [engine_WithURL (Some \<lparr>u_Scheme = ''http'', u_Host = ''h'', u_Path = ''/'', u_RawQuery = []\<rparr>),
     WithSupportedTransports [Some (UserTransport 3 ''webtransport'')]]"

lemma foreign_transport_nil:
  "\<exists>c. engine_NewClient foreign_opts = Ret (Inr c) \<and> eio_Connect d ctxErr (engine_client c) = Crash nil_deref"
  by (simp add: eio_Connect_def foreign_opts_def engine_NewClient_def engine_WithURL_def engine_defaults_def put_transport_def
      TransportPolling_def TransportWebsocket_def engine_client_def Let_def)

end
