(* ===== verification/Full_Stack.thy ===== *)
theory Full_Stack
  imports SocketIO_Delivery EngineIO_Session Constructors
begin

text \<open>
  The two clients together, as \<^verbatim>\<open>NewClient\<close> wires them: the Socket.IO client sends through
  \<^verbatim>\<open>engineio.Send\<close>, and the Engine.IO client calls \<^verbatim>\<open>connectSocketIO\<close> and \<^verbatim>\<open>onMessage\<close>. Here the
  parameters \<open>d_Send\<close> and \<open>d_Connect\<close> of the Socket.IO client are the Engine.IO client's operations, so
  what is left open is the server's bytes and the transports' answers.
\<close>

section \<open>Composition\<close>

record stack =
  sk_sio :: sio_Client
  sk_eio :: eio_Client
  sk_hooks :: nat \<comment> \<open>goroutines started by \<^verbatim>\<open>go handler()\<close> for \<^verbatim>\<open>connectSocketIO\<close>, not run yet\<close>

definition stack_new :: "NewClientResult \<Rightarrow> EngineConfig \<Rightarrow> stack" where
  "stack_new r ec = \<lparr>sk_sio = nc_client r, sk_eio = fold (\<lambda>event. eio_On event 0) (nc_handlers r) (engine_client ec), sk_hooks = 0\<rparr>"

text \<open>The Engine.IO client after the given sends, and \<^verbatim>\<open>Send\<close> as the Socket.IO client sees it.\<close>

definition engine_after :: "eio_Deps \<Rightarrow> bytes list \<Rightarrow> eio_Client \<Rightarrow> eio_Client" where
  "engine_after e messages c = fold (\<lambda>m c. fst (send_finish e m c)) messages c"

definition stack_deps :: "eio_Deps \<Rightarrow> stack \<Rightarrow> sio_Deps" where
  "stack_deps e s =
     \<lparr>d_parser = default_parser_iface default_parser,
      d_Send = (\<lambda>sent packet. snd (send_finish e packet (engine_after e (drop (length (c_sent (sk_sio s))) sent) (sk_eio s)))),
      d_Connect = None, d_Close = None\<rparr>"

definition gates_open :: "eio_Client \<Rightarrow> bool" where
  "gates_open c \<longleftrightarrow> gate_open c (ec_waitHandshake c) \<and> gate_open c (ec_waitUpgrade c)"

text \<open>
  A call of the Socket.IO client. When it sends while a gate is closed it waits (\<open>Stuck\<close>): the caller
  goes on in a later state.
\<close>

definition stack_call :: "eio_Deps \<Rightarrow> (sio_Deps \<Rightarrow> sio_Client \<Rightarrow> (sio_Client \<times> 'r) go) \<Rightarrow> stack \<Rightarrow> (stack \<times> 'r) run" where
  "stack_call e f s =
     (case f (stack_deps e s) (sk_sio s) of
        Panic r \<Rightarrow> Crash r
      | Ret (sio, r) \<Rightarrow>
          let out = drop (length (c_sent (sk_sio s))) (c_sent sio) in
          if out = [] \<or> gates_open (sk_eio s)
          then Done (s\<lparr>sk_sio := sio, sk_eio := engine_after e out (sk_eio s)\<rparr>, r)
          else Stuck)"

definition stack_Emit :: "eio_Deps \<Rightarrow> emit_event \<Rightarrow> emit_arg list \<Rightarrow> stack \<Rightarrow> (stack \<times> emit_status) run" where
  "stack_Emit e event args = stack_call e (\<lambda>d. client_Emit d False event args)"

definition stack_Connect :: "eio_Deps \<Rightarrow> go_error option \<Rightarrow> nat list \<Rightarrow> stack \<Rightarrow> (stack \<times> go_error option) run" where
  "stack_Connect e ctx callbacks s =
     run_bind (stack_call e (\<lambda>d. sio_Connect d ctx callbacks) s) (\<lambda>(s, _).
     run_bind (eio_Connect e ctx (sk_eio s)) (\<lambda>(eio, err). Done (s\<lparr>sk_eio := eio\<rparr>, err)))"

text \<open>The handler calls of \<^verbatim>\<open>handlePacket\<close>: \<^verbatim>\<open>onMessage\<close> runs inline, \<^verbatim>\<open>connectSocketIO\<close> in a goroutine.\<close>

fun run_hcall :: "eio_Deps \<Rightarrow> hcall \<Rightarrow> stack \<Rightarrow> stack run" where
  "run_hcall e (OnMessage _ data) s =
     run_bind (stack_call e (\<lambda>d c. case onMessage d data c of Panic r \<Rightarrow> Panic r | Ret c' \<Rightarrow> Ret (c', ())) s) (\<lambda>(s, _). Done s)"
| "run_hcall e (OnConnect _) s = Done (s\<lparr>sk_hooks := Suc (sk_hooks s)\<rparr>)"
| "run_hcall e (OnClose _) s = Done s"

fun run_hcalls :: "eio_Deps \<Rightarrow> hcall list \<Rightarrow> stack \<Rightarrow> stack run" where
  "run_hcalls e [] s = Done s"
| "run_hcalls e (h # hs) s = run_bind (run_hcall e h s) (run_hcalls e hs)"

definition stack_receive :: "eio_Deps \<Rightarrow> bytes \<Rightarrow> stack \<Rightarrow> (stack \<times> go_error option) run" where
  "stack_receive e packet s =
     run_bind (handlePacket e packet (sk_eio s)) (\<lambda>(eio, err).
     run_bind (run_hcalls e (drop (length (ec_handled (sk_eio s))) (ec_handled eio)) (s\<lparr>sk_eio := eio\<rparr>)) (\<lambda>s. Done (s, err)))"

definition stack_hook :: "eio_Deps \<Rightarrow> stack \<Rightarrow> stack run" where
  "stack_hook e s =
     (if sk_hooks s = 0 then Stuck
      else run_bind (stack_call e (\<lambda>d c. Ret (connectSocketIO d c, ())) s) (\<lambda>(s, _). Done (s\<lparr>sk_hooks := sk_hooks s - 1\<rparr>)))"

text \<open>What the client has written on its transports.\<close>

definition stack_writes :: "stack \<Rightarrow> tcall list" where
  "stack_writes s = writes (sk_eio s)"

section \<open>From one client to another\<close>

lemma stack_deps_default: "uses_default (stack_deps e s)"
  by (simp add: uses_default_def stack_deps_def)

lemma send_finish_default:
  assumes "default_eio e" and "ec_transport c = Some t" and "int (length m) \<le> sint defaultMaxSerializeSize"
  shows "send_finish e m c = call_transport e (TSendMessage t (0x34 # m)) c"
  using assms
  by (simp add: send_finish_def default_eio_def eio_Serialize_def packet_of_def eio_limit_def zero_EngineIOV4Parser_def)

text \<open>A call that hands one message to \<^verbatim>\<open>Send\<close> while the gates are open writes one packet.\<close>

lemma stack_call_sends:
  assumes "f (stack_deps e s) (sk_sio s) = Ret (sio, r)" and "c_sent sio = c_sent (sk_sio s) @ [m]"
    and "default_eio e" and "gates_open (sk_eio s)" and "ec_transport (sk_eio s) = Some t"
    and "int (length m) \<le> sint defaultMaxSerializeSize"
  shows "stack_call e f s = Done (s\<lparr>sk_sio := sio,
      sk_eio := (sk_eio s)\<lparr>ec_calls := ec_calls (sk_eio s) @ [TSendMessage t (0x34 # m)]\<rparr>\<rparr>, r)"
  using assms by (simp add: stack_call_def engine_after_def send_finish_default call_transport_def)

lemma stack_call_quiet:
  assumes "f (stack_deps e s) (sk_sio s) = Ret (sio, r)" and "c_sent sio = c_sent (sk_sio s)"
  shows "stack_call e f s = Done (s\<lparr>sk_sio := sio\<rparr>, r)"
  using assms by (simp add: stack_call_def engine_after_def)

lemma stack_deps_Send:
  assumes "default_eio e" and "healthy e" and "ec_transport (sk_eio s) = Some t" and "int (length m) \<le> sint defaultMaxSerializeSize"
  shows "d_Send (stack_deps e s) (c_sent (sk_sio s)) m = None"
  using assms by (simp add: stack_deps_def engine_after_def send_finish_default call_transport_def healthy_def)

lemma run_bind_Done_right [simp]: "run_bind m Done = m"
  by (cases m) simp_all

lemma run_hcalls_one: "run_hcalls e [h] s = run_hcall e h s"
proof -
  have "run_hcalls e [] = Done" by (rule ext) simp
  then show ?thesis by simp
qed

lemma plain_ArgVal [simp]: "plain_values (map ArgVal vs) = vs" "plain_options (map ArgVal vs) = []"
  by (induction vs) (simp_all add: plain_values_def plain_options_def)

lemma stack_receive_message:
  assumes "default_eio e" and "ec_messageHandler (sk_eio s) = Some h"
  obtains eio where "stack_receive e (0x34 # data) s = run_bind (run_hcall e (OnMessage h data) (s\<lparr>sk_eio := eio\<rparr>)) (\<lambda>s. Done (s, None))"
    "ec_calls eio = ec_calls (sk_eio s)" "gview eio = gview (sk_eio s)" "ec_transport eio = ec_transport (sk_eio s)"
proof -
  have p: "ed_Parse e (0x34 # data) = Inr (packet_of PacketMessage data)"
    using eio_default_Parse [OF assms(1), of PacketMessage data] by simp
  obtain eio where "handlePacket e (0x34 # data) (sk_eio s) = Done (eio, None)" "ec_handled eio = ec_handled (sk_eio s) @ [OnMessage h data]"
    "ec_calls eio = ec_calls (sk_eio s)" "gview eio = gview (sk_eio s)" "ec_transport eio = ec_transport (sk_eio s)"
    using p assms(2) by (simp add: handlePacket_def Let_def packet_of_def)
  then show thesis by (intro that [of eio]) (simp_all add: stack_receive_def run_hcalls_one del: run_hcalls.simps run_hcall.simps)
qed

text \<open>
  C7: An event travels from one client to another unchanged: on an open connection \<^verbatim>\<open>Emit\<close> with plain
  arguments writes exactly one Engine.IO message packet on the current transport and returns nil,
  and a client that receives this packet starts the \<^verbatim>\<open>OnAny\<close> handlers and the handlers of the event
  with the JSON texts of the arguments, without writing anything itself.
\<close>

theorem wire_event:
  assumes "default_eio e" and "healthy e" and "gates_open (sk_eio a)" and "ec_transport (sk_eio a) = Some t"
    and "c_namespaces (sk_sio a) (c_defaultNs (sk_sio a)) = Some ns" and "ns_waitConnected ns = Some True" and "c_ctxErr (sk_sio a) = None"
    and "ev = \<lparr>ev_Name = name, ev_Payloads = vals\<rparr>" and "m = (new_message PacketEvent (ns_name ns))\<lparr>msg_Event := Some ev\<rparr>"
    and "wf_event_message m" and "sio_Serialize (Some m) = Inr out" and "int (length out) \<le> sint defaultMaxSerializeSize"
    and "default_eio e'" and "ec_messageHandler (sk_eio b) = Some h" and "c_namespaces (sk_sio b) (ns_name ns) = Some nsb"
  shows "\<exists>a' b'. stack_Emit e (EvName name) (map ArgVal vals) a = Done (a', EmitReturned None) \<and>
     ec_calls (sk_eio a') = ec_calls (sk_eio a) @ [TSendMessage t (0x34 # out)] \<and>
     stack_receive e' (0x34 # out) b = Done (b', None) \<and> ec_calls (sk_eio b') = ec_calls (sk_eio b) \<and>
     c_tasks (sk_sio b') = c_tasks (sk_sio b) @ map (\<lambda>f. TAny f name (wire_payloads ev)) (ns_anyHandlers nsb) @
       map (\<lambda>f. THandler f (wire_payloads ev)) (handlers_of nsb name)"
proof -
  obtain optLen args' where loop: "emit_loop False 0 0 (map ArgVal vals) no_EmitOptions = Inr (optLen, args', no_EmitOptions)"
      "map arg_value (take optLen args') = vals"
    using emit_loop_by_name [of 0 0 "map ArgVal vals" no_EmitOptions]
    by (auto simp del: map_map)
  let ?sio = "(sk_sio a)\<lparr>c_sent := c_sent (sk_sio a) @ [out]\<rparr>"
  let ?f = "\<lambda>d. client_Emit d False (EvName name) (map ArgVal vals)"
  have emit: "?f (stack_deps e a) (sk_sio a) = Ret (?sio, EmitReturned None)"
    using assms(5-9,11) loop stack_deps_Send [OF assms(1,2,4,12)]
    by (simp add: client_Emit_def ns_Emit_def emit_gate_def emit_send_def no_EmitOptions_def sio_sendPacket_def Let_def
        stack_deps_def default_parser_iface_def)
  from stack_call_sends [of ?f, OF emit _ assms(1,3,4,12)] have A: "stack_Emit e (EvName name) (map ArgVal vals) a = Done (a\<lparr>sk_sio := ?sio,
      sk_eio := (sk_eio a)\<lparr>ec_calls := ec_calls (sk_eio a) @ [TSendMessage t (0x34 # out)]\<rparr>\<rparr>, EmitReturned None)"
    by (simp add: stack_Emit_def)
  obtain eio where B: "stack_receive e' (0x34 # out) b = run_bind (run_hcall e' (OnMessage h out) (b\<lparr>sk_eio := eio\<rparr>)) (\<lambda>s. Done (s, None))"
      "ec_calls eio = ec_calls (sk_eio b)"
    using stack_receive_message [OF assms(13,14)] by blast
  let ?b = "b\<lparr>sk_eio := eio\<rparr>"
  have m: "msg_Type m = PacketEvent" "msg_Event m = Some ev" "c_namespaces (sk_sio ?b) (msg_NS m) = Some nsb"
    using assms(9,15) by (simp_all add: new_message_def)
  obtain c' where c': "onMessage (stack_deps e' ?b) out (sk_sio ?b) = Ret c'" "c_sent c' = c_sent (sk_sio b)"
      "c_tasks c' = c_tasks (sk_sio b) @ map (\<lambda>f. TAny f name (wire_payloads ev)) (ns_anyHandlers nsb) @
        map (\<lambda>f. THandler f (wire_payloads ev)) (handlers_of nsb name)"
    using onMessage_event [OF stack_deps_default assms(10) m(1,2) assms(11) m(3), of e' ?b] assms(8) by auto
  have "run_hcall e' (OnMessage h out) ?b = Done (?b\<lparr>sk_sio := c'\<rparr>)"
    using c' stack_call_quiet [of _ e' ?b c' "()"] by simp
  with A B c' show ?thesis by (simp add: run_bind.simps)
qed

section \<open>A session from the constructor on\<close>

lemma stack_built:
  assumes "good_scheme u"
  obtains r ec where "sio_NewClient [sio_WithURL (Some u), sio_WithDebugPayload b] = Ret (Inr r)" "nc_engineio r = BuiltEngine ec"
    "nc_client r = (empty_client (sio_defaults\<lparr>ic_redactPayload := \<not> b\<rparr>))
       \<lparr>c_namespaces := [''/'' \<mapsto> new_namespace ''/''], c_defaultNs := ''/''\<rparr>"
    "nc_handlers r = [''connect'', ''message'']"
    "map (\<lambda>(n, t). (n, transport_id t)) (eg_supportedTransports ec) = [(TransportPolling, 0), (TransportWebsocket, 1)]"
    "map_option transport_id (eg_transport ec) = Some 0"
proof -
  have "good_scheme (default_path u)" using assms by (simp add: good_scheme_def default_path_def)
  then obtain ec where ec: "engine_NewClient [engine_WithURL (Some (default_path u)), engine_WithLogger (Some DefaultLogger_ref),
      engine_WithDebugPayload b] = Ret (Inr ec)"
    using engine_built by blast
  then have "eg_supportedTransports ec = default_transports (engine_defaults\<lparr>eg_url := eg_url ec, eg_redactPayload := \<not> b\<rparr>)"
    "eg_transport ec = map_of (eg_supportedTransports ec) TransportPolling"
    by (auto simp: engine_NewClient_def engine_WithURL_def engine_WithLogger_def engine_WithDebugPayload_def
        engine_defaults_def default_transports_built Let_def split: if_splits)
  then have sup: "map (\<lambda>(n, t). (n, transport_id t)) (eg_supportedTransports ec) = [(TransportPolling, 0), (TransportWebsocket, 1)]"
    "map_option transport_id (eg_transport ec) = Some 0"
    by (simp_all add: default_transports_built engine_defaults_def)
  let ?c = "sio_defaults\<lparr>ic_url := Some (default_path u), ic_redactPayload := \<not> b\<rparr>"
  have r: "sio_NewClient [sio_WithURL (Some u), sio_WithDebugPayload b] = Ret (Inr (finish_client ?c (BuiltEngine ec)
      (BuiltParser \<lparr>payloadParser = None, sp_logger = Some DefaultLogger_ref\<rparr>)))"
    using ec by (simp add: sio_NewClient_def sio_WithURL_def sio_WithDebugPayload_def sio_defaults_def NewParser_logger)
  show thesis
    by (rule that [OF r]) (use sup in \<open>simp_all add: finish_client_def empty_client_def client_namespace_def Let_def sio_defaults_def\<close>)
qed

text \<open>The states of a session that upgrades: connecting, upgrading, open.\<close>

definition connecting :: "bool \<Rightarrow> stack \<Rightarrow> bool" where
  "connecting red s \<longleftrightarrow>
     sk_sio s = (empty_client (sio_defaults\<lparr>ic_redactPayload := red\<rparr>))
       \<lparr>c_namespaces := [''/'' \<mapsto> new_namespace ''/''], c_defaultNs := ''/''\<rparr> \<and> sk_hooks s = 0 \<and>
     gates_ok (sk_eio s) \<and> ec_transport (sk_eio s) = Some 0 \<and> ec_transportClosed (sk_eio s) = Some new_errchan \<and>
     ec_waitHandshake (sk_eio s) \<noteq> None \<and> ec_messageHandler (sk_eio s) = Some 0 \<and> ec_afterConnect (sk_eio s) = Some 0 \<and>
     ec_supportedTransports (sk_eio s) = [(TransportPolling, 0), (TransportWebsocket, 1)] \<and>
     ec_calls (sk_eio s) = [TRun 0 [], TRequestHandshake 0]"

lemma stack_connects:
  assumes "healthy e" and "nc_client r = (empty_client (sio_defaults\<lparr>ic_redactPayload := red\<rparr>))
       \<lparr>c_namespaces := [''/'' \<mapsto> new_namespace ''/''], c_defaultNs := ''/''\<rparr>" and "nc_handlers r = [''connect'', ''message'']"
    and "map (\<lambda>(n, t). (n, transport_id t)) (eg_supportedTransports ec) = [(TransportPolling, 0), (TransportWebsocket, 1)]"
    and "map_option transport_id (eg_transport ec) = Some 0"
  shows "\<exists>s1. stack_Connect e None [] (stack_new r ec) = Done (s1, None) \<and> connecting red s1"
proof -
  let ?s = "stack_new r ec"
  have c: "stack_call e (\<lambda>d. sio_Connect d None []) ?s = Done (?s, None)"
    using assms(2) stack_call_quiet [of "\<lambda>d. sio_Connect d None []" e ?s "nc_client r" None]
    by (simp add: stack_new_def sio_Connect_def empty_client_def stack_deps_def)
  show ?thesis
    using assms
    by (simp add: stack_Connect_def c, simp add: stack_new_def eio_Connect_def engine_client_def eio_On_def call_transport_def
        healthy_def new_handshake_gate_def connecting_def gates_ok_def gate_once_def Let_def del: map_option_eq_Some)
qed

lemma connect_packet_written:
  assumes "c_handshakeData c = []" and "c_defaultNs c = ''/''" and "uses_default d"
  shows "c_sent (connectSocketIO d c) = c_sent c @ [[0x30]]"
    "d_Send d (c_sent c) [0x30] = None \<Longrightarrow> connectSocketIO d c = c\<lparr>c_sent := c_sent c @ [[0x30]]\<rparr>"
proof -
  have "sio_Serialize (Some ((new_message PacketConnect ''/'')\<lparr>msg_Payload := GMap []\<rparr>)) = Inr [0x30]"
    by code_simp
  with assms show "c_sent (connectSocketIO d c) = c_sent c @ [[0x30]]"
    "d_Send d (c_sent c) [0x30] = None \<Longrightarrow> connectSocketIO d c = c\<lparr>c_sent := c_sent c @ [[0x30]]\<rparr>"
    by (simp_all add: connectSocketIO_def sio_sendPacket_def uses_default_def default_parser_iface_def split: option.splits)
qed

text \<open>The hook of the Engine.IO client waits while the upgrade runs and writes the CONNECT packet after it.\<close>

lemma stack_hook_waits:
  assumes "sk_hooks s = 1" and "c_handshakeData (sk_sio s) = []" and "c_defaultNs (sk_sio s) = ''/''" and "\<not> gates_open (sk_eio s)"
  shows "stack_hook e s = Stuck"
  using assms connect_packet_written(1) [OF assms(2,3) stack_deps_default]
  by (simp add: stack_hook_def stack_call_def)

lemma stack_hook_connects:
  assumes "sk_hooks s = 1" and "c_handshakeData (sk_sio s) = []" and "c_defaultNs (sk_sio s) = ''/''" and "gates_open (sk_eio s)"
    and "default_eio e" and "healthy e" and "ec_transport (sk_eio s) = Some t"
  shows "stack_hook e s = Done (s\<lparr>sk_sio := (sk_sio s)\<lparr>c_sent := c_sent (sk_sio s) @ [[0x30]]\<rparr>,
     sk_eio := (sk_eio s)\<lparr>ec_calls := ec_calls (sk_eio s) @ [TSendMessage t (bytes_of_string ''40'')]\<rparr>, sk_hooks := 0\<rparr>)"
proof -
  have l: "int (length [0x30 :: byte]) \<le> sint defaultMaxSerializeSize" by (simp add: defaultMaxSerializeSize_def)
  have "(\<lambda>d c. Ret (connectSocketIO d c, ())) (stack_deps e s) (sk_sio s) = Ret ((sk_sio s)\<lparr>c_sent := c_sent (sk_sio s) @ [[0x30]]\<rparr>, ())"
    using connect_packet_written(2) [OF assms(2,3) stack_deps_default] stack_deps_Send [OF assms(5-7) l] by simp
  from stack_call_sends [of "\<lambda>d c. Ret (connectSocketIO d c, ())", OF this _ assms(5,4,7) l] assms(1)
  show ?thesis by (simp add: stack_hook_def)
qed

text \<open>The server's CONNECT opens the default namespace.\<close>

lemma stack_receive_connect:
  assumes "default_eio e" and "ec_messageHandler (sk_eio s) = Some h"
    and "sio_Parse default_parser reply = Ret (Some m, None)" and "msg_Type m = PacketConnect" and "msg_NS m = ''/''"
    and "c_namespaces (sk_sio s) ''/'' = Some ns" and "ns_name ns = ''/''" and "\<not> ns_hadConnected ns" and "ns_waitConnected ns = Some w"
  shows "\<exists>s' ns'. stack_receive e (0x34 # reply) s = Done (s', None) \<and> c_namespaces (sk_sio s') ''/'' = Some ns' \<and>
    ns_waitConnected ns' = Some True \<and> ns_name ns' = ''/'' \<and> c_defaultNs (sk_sio s') = c_defaultNs (sk_sio s) \<and> c_ctxErr (sk_sio s') = c_ctxErr (sk_sio s) \<and>
    ec_calls (sk_eio s') = ec_calls (sk_eio s) \<and> gview (sk_eio s') = gview (sk_eio s) \<and> ec_transport (sk_eio s') = ec_transport (sk_eio s)"
proof -
  obtain eio where B: "stack_receive e (0x34 # reply) s = run_bind (run_hcall e (OnMessage h reply) (s\<lparr>sk_eio := eio\<rparr>)) (\<lambda>s. Done (s, None))"
      "ec_calls eio = ec_calls (sk_eio s)" "gview eio = gview (sk_eio s)" "ec_transport eio = ec_transport (sk_eio s)"
    using stack_receive_message [OF assms(1,2)] by blast
  define s' where "s' = s\<lparr>sk_eio := eio\<rparr>"
  define c' where "c' = handleConnect ns (msg_Payload m) (sio_log LDebug ''socketio receive %s'' [sio_payload (sk_sio s) reply] (sk_sio s))"
  have "onMessage (stack_deps e s') reply (sk_sio s) = Ret c'"
    using assms(3-6) stack_deps_default [of e s']
    by (simp add: onMessage_def Let_def dispatch_def c'_def uses_default_def default_parser_iface_def)
  moreover have f: "c_sent c' = c_sent (sk_sio s)" "c_namespaces c' ''/'' = Some (mark_connected ns)"
    "c_defaultNs c' = c_defaultNs (sk_sio s)" "c_ctxErr c' = c_ctxErr (sk_sio s)"
    using assms(6,7)
    by (auto simp: c'_def handleConnect_def Let_def update_namespace_def safeGo_def sio_log_def split: option.splits)
  ultimately have "run_hcall e (OnMessage h reply) s' = Done (s'\<lparr>sk_sio := c'\<rparr>)"
    using stack_call_quiet [of _ e s' c' "()"] by (simp add: s'_def)
  with B f assms(7-9) show ?thesis by (simp add: s'_def mark_connected_def)
qed

text \<open>The upgrade: the hook waits in the middle, and finds the gates open at the end.\<close>

lemma stack_upgrades:
  assumes "default_eio e" and "healthy e" and "ed_Transport e 0 = TransportPolling"
    and "unmarshal_handshake data = Inr hs" and "hs_Sid hs \<noteq> []" and "hs_PingInterval hs = 0 \<or> 0 < sint (milliseconds (hs_PingInterval hs))"
    and "hs_Upgrades hs = [TransportWebsocket]" and "connecting red s1"
  obtains s2 s3 where "stack_receive e (0x30 # data) s1 = Done (s2, None)" "stack_hook e s2 = Stuck"
    "stack_receive e (bytes_of_string ''3probe'') s2 = Done (s3, None)" "sk_hooks s3 = 1" "sk_sio s3 = sk_sio s1" "gates_open (sk_eio s3)"
    "ec_transport (sk_eio s3) = Some 1" "ec_messageHandler (sk_eio s3) = Some 0"
    "stack_writes s3 = map (\<lambda>p. TSendMessage 1 (bytes_of_string p)) [''2probe'', ''5'']"
proof -
  note s1_facts = assms(8) [unfolded connecting_def]
  obtain c6 where hp: "handlePacket e (0x30 # data) (sk_eio s1) = Done (run_afterConnect c6, None)"
      and calls6: "ec_calls (run_afterConnect c6) = ec_calls (sk_eio s1) @ map (\<lambda>(_, t). TSetHandshake t hs) (ec_supportedTransports (sk_eio s1)) @
        [TStop 0, TRun 1 (hs_Sid hs), TSendMessage 1 (bytes_of_string ''2probe'')]"
      and up: "upgrading 1 (run_afterConnect c6)" and g6: "gate_open (run_afterConnect c6) (ec_waitHandshake (sk_eio s1))"
      and w6: "ec_waitHandshake (run_afterConnect c6) = ec_waitHandshake (sk_eio s1)" and h6: "hooks c6 = hooks (sk_eio s1)"
    by (rule open_packet_upgrades [OF _ assms(1,2) _ _ _ assms(4-7), of "sk_eio s1" 0 1])
      (use s1_facts assms(3) in \<open>simp_all add: TransportPolling_def TransportWebsocket_def\<close>)
  define s2 where "s2 = s1\<lparr>sk_eio := run_afterConnect c6, sk_hooks := 1\<rparr>"
  have s2: "stack_receive e (0x30 # data) s1 = Done (s2, None)"
    using hp h6 s1_facts by (simp add: stack_receive_def hooks_def run_afterConnect_def s2_def)
  have s2_sio: "sk_hooks s2 = 1" "c_handshakeData (sk_sio s2) = []" "c_defaultNs (sk_sio s2) = ''/''"
    using s1_facts by (simp_all add: s2_def empty_client_def)
  have waits: "stack_hook e s2 = Stuck"
    by (rule stack_hook_waits [OF s2_sio]) (use upgrading_gate [OF up] in \<open>simp add: gates_open_def s2_def\<close>)
  obtain c2 where c2: "handlePacket e (bytes_of_string ''3probe'') (run_afterConnect c6) = Done (c2, None)"
      "ec_calls c2 = ec_calls (run_afterConnect c6) @ [TSendMessage 1 (bytes_of_string ''5'')]"
      "gate_open c2 (ec_waitUpgrade c2)" "ec_waitHandshake c2 = ec_waitHandshake (run_afterConnect c6)" "ec_transport c2 = Some 1"
      "hooks c2 = hooks (run_afterConnect c6)" "set (ec_closedGates (run_afterConnect c6)) \<subseteq> set (ec_closedGates c2)"
    using probe_reply [OF assms(1,2) up] by auto
  define s3 where "s3 = s2\<lparr>sk_eio := c2\<rparr>"
  have s3: "stack_receive e (bytes_of_string ''3probe'') s2 = Done (s3, None)"
    using c2(1,6) by (simp add: stack_receive_def s2_def s3_def hooks_def)
  have open3: "gates_open (sk_eio s3)"
    using c2(3,4,7) g6 w6 by (auto simp: gates_open_def s3_def gate_open_def split: option.splits)
  have s3_facts: "ec_transport (sk_eio s3) = Some 1" "ec_messageHandler (sk_eio s3) = Some 0"
    using c2(5,6) h6 s1_facts by (simp_all add: s3_def hooks_def run_afterConnect_def split: option.splits)
  have "stack_writes s3 = map (\<lambda>p. TSendMessage 1 (bytes_of_string p)) [''2probe'', ''5'']"
    using c2(2) calls6 s1_facts by (simp add: stack_writes_def writes_def s3_def)
  with s2 waits s3 open3 s3_facts show thesis by (intro that [of s2 s3]) (simp_all add: s3_def s2_def)
qed

text \<open>
  C6: A session from the constructor to the first event, with a server that offers the WebSocket
  upgrade. \<^verbatim>\<open>NewClient\<close> with a URL and \<^verbatim>\<open>Connect\<close> succeed and an \<^verbatim>\<open>Emit\<close> waits. The open packet starts the
  upgrade; the CONNECT packet waits for it and is written after \<^verbatim>\<open>2probe\<close> and \<^verbatim>\<open>5\<close>, on the new
  transport, so the writes are exactly \<^verbatim>\<open>2probe\<close>, \<^verbatim>\<open>5\<close>, \<^verbatim>\<open>40\<close> in this order. The server's CONNECT writes
  nothing and opens the default namespace: the next \<^verbatim>\<open>Emit\<close> finds every gate open.
\<close>

theorem session_established:
  assumes "default_eio e" and "healthy e" and "ed_Transport e 0 = TransportPolling" and "good_scheme u"
    and "unmarshal_handshake data = Inr hs" and "hs_Sid hs \<noteq> []" and "hs_PingInterval hs = 0 \<or> 0 < sint (milliseconds (hs_PingInterval hs))"
    and "hs_Upgrades hs = [TransportWebsocket]"
    and "sio_Parse default_parser reply = Ret (Some m, None)" and "msg_Type m = PacketConnect" and "msg_NS m = ''/''"
  shows "\<exists>r ec s1 s2 s3 s4 s5 ns. sio_NewClient [sio_WithURL (Some u), sio_WithDebugPayload b] = Ret (Inr r) \<and> nc_engineio r = BuiltEngine ec \<and>
     stack_Connect e None [] (stack_new r ec) = Done (s1, None) \<and> (\<forall>name args. stack_Emit e (EvName name) args s1 = Done (s1, EmitBlocked)) \<and>
     stack_receive e (0x30 # data) s1 = Done (s2, None) \<and> stack_hook e s2 = Stuck \<and>
     stack_receive e (bytes_of_string ''3probe'') s2 = Done (s3, None) \<and> stack_hook e s3 = Done s4 \<and>
     stack_receive e (0x34 # reply) s4 = Done (s5, None) \<and>
     stack_writes s5 = map (\<lambda>p. TSendMessage 1 (bytes_of_string p)) [''2probe'', ''5'', ''40''] \<and>
     gates_open (sk_eio s5) \<and> c_namespaces (sk_sio s5) (c_defaultNs (sk_sio s5)) = Some ns \<and> ns_waitConnected ns = Some True"
proof -
  obtain r ec where r: "sio_NewClient [sio_WithURL (Some u), sio_WithDebugPayload b] = Ret (Inr r)" "nc_engineio r = BuiltEngine ec"
      and built: "nc_client r = (empty_client (sio_defaults\<lparr>ic_redactPayload := \<not> b\<rparr>))
          \<lparr>c_namespaces := [''/'' \<mapsto> new_namespace ''/''], c_defaultNs := ''/''\<rparr>" "nc_handlers r = [''connect'', ''message'']"
        "map (\<lambda>(n, t). (n, transport_id t)) (eg_supportedTransports ec) = [(TransportPolling, 0), (TransportWebsocket, 1)]"
        "map_option transport_id (eg_transport ec) = Some 0"
    by (rule stack_built [OF assms(4), of b])
  obtain s1 where s1: "stack_Connect e None [] (stack_new r ec) = Done (s1, None)" and c1: "connecting (\<not> b) s1"
    using stack_connects [OF assms(2) built] by blast
  note s1_facts = c1 [unfolded connecting_def]
  have blocked: "stack_Emit e (EvName name) args s1 = Done (s1, EmitBlocked)" for name args
    using s1_facts stack_call_quiet [of "\<lambda>d. client_Emit d False (EvName name) args" e s1 "sk_sio s1" EmitBlocked]
    by (simp add: stack_Emit_def client_Emit_def ns_Emit_def emit_gate_def new_namespace_def empty_client_def)
  obtain s2 s3 where s3: "stack_receive e (0x30 # data) s1 = Done (s2, None)" "stack_hook e s2 = Stuck"
      "stack_receive e (bytes_of_string ''3probe'') s2 = Done (s3, None)" "sk_hooks s3 = 1" "sk_sio s3 = sk_sio s1" "gates_open (sk_eio s3)"
      "ec_transport (sk_eio s3) = Some 1" "ec_messageHandler (sk_eio s3) = Some 0"
      "stack_writes s3 = map (\<lambda>p. TSendMessage 1 (bytes_of_string p)) [''2probe'', ''5'']"
    by (rule stack_upgrades [OF assms(1-3,5-8) c1])
  have s3_sio: "c_handshakeData (sk_sio s3) = []" "c_defaultNs (sk_sio s3) = ''/''"
    using s1_facts s3(5) by (simp_all add: empty_client_def)
  define s4 where "s4 = s3\<lparr>sk_sio := (sk_sio s3)\<lparr>c_sent := c_sent (sk_sio s3) @ [[0x30]]\<rparr>,
     sk_eio := (sk_eio s3)\<lparr>ec_calls := ec_calls (sk_eio s3) @ [TSendMessage 1 (bytes_of_string ''40'')]\<rparr>, sk_hooks := 0\<rparr>"
  have s4: "stack_hook e s3 = Done s4"
    unfolding s4_def by (rule stack_hook_connects [OF s3(4) s3_sio s3(6) assms(1,2) s3(7)])
  have "c_namespaces (sk_sio s4) ''/'' = Some (new_namespace ''/'')" "ec_messageHandler (sk_eio s4) = Some 0"
    using s1_facts s3(5,8) by (simp_all add: s4_def)
  from stack_receive_connect [OF assms(1) this(2) assms(9-11) this(1), of False]
  obtain s5 ns where s5: "stack_receive e (0x34 # reply) s4 = Done (s5, None)" "c_namespaces (sk_sio s5) ''/'' = Some ns"
      "ns_waitConnected ns = Some True" "c_defaultNs (sk_sio s5) = c_defaultNs (sk_sio s4)"
      "ec_calls (sk_eio s5) = ec_calls (sk_eio s4)" "gview (sk_eio s5) = gview (sk_eio s4)"
    by (auto simp: new_namespace_def)
  have "gview (sk_eio s4) = gview (sk_eio s3)" by (simp add: s4_def)
  with s5(6) have "gates_open (sk_eio s5)"
    using s3(6) gate_open_gview [of "sk_eio s5" "sk_eio s3"] by (simp add: gates_open_def gview_def)
  moreover have "stack_writes s5 = map (\<lambda>p. TSendMessage 1 (bytes_of_string p)) [''2probe'', ''5'', ''40'']"
    using s5(5) s3(9) by (simp add: stack_writes_def writes_def s4_def)
  moreover have "c_defaultNs (sk_sio s4) = ''/''" using s3_sio(2) by (simp add: s4_def)
  ultimately show ?thesis using r s1 blocked s3 s4 s5 by auto
qed

theorem session_established_witness:
  "\<exists>s4 s5. stack_receive demo_eio (bytes_of_string ''40'') s4 = Done (s5, None) \<and>
     stack_writes s5 = map (\<lambda>p. TSendMessage 1 (bytes_of_string p)) [''2probe'', ''5'', ''40'']"
proof -
  have h: "ed_Transport demo_eio 0 = TransportPolling" "unmarshal_handshake demo_json = Inr demo_handshake" "hs_Sid demo_handshake \<noteq> []"
    "hs_Upgrades demo_handshake = [TransportWebsocket]"
    by (simp_all add: demo_json_decoded) (simp_all add: demo_eio_def demo_handshake_def TransportWebsocket_def)
  have i: "0 < sint (milliseconds (hs_PingInterval demo_handshake))" by code_simp
  have p: "sio_Parse default_parser [0x30] = Ret (Some (new_message PacketConnect ''/''), None)" by code_simp
  have u: "good_scheme \<lparr>u_Scheme = ''wss'', u_Host = ''h'', u_Path = [], u_RawQuery = []\<rparr>" by (simp add: good_scheme_def)
  have m: "msg_Type (new_message PacketConnect ''/'') = PacketConnect" "msg_NS (new_message PacketConnect ''/'') = ''/''"
    by (simp_all add: new_message_def)
  have d: "bytes_of_string ''40'' = 0x34 # [0x30]" by simp
  from session_established [where b = False, OF demo_eio_default h(1) u h(2,3) disjI2 [OF i] h(4) p m] show ?thesis
    unfolding d by blast
qed

definition demo_open :: "namespace \<Rightarrow> stack" where
  "demo_open ns = \<lparr>sk_sio = demo_client\<lparr>c_namespaces := [''/'' \<mapsto> ns]\<rparr>, sk_eio = w_client demo_world, sk_hooks = 0\<rparr>"

theorem wire_event_witness:
  "\<exists>a' b'. stack_Emit demo_eio (EvName ''msg'') [ArgVal (GInt 7)] (demo_open (mark_connected (new_namespace ''/''))) = Done (a', EmitReturned None) \<and>
     stack_receive demo_eio (bytes_of_string ''42['' @ quote (bytes_of_string ''msg'') @ bytes_of_string '',7]'')
       (demo_open ((new_namespace ''/'')\<lparr>ns_anyHandlers := [3]\<rparr>)) = Done (b', None) \<and> length (c_tasks (sk_sio b')) = 1"
proof -
  let ?ns = "mark_connected (new_namespace ''/'')"
  let ?nsb = "(new_namespace ''/'')\<lparr>ns_anyHandlers := [3]\<rparr>"
  let ?ev = "\<lparr>ev_Name = ''msg'', ev_Payloads = [GInt 7]\<rparr>"
  let ?out = "bytes_of_string ''2['' @ quote (bytes_of_string ''msg'') @ bytes_of_string '',7]''"
  have a: "gates_open (sk_eio (demo_open ?ns))" "ec_transport (sk_eio (demo_open ?ns)) = Some 0"
    "c_namespaces (sk_sio (demo_open ?ns)) (c_defaultNs (sk_sio (demo_open ?ns))) = Some ?ns" "ns_waitConnected ?ns = Some True"
    "c_ctxErr (sk_sio (demo_open ?ns)) = None" "ec_messageHandler (sk_eio (demo_open ?nsb)) = Some 7"
    "c_namespaces (sk_sio (demo_open ?nsb)) (ns_name ?ns) = Some ?nsb"
    by (simp_all add: demo_open_def demo_world_def gates_open_def gate_open_def demo_client_def mark_connected_def new_namespace_def)
  have m: "wf_event_message ((new_message PacketEvent (ns_name ?ns))\<lparr>msg_Event := Some ?ev\<rparr>)"
    "sio_Serialize (Some ((new_message PacketEvent (ns_name ?ns))\<lparr>msg_Event := Some ?ev\<rparr>)) = Inr ?out"
    "int (length ?out) \<le> sint defaultMaxSerializeSize"
    by code_simp+
  from wire_event [OF demo_eio_default a(1-5) refl refl m demo_eio_default(1) a(6,7)] show ?thesis
    by (auto simp: demo_open_def demo_client_def handlers_of_def new_namespace_def)
qed

end
