(* ===== verification/Transport_Contract.thy ===== *)
theory Transport_Contract
  imports Transport_Polling Transport_WebSocket "HOL-Library.Sublist"
begin

text \<open>
  What the Engine.IO client relies on in a transport (\<^verbatim>\<open>Run\<close> in \<^verbatim>\<open>dep.go\<close>): a run delivers messages,
  then reports its end once, and delivers nothing afterwards, so that the client may close the
  message channel when it has taken the report. The contract is an abstract transition system; both
  transports of the library refine it.
\<close>

section \<open>The abstract run\<close>

type_synonym abstract_run = "bytes list \<times> go_error option list"

inductive contract_step :: "abstract_run \<Rightarrow> abstract_run \<Rightarrow> bool" where
  c_stutter: "contract_step a a"
| c_deliver: "contract_step (ds, []) (ds @ [m], [])"
| c_report: "contract_step (ds, []) (ds, [v])"

lemma contract_step_facts:
  assumes "contract_step a b"
  shows "prefix (fst a) (fst b)" "snd a \<noteq> [] \<Longrightarrow> b = a" "length (snd a) \<le> 1 \<Longrightarrow> length (snd b) \<le> 1"
  using assms by (induction rule: contract_step.induct) auto

locale transport_run =
  fixes init :: "'s \<Rightarrow> bool"
    and step :: "'s \<Rightarrow> 's \<Rightarrow> bool"
    and abs_run :: "'s \<Rightarrow> abstract_run"
  assumes init_refines: "init s \<Longrightarrow> snd (abs_run s) = []"
    and step_refines: "reachable init step s \<Longrightarrow> step s t \<Longrightarrow> contract_step (abs_run s) (abs_run t)"
begin

lemma reports_at_most_one: "reachable init step s \<Longrightarrow> length (snd (abs_run s)) \<le> 1"
proof (induction rule: reachable.induct)
  case (reachable_init s)
  then show ?case by (simp add: init_refines)
next
  case (reachable_step s t)
  then have "contract_step (abs_run s) (abs_run t)" by (intro step_refines)
  with reachable_step.IH show ?case by (rule contract_step_facts(3) [rotated])
qed

lemma run_extends:
  assumes "reachable init step s" and "step\<^sup>*\<^sup>* s t"
  shows "prefix (fst (abs_run s)) (fst (abs_run t)) \<and> (snd (abs_run s) \<noteq> [] \<longrightarrow> abs_run t = abs_run s)"
proof -
  from assms(2) have "reachable init step t \<and> prefix (fst (abs_run s)) (fst (abs_run t)) \<and>
      (snd (abs_run s) \<noteq> [] \<longrightarrow> abs_run t = abs_run s)"
  proof (induction rule: rtranclp_induct)
    case base
    then show ?case using assms(1) by simp
  next
    case (step y z)
    then have "contract_step (abs_run y) (abs_run z)" by (intro step_refines) simp_all
    note facts = contract_step_facts [OF this]
    have "reachable init step z" using step by (blast intro: reachable_step)
    moreover have "prefix (fst (abs_run s)) (fst (abs_run z))"
      using step.IH facts(1) by (blast intro: prefix_order.trans)
    moreover have "snd (abs_run s) \<noteq> [] \<longrightarrow> abs_run z = abs_run s"
      using step.IH facts(2) by auto
    ultimately show ?case by blast
  qed
  then show ?thesis by simp
qed

end

section \<open>The transports refine it\<close>

definition reports_of :: "go_error option list option \<Rightarrow> go_error option list" where
  "reports_of ch = (case ch of None \<Rightarrow> [] | Some rs \<Rightarrow> rs)"

definition polling_abs :: "polling_run \<Rightarrow> abstract_run" where
  "polling_abs r = (pt_delivered (pr_t r), reports_of (pt_onClose (pr_t r)))"

definition ws_abs :: "ws_run \<Rightarrow> abstract_run" where
  "ws_abs r = (wt_delivered (wr_t r), reports_of (wt_onClose (wr_t r)))"

lemma polling_abs_running: "polling_inv r \<Longrightarrow> pr_pc r \<noteq> Finished \<Longrightarrow> polling_abs r = (pt_delivered (pr_t r), [])"
  by (auto simp: polling_inv_def reported_def polling_abs_def reports_of_def split: option.splits)

lemma finish_abs:
  assumes "polling_inv r" and "pr_pc r \<noteq> Finished"
  shows "contract_step (polling_abs r) (polling_abs (finish b r))" "contract_step (polling_abs r) (polling_abs (finish_stop r))"
proof -
  obtain rs where "pt_onClose (pr_t r) = Some rs" "rs = []"
    using assms by (auto simp: polling_inv_def reported_def split: option.splits)
  then show "contract_step (polling_abs r) (polling_abs (finish b r))" "contract_step (polling_abs r) (polling_abs (finish_stop r))"
    by (auto simp: polling_abs_def reports_of_def polling_op_defs intro: c_report)
qed

lemma poll_step_refines: "poll_step r r' \<Longrightarrow> polling_inv r \<Longrightarrow> contract_step (polling_abs r) (polling_abs r')"
proof (induction rule: poll_step.induct)
  case (deliver r body)
  then have "polling_abs r = (pt_delivered (pr_t r), [])" by (intro polling_abs_running) simp_all
  then show ?case by (simp add: polling_abs_def c_deliver)
qed (simp_all add: finish_abs, simp_all add: polling_abs_def pt_logf_def c_stutter)

lemma polling_step_refines: "polling_step r r' \<Longrightarrow> polling_inv r \<Longrightarrow> contract_step (polling_abs r) (polling_abs r')"
proof (induction rule: polling_step.induct)
  case (p_handshake hs r t)
  then show ?case using pt_SetHandshake_frame [OF p_handshake(2)] by (simp add: polling_abs_def c_stutter)
qed (simp_all add: poll_step_refines, simp_all add: polling_abs_def pt_Stop_def Let_def c_stutter)

interpretation polling_contract: transport_run polling_init polling_step polling_abs
proof
  show "polling_init r \<Longrightarrow> snd (polling_abs r) = []" for r
    by (auto simp: polling_init_def polling_abs_def reports_of_def pt_Run_frame)
qed (auto intro: polling_step_refines dest: polling.reachable_inv)

lemma ws_abs_running:
  "websocket_inv r \<Longrightarrow> \<not> ws_finished r \<Longrightarrow> wt_onClose (wr_t r) = Some []"
  by (auto simp: websocket_inv_def split: option.splits)

lemma ws_leave_refines:
  assumes "websocket_inv r" and "\<not> ws_finished r"
  shows "contract_step (ws_abs r) (ws_abs (ws_leave fmt v r))" "contract_step (ws_abs r) (ws_abs (ws_leave_stop fmt r))"
    "contract_step (ws_abs r) (ws_abs (r\<lparr>wr_t := notify_close v (wt_logf lv fmt as (wr_t r)), wr_errorCh := es, wr_pc := pc\<rparr>))"
  using ws_abs_running [OF assms]
  by (auto simp: ws_abs_def reports_of_def ws_op_defs intro: c_report)

lemma ws_step_refines: "ws_step r r' \<Longrightarrow> websocket_inv r \<Longrightarrow> contract_step (ws_abs r) (ws_abs r')"
proof (induction rule: ws_step.induct)
  case (deliver_message r message)
  then have "wt_onClose (wr_t r) = Some []" by (intro ws_abs_running) (simp_all add: ws_finished_def)
  then show ?case by (simp add: ws_abs_def reports_of_def c_deliver)
qed (simp_all add: ws_leave_refines ws_finished_def, simp_all add: ws_abs_def wt_logf_def c_stutter)

lemma websocket_step_refines: "websocket_step r r' \<Longrightarrow> websocket_inv r \<Longrightarrow> contract_step (ws_abs r) (ws_abs r')"
  by (induction rule: websocket_step.induct)
    (simp_all add: ws_step_refines, simp_all add: ws_abs_def wt_Stop_def wt_SetHandshake_def c_stutter)

interpretation ws_contract: transport_run websocket_init websocket_step ws_abs
proof
  show "websocket_init r \<Longrightarrow> snd (ws_abs r) = []" for r
    by (auto simp: websocket_init_def ws_abs_def reports_of_def ws_started_def dest!: wt_Run_frame(1))
qed (auto intro: websocket_step_refines dest: websocket.reachable_inv)

section \<open>What the client gets\<close>

text \<open>
  C12: Both transports refine the contract of a run: every step of the polling transport and of the
  WebSocket transport, from any state they can reach and whatever their peers do, is a step of the
  abstract run: it changes nothing, delivers one more message while no end has been reported, or
  reports the end for the first time.
\<close>

theorem transports_refine_contract:
  "(reachable polling_init polling_step p \<and> polling_step p p' \<longrightarrow> contract_step (polling_abs p) (polling_abs p')) \<and>
   (reachable websocket_init websocket_step w \<and> websocket_step w w' \<longrightarrow> contract_step (ws_abs w) (ws_abs w'))"
  by (blast intro: polling_contract.step_refines ws_contract.step_refines)

theorem transports_refine_contract_witness:
  "contract_step (polling_abs demo_in_poll) (polling_abs demo_stopping) \<and>
   contract_step (ws_abs demo_ws_reading) (ws_abs (demo_ws_reading\<lparr>wr_t := wt_Stop (wr_t demo_ws_reading)\<rparr>))"
  using transports_refine_contract [of demo_in_poll demo_stopping demo_ws_reading
      "demo_ws_reading\<lparr>wr_t := wt_Stop (wr_t demo_ws_reading)\<rparr>"]
    demo_in_poll_reachable demo_ws_reachable p_stop [of demo_in_poll] w_stop [of demo_ws_reading]
  by (simp add: demo_stopping_def)

text \<open>
  C13: Once a transport has reported its end it delivers nothing more and reports nothing more, so the
  Engine.IO client may close the message channel after it has taken the report: no send on a closed
  channel can come from the loop of a transport.
\<close>

theorem transports_silent_after_report:
  "(reachable polling_init polling_step p \<and> snd (polling_abs p) \<noteq> [] \<and> polling_step\<^sup>*\<^sup>* p p' \<longrightarrow> polling_abs p' = polling_abs p) \<and>
   (reachable websocket_init websocket_step w \<and> snd (ws_abs w) \<noteq> [] \<and> websocket_step\<^sup>*\<^sup>* w w' \<longrightarrow> ws_abs w' = ws_abs w)"
  using polling_contract.run_extends [of p p'] ws_contract.run_extends [of w w'] by blast

definition demo_left :: ws_run where
  "demo_left = ws_leave_stop ''Context cancelled, exiting ws read loop'' (demo_ws_reading\<lparr>wr_t := wt_Stop (wr_t demo_ws_reading)\<rparr>)"

lemma demo_left_reachable: "reachable websocket_init websocket_step demo_left"
  unfolding demo_left_def
  by (rule reachable_step [OF demo_ws_stopping_reachable], rule w_loop, rule select_stop)
    (simp_all add: demo_ws_reading_def wt_Stop_def)

theorem transports_silent_after_report_witness:
  "ws_abs (demo_left\<lparr>wr_t := wt_Stop (wr_t demo_left)\<rparr>) = ws_abs demo_left \<and> snd (ws_abs demo_left) \<noteq> []"
proof -
  have "length (snd (ws_abs demo_left)) = 1"
    using websocket.reachable_inv [OF demo_left_reachable]
    by (auto simp: websocket_inv_def ws_abs_def reports_of_def ws_finished_def demo_left_def ws_leave_stop_def ws_leave_def
        split: option.splits)
  then have "snd (ws_abs demo_left) \<noteq> []" by auto
  with transports_silent_after_report [of demo_in_poll demo_in_poll demo_left "demo_left\<lparr>wr_t := wt_Stop (wr_t demo_left)\<rparr>"]
    demo_left_reachable w_stop [of demo_left] show ?thesis by blast
qed

end
