(* ===== verification/Spec2Isabelle.thy ===== *)
theory Spec2Isabelle
  imports Full_Stack Transport_Contract
begin

text \<open>
  Verification of a Socket.IO v5 client over Engine.IO v4 written in Go
  (\<^verbatim>\<open>maldikhan/go.socket.io\<close>; the paths below are relative to \<^verbatim>\<open>src/\<close>).

  \<^bold>\<open>The program.\<close> A Socket.IO client (\<^verbatim>\<open>socket.io/v5/client\<close>) turns \<^verbatim>\<open>Emit\<close>, \<^verbatim>\<open>On\<close>, \<^verbatim>\<open>OnAny\<close> and
  \<^verbatim>\<open>Connect\<close> into Socket.IO packets, which its parser (\<^verbatim>\<open>socket.io/v5/parser/default\<close>) writes and reads as
  text with JSON. It sends them with \<^verbatim>\<open>Send\<close> of an Engine.IO client (\<^verbatim>\<open>engine.io/v4/client\<close>) and receives
  them through the handlers it registers there. The Engine.IO client does the handshake, the heartbeat,
  the upgrade from polling to WebSocket and the closing; it wraps messages into Engine.IO packets
  (\<^verbatim>\<open>engine.io/v4/parser\<close>) and uses a transport (\<^verbatim>\<open>transport/polling\<close>, \<^verbatim>\<open>transport/websocket\<close> on
  \<^verbatim>\<open>websocket/native\<close>), which runs a goroutine of its own, delivers into a channel and reports its end on
  another.

  \<^bold>\<open>Conventions.\<close> A byte slice is a list of 8-bit words, a Go string a HOL string with one character
  per byte, \<^verbatim>\<open>int64\<close>, \<^verbatim>\<open>int\<close> counters and durations are 64-bit words read with \<open>sint\<close>. An error is a value of
  \<open>go_error\<close>; a function that may panic returns \<open>go\<close> (\<open>Ret\<close>, \<open>Panic\<close>), one that may also wait forever
  returns \<open>run\<close> (\<open>Done\<close>, \<open>Crash\<close>, \<open>Stuck\<close>). A structure is a record, a value behind an interface that the
  library only passes on is a reference, log lines and calls on interfaces are kept in traces, so that
  claims about what is logged, written or called are claims about the state. Goroutines are entries of
  the state that a step relation runs in any order.

  \<^bold>\<open>The theories.\<close>

  \<^item> \<^verbatim>\<open>Prelude\<close>: bytes, strings, decimal numbers, errors, panics, and the locales \<open>packet_codec\<close> (a
    serializer and a parser that undo each other) and \<open>invariant_system\<close> (initial states, steps, an
    invariant), which the components interpret.
  \<^item> \<^verbatim>\<open>EngineIO_Parser\<close>: \<^verbatim>\<open>engine.io/v4/defs.go\<close> and \<^verbatim>\<open>parser/parser.go\<close>: accepted packets, size limit, round
    trip.
  \<^item> \<^verbatim>\<open>GoJSON\<close>: what the code uses of \<^verbatim>\<open>encoding/json\<close>: Go values, \<^verbatim>\<open>Marshal\<close>, the scanner, reading a value
    from a stream, quoting and unquoting with UTF-8; every marshalled value is read back.
  \<^item> \<^verbatim>\<open>SocketIO_Parser\<close>: \<^verbatim>\<open>parser.go\<close>, \<^verbatim>\<open>payloadparser.go\<close>, \<^verbatim>\<open>serializer.go\<close>, \<^verbatim>\<open>callback.go\<close>: the round trip of
    EVENT and ACK messages, absence of panics, the shape of accepted messages, refused messages, and
    when a wrapped callback is called.
  \<^item> \<^verbatim>\<open>Logging\<close>: \<^verbatim>\<open>utils/logger.go\<close> and the redaction of payloads.
  \<^item> \<^verbatim>\<open>SocketIO_Client\<close>: the state and the operations of \<^verbatim>\<open>client.go\<close>, \<^verbatim>\<open>handlers.go\<close>, \<^verbatim>\<open>emitters.go\<close> and
    \<^verbatim>\<open>emit/options.go\<close>.
  \<^item> \<^verbatim>\<open>SocketIO_Acks\<close>: the client as a step relation (packets, emits, goroutines, timers, contexts in any
    order): an acknowledgement has at most one outcome, no goroutine blocks, late replies do nothing.
  \<^item> \<^verbatim>\<open>SocketIO_Delivery\<close>: delivery of events, the cycle of an emit with its acknowledgement, the connection
    gate, the packets that panic.
  \<^item> \<^verbatim>\<open>EngineIO_Client\<close>, \<^verbatim>\<open>EngineIO_Gates\<close>, \<^verbatim>\<open>EngineIO_Session\<close>: \<^verbatim>\<open>engine.io/v4/client/client.go\<close>: its operations; the
    interleaving of \<^verbatim>\<open>Connect\<close>, \<^verbatim>\<open>Send\<close>, \<^verbatim>\<open>Close\<close>, the message loop and arriving packets with the invariant that
    ties each gate to its \<^verbatim>\<open>sync.Once\<close>; the protocol: routing, handshake, upgrade, closing, and which
    packets panic.
  \<^item> \<^verbatim>\<open>GoURL\<close>: what the code uses of \<^verbatim>\<open>net/url\<close>: query escaping, parsing and encoding.
  \<^item> \<^verbatim>\<open>Transport_Polling\<close>, \<^verbatim>\<open>WebSocket_Native\<close>, \<^verbatim>\<open>Transport_WebSocket\<close>: the transports with their loops as step
    relations: the stop protocol, single reports, bounded payloads, URLs.
  \<^item> \<^verbatim>\<open>Transport_Contract\<close>: the abstract run of a transport (deliver, then report the end once) as the locale
    \<open>transport_run\<close>, which both transports refine.
  \<^item> \<^verbatim>\<open>Constructors\<close>: the five \<^verbatim>\<open>constructor.go\<close> files with every option; what they build is an initial state
    of the step relations.
  \<^item> \<^verbatim>\<open>Full_Stack\<close>: the two clients wired as \<^verbatim>\<open>NewClient\<close> does it, so that the interfaces between them are the
    modelled operations: a session from the constructor to the first event, and the way of an event
    from one client to another.

  \<^bold>\<open>Bounds and fuel.\<close> Nothing is bounded by fuel: the recursive functions are structural or have a
  measure (the decoder loop and the argument loop of \<^verbatim>\<open>Emit\<close>: the bytes and arguments left). The nesting
  limit of \<^verbatim>\<open>encoding/json\<close> is its own constant. The acknowledgement relation takes emits only while the
  64-bit counter has not reached its largest value; ids are then unique.

  \<^bold>\<open>Granularity.\<close> A step of a relation is the code between two points where another goroutine can
  interfere: a critical section, a channel operation, a call on an interface. \<^verbatim>\<open>handlePacket\<close> of the
  Engine.IO client is one step, with the calls on the transport it makes. In \<^verbatim>\<open>Full_Stack\<close> an operation of
  the Socket.IO client is one step together with the \<^verbatim>\<open>Send\<close> it ends in.

  \<^bold>\<open>Parameters.\<close> The server's bytes and the answers of the network (HTTP responses, \<^verbatim>\<open>x/net/websocket\<close>) are
  arguments; so are \<^verbatim>\<open>url.Parse\<close>, the decoding of JSON into a user's own types, and the answers of a
  transport to the Engine.IO client. Where a property needs more of them it says so: \<open>healthy\<close> transports
  accept every call and report the end of a stopped run, which \<^verbatim>\<open>Transport_Contract\<close> shows of the two.

  \<^bold>\<open>Not modelled.\<close> The generated mocks, the tests and the end-to-end harness; \<^verbatim>\<open>utils/timer.go\<close>, one call of
  \<^verbatim>\<open>time.After\<close> (a timer fires in a step of its own); data races on fields that the code reads without
  its lock, except where the effect is that of another order of steps. The poll that
  \<^verbatim>\<open>RequestHandshake\<close> makes runs in the caller's goroutine, before the run that the contract describes.
\<close>

end
